(* ===== verification/Prelude.thy ===== *)
theory Prelude
  imports Main "HOL-Library.Word" "HOL-Library.Multiset" "HOL-Library.AList"
begin

text \<open>
  What every component shares: the types the Go code uses everywhere (\<open>uuid.UUID\<close>, the clock,
  the 64-bit \<open>int\<close> and \<open>int64\<close> with their wrap-around), the collections of facts the component
  proofs use, and generic lemmas on lists that the standard library does not have in this form.
\<close>

section \<open>Collections\<close>

text \<open>
  \<open>go_simps\<close>: the definitions of the small operations that a proof about a handler may unfold.
  \<open>db_frame\<close>: what an operation leaves unchanged.
\<close>

named_theorems go_simps
named_theorems db_frame

section \<open>Scalar types\<close>

text \<open>A \<open>uuid.UUID\<close> is an array of 16 bytes; \<open>time.Time\<close> is read as a number of nanoseconds.\<close>

type_synonym uuid = "128 word"
type_synonym go_time = int

text \<open>
  Go's \<open>int\<close> (on the 64-bit targets this program is built for) and \<open>int64\<close> wrap around in two's
  complement. They are integers here, with the wrap-around written at every addition.
\<close>

definition wrap64 :: "int \<Rightarrow> int" where
  "wrap64 x = (x + 2 ^ 63) mod 2 ^ 64 - 2 ^ 63"

lemma wrap64_id: "- (2 ^ 63) \<le> x \<Longrightarrow> x < 2 ^ 63 \<Longrightarrow> wrap64 x = x"
  by (simp add: wrap64_def)

lemma wrap64_range: "- (2 ^ 63) \<le> wrap64 x \<and> wrap64 x < 2 ^ 63"
  by (simp add: wrap64_def)

lemma wrap64_sint: "wrap64 x = sint (word_of_int x :: 64 word)"
  by (simp add: wrap64_def sint_sbintrunc' signed_take_bit_eq_take_bit_shift take_bit_eq_mod)

section \<open>Lists\<close>

text \<open>Exchanging two elements, Go's \<open>xs[i], xs[j] = xs[j], xs[i]\<close>.\<close>

definition swap_at :: "nat \<Rightarrow> nat \<Rightarrow> 'a list \<Rightarrow> 'a list" where
  "swap_at i j xs = xs[i := xs ! j, j := xs ! i]"

lemma length_swap_at [simp]: "length (swap_at i j xs) = length xs"
  by (simp add: swap_at_def)

lemma mset_swap_at: "i < length xs \<Longrightarrow> j < length xs \<Longrightarrow> mset (swap_at i j xs) = mset xs"
  by (simp add: swap_at_def mset_swap)

lemma nth_swap_at:
  "i < length xs \<Longrightarrow> j < length xs \<Longrightarrow>
   swap_at i j xs ! k = (if k = j then xs ! i else if k = i then xs ! j else xs ! k)"
  by (cases "k < length xs") (auto simp: swap_at_def nth_list_update)

text \<open>Searching a table by a key that determines the row.\<close>

lemma find_Some_iff_distinct:
  assumes "distinct (map f xs)"
  shows "find (\<lambda>x. f x = k) xs = Some y \<longleftrightarrow> y \<in> set xs \<and> f y = k"
  using assms by (induction xs) (auto simp: image_iff)

lemma find_None_iff_key: "find (\<lambda>x. f x = k) xs = None \<longleftrightarrow> k \<notin> f ` set xs"
  by (auto simp: find_None_iff)

lemma find_key: "find (\<lambda>x. f x = k) xs = Some y \<Longrightarrow> y \<in> set xs \<and> f y = k"
  by (auto simp: find_Some_iff)

lemma find_append_one:
  "find P (xs @ [y]) = (case find P xs of None \<Rightarrow> if P y then Some y else None | Some x \<Rightarrow> Some x)"
  by (induction xs) auto

lemma find_map_if_key:
  "(\<And>x. f (g x) = f x) \<Longrightarrow>
   find (\<lambda>x. f x = k) (map (\<lambda>x. if f x = i then g x else x) xs) =
   map_option (\<lambda>x. if f x = i then g x else x) (find (\<lambda>x. f x = k) xs)"
  by (induction xs) auto

text \<open>Updating the rows that a condition selects keeps every column the update does not write.\<close>

lemma map_if_same_column:
  "(\<And>x. f (g x) = f x) \<Longrightarrow> map f (map (\<lambda>x. if P x then g x else x) xs) = map f xs"
  by (induction xs) auto

lemma sum_list_map_add: "sum_list (map (\<lambda>x. f x + g x) xs) = sum_list (map f xs) + sum_list (map g xs :: int list)"
  by (induction xs) auto

section \<open>Text\<close>

text \<open>A hexadecimal digit.\<close>

definition hex_digit :: "nat \<Rightarrow> char" where
  "hex_digit n = (if n < 10 then char_of (48 + n) else char_of (87 + n))"

end
