(* ===== verification/GoQuote.thy ===== *)
theory GoQuote
  imports Prelude
begin

text \<open>
  Go's quotation of texts: \<open>fmt\<close>'s \<open>%q\<close>, that is \<open>strconv.Quote\<close>. A text is a list of bytes, which
  are read as UTF-8: what is no UTF-8 and what is not printable is escaped, the rest is copied. No two
  texts have the same quotation, even in front of other text, whatever counts as printable.
\<close>

section \<open>UTF-8\<close>

definition bytes_of :: "string \<Rightarrow> int list" where
  "bytes_of s = map of_char s"

definition text_of :: "int list \<Rightarrow> string" where
  "text_of bs = map char_of bs"

lemma bytes_of_append [simp]: "bytes_of (s @ t) = bytes_of s @ bytes_of t"
  by (simp add: bytes_of_def)

lemma bytes_of_less: "\<forall>b \<in> set (bytes_of s). 0 \<le> b \<and> b < 256"
proof -
  have "0 \<le> (of_char c :: int) \<and> (of_char c :: int) < 256" for c
    using of_nat_of_char [of c, where 'a = int] nat_of_char_less_256 [of c] by linarith
  then show ?thesis by (simp add: bytes_of_def)
qed

lemma bytes_of_text_of: "\<forall>b \<in> set bs. 0 \<le> b \<and> b < 256 \<Longrightarrow> bytes_of (text_of bs) = bs"
  by (auto simp: bytes_of_def text_of_def of_char_of intro!: map_idI)

lemma bytes_of_inj: "bytes_of s = bytes_of t \<longleftrightarrow> s = t"
  unfolding bytes_of_def by (rule inj_map_eq_map [OF inj_of_char])

text \<open>How many bytes a first byte announces, and the range of the second, as in \<open>unicode/utf8\<close>.\<close>

definition utf8_first :: "int \<Rightarrow> (nat \<times> int \<times> int) option" where
  "utf8_first b =
     (if 194 \<le> b \<and> b \<le> 223 then Some (2, 128, 191)
      else if b = 224 then Some (3, 160, 191)
      else if b = 237 then Some (3, 128, 159)
      else if 225 \<le> b \<and> b \<le> 239 then Some (3, 128, 191)
      else if b = 240 then Some (4, 144, 191)
      else if 241 \<le> b \<and> b \<le> 243 then Some (4, 128, 191)
      else if b = 244 then Some (4, 128, 143)
      else None)"

definition continues :: "int \<Rightarrow> bool" where
  "continues b \<longleftrightarrow> 128 \<le> b \<and> b \<le> 191"

definition RuneError :: int where
  "RuneError = 65533"

text \<open>\<open>utf8.DecodeRuneInString\<close>: the first rune and its width in bytes; an encoding that is wrong counts as one byte.\<close>

definition decode_rune :: "int list \<Rightarrow> int \<times> nat" where
  "decode_rune bs =
     (case bs of
        [] \<Rightarrow> (RuneError, 0)
      | b0 # t0 \<Rightarrow>
          if b0 < 128 then (b0, 1)
          else (case (utf8_first b0, t0) of
             (Some (n, lo, hi), b1 # t1) \<Rightarrow>
               if b1 < lo \<or> hi < b1 then (RuneError, 1)
               else if n = 2 then ((b0 - 192) * 64 + (b1 - 128), 2)
               else (case t1 of
                  b2 # t2 \<Rightarrow>
                    if \<not> continues b2 then (RuneError, 1)
                    else if n = 3 then ((b0 - 224) * 4096 + (b1 - 128) * 64 + (b2 - 128), 3)
                    else (case t2 of
                       b3 # t3 \<Rightarrow>
                         if \<not> continues b3 then (RuneError, 1)
                         else ((b0 - 240) * 262144 + (b1 - 128) * 4096 + (b2 - 128) * 64 + (b3 - 128), 4)
                     | [] \<Rightarrow> (RuneError, 1))
                | [] \<Rightarrow> (RuneError, 1))
           | _ \<Rightarrow> (RuneError, 1)))"

definition valid_rune :: "int \<Rightarrow> bool" where
  "valid_rune r \<longleftrightarrow> 0 \<le> r \<and> r < 55296 \<or> 57343 < r \<and> r \<le> 1114111"

text \<open>\<open>utf8.AppendRune\<close>.\<close>

definition encode_rune :: "int \<Rightarrow> int list" where
  "encode_rune r =
     (if r < 128 then [r]
      else if r < 2048 then [192 + r div 64, 128 + r mod 64]
      else if \<not> valid_rune r then [239, 191, 189]
      else if r < 65536 then [224 + r div 4096, 128 + r div 64 mod 64, 128 + r mod 64]
      else [240 + r div 262144, 128 + r div 4096 mod 64, 128 + r div 64 mod 64, 128 + r mod 64])"

section \<open>Quotation\<close>

definition hex_code :: "int \<Rightarrow> int" where
  "hex_code n = (if n < 10 then 48 + n else 87 + n)"

text \<open>The last \<open>k\<close> hexadecimal digits of a number.\<close>

fun hex_codes :: "nat \<Rightarrow> int \<Rightarrow> int list" where
  "hex_codes 0 n = []"
| "hex_codes (Suc k) n = hex_codes k (n div 16) @ [hex_code (n mod 16)]"

text \<open>\<open>appendEscapedRune\<close> of \<open>strconv\<close>, with its table of printable runes as an argument.\<close>

definition escaped_rune :: "(int \<Rightarrow> bool) \<Rightarrow> int \<Rightarrow> int list" where
  "escaped_rune isPrint r =
     (if r = 34 \<or> r = 92 then [92, r]
      else if isPrint r then encode_rune r
      else if r = 7 then [92, 97]
      else if r = 8 then [92, 98]
      else if r = 12 then [92, 102]
      else if r = 10 then [92, 110]
      else if r = 13 then [92, 114]
      else if r = 9 then [92, 116]
      else if r = 11 then [92, 118]
      else if r < 32 \<or> r = 127 then 92 # 120 # hex_codes 2 r
      else if \<not> valid_rune r then 92 # 117 # hex_codes 4 RuneError
      else if r < 65536 then 92 # 117 # hex_codes 4 r
      else 92 # 85 # hex_codes 8 r)"

text \<open>\<open>appendQuotedWith\<close>, between the quotation marks.\<close>

function quote_body :: "(int \<Rightarrow> bool) \<Rightarrow> int list \<Rightarrow> int list" where
  "quote_body isPrint [] = []"
| "quote_body isPrint (b # bs) =
     (case decode_rune (b # bs) of
        (r, w) \<Rightarrow>
          if w = 1 \<and> r = RuneError then (92 # 120 # hex_codes 2 b) @ quote_body isPrint bs
          else escaped_rune isPrint r @ quote_body isPrint (drop (w - 1) bs))"
  by pat_completeness auto
termination by (relation "measure (\<lambda>(p, bs). length bs)") auto

section \<open>Printable runes\<close>

text \<open>
  The runes beyond ASCII that are letters, marks, numbers, punctuation or symbols in Unicode 15, which
  is what \<open>strconv.IsPrint\<close> accepts.
\<close>

definition printable_ranges :: "(int \<times> int) list" where
  "printable_ranges =
   [(161, 172), (174, 887), (890, 895), (900, 906), (908, 908), (910, 929), (931, 1327), (1329, 1366),
    (1369, 1418), (1421, 1423), (1425, 1479), (1488, 1514), (1519, 1524), (1542, 1563), (1565, 1756), (1758, 1805),
    (1808, 1866), (1869, 1969), (1984, 2042), (2045, 2093), (2096, 2110), (2112, 2139), (2142, 2142), (2144, 2154),
    (2160, 2190), (2200, 2273), (2275, 2435), (2437, 2444), (2447, 2448), (2451, 2472), (2474, 2480), (2482, 2482),
    (2486, 2489), (2492, 2500), (2503, 2504), (2507, 2510), (2519, 2519), (2524, 2525), (2527, 2531), (2534, 2558),
    (2561, 2563), (2565, 2570), (2575, 2576), (2579, 2600), (2602, 2608), (2610, 2611), (2613, 2614), (2616, 2617),
    (2620, 2620), (2622, 2626), (2631, 2632), (2635, 2637), (2641, 2641), (2649, 2652), (2654, 2654), (2662, 2678),
    (2689, 2691), (2693, 2701), (2703, 2705), (2707, 2728), (2730, 2736), (2738, 2739), (2741, 2745), (2748, 2757),
    (2759, 2761), (2763, 2765), (2768, 2768), (2784, 2787), (2790, 2801), (2809, 2815), (2817, 2819), (2821, 2828),
    (2831, 2832), (2835, 2856), (2858, 2864), (2866, 2867), (2869, 2873), (2876, 2884), (2887, 2888), (2891, 2893),
    (2901, 2903), (2908, 2909), (2911, 2915), (2918, 2935), (2946, 2947), (2949, 2954), (2958, 2960), (2962, 2965),
    (2969, 2970), (2972, 2972), (2974, 2975), (2979, 2980), (2984, 2986), (2990, 3001), (3006, 3010), (3014, 3016),
    (3018, 3021), (3024, 3024), (3031, 3031), (3046, 3066), (3072, 3084), (3086, 3088), (3090, 3112), (3114, 3129),
    (3132, 3140), (3142, 3144), (3146, 3149), (3157, 3158), (3160, 3162), (3165, 3165), (3168, 3171), (3174, 3183),
    (3191, 3212), (3214, 3216), (3218, 3240), (3242, 3251), (3253, 3257), (3260, 3268), (3270, 3272), (3274, 3277),
    (3285, 3286), (3293, 3294), (3296, 3299), (3302, 3311), (3313, 3315), (3328, 3340), (3342, 3344), (3346, 3396),
    (3398, 3400), (3402, 3407), (3412, 3427), (3430, 3455), (3457, 3459), (3461, 3478), (3482, 3505), (3507, 3515),
    (3517, 3517), (3520, 3526), (3530, 3530), (3535, 3540), (3542, 3542), (3544, 3551), (3558, 3567), (3570, 3572),
    (3585, 3642), (3647, 3675), (3713, 3714), (3716, 3716), (3718, 3722), (3724, 3747), (3749, 3749), (3751, 3773),
    (3776, 3780), (3782, 3782), (3784, 3790), (3792, 3801), (3804, 3807), (3840, 3911), (3913, 3948), (3953, 3991),
    (3993, 4028), (4030, 4044), (4046, 4058), (4096, 4293), (4295, 4295), (4301, 4301), (4304, 4680), (4682, 4685),
    (4688, 4694), (4696, 4696), (4698, 4701), (4704, 4744), (4746, 4749), (4752, 4784), (4786, 4789), (4792, 4798),
    (4800, 4800), (4802, 4805), (4808, 4822), (4824, 4880), (4882, 4885), (4888, 4954), (4957, 4988), (4992, 5017),
    (5024, 5109), (5112, 5117), (5120, 5759), (5761, 5788), (5792, 5880), (5888, 5909), (5919, 5942), (5952, 5971),
    (5984, 5996), (5998, 6000), (6002, 6003), (6016, 6109), (6112, 6121), (6128, 6137), (6144, 6157), (6159, 6169),
    (6176, 6264), (6272, 6314), (6320, 6389), (6400, 6430), (6432, 6443), (6448, 6459), (6464, 6464), (6468, 6509),
    (6512, 6516), (6528, 6571), (6576, 6601), (6608, 6618), (6622, 6683), (6686, 6750), (6752, 6780), (6783, 6793),
    (6800, 6809), (6816, 6829), (6832, 6862), (6912, 6988), (6992, 7038), (7040, 7155), (7164, 7223), (7227, 7241),
    (7245, 7304), (7312, 7354), (7357, 7367), (7376, 7418), (7424, 7957), (7960, 7965), (7968, 8005), (8008, 8013),
    (8016, 8023), (8025, 8025), (8027, 8027), (8029, 8029), (8031, 8061), (8064, 8116), (8118, 8132), (8134, 8147),
    (8150, 8155), (8157, 8175), (8178, 8180), (8182, 8190), (8208, 8231), (8240, 8286), (8304, 8305), (8308, 8334),
    (8336, 8348), (8352, 8384), (8400, 8432), (8448, 8587), (8592, 9254), (9280, 9290), (9312, 11123),
    (11126, 11157), (11159, 11507), (11513, 11557), (11559, 11559), (11565, 11565), (11568, 11623), (11631, 11632),
    (11647, 11670), (11680, 11686), (11688, 11694), (11696, 11702), (11704, 11710), (11712, 11718), (11720, 11726),
    (11728, 11734), (11736, 11742), (11744, 11869), (11904, 11929), (11931, 12019), (12032, 12245), (12272, 12283),
    (12289, 12351), (12353, 12438), (12441, 12543), (12549, 12591), (12593, 12686), (12688, 12771), (12784, 12830),
    (12832, 42124), (42128, 42182), (42192, 42539), (42560, 42743), (42752, 42954), (42960, 42961), (42963, 42963),
    (42965, 42969), (42994, 43052), (43056, 43065), (43072, 43127), (43136, 43205), (43214, 43225), (43232, 43347),
    (43359, 43388), (43392, 43469), (43471, 43481), (43486, 43518), (43520, 43574), (43584, 43597), (43600, 43609),
    (43612, 43714), (43739, 43766), (43777, 43782), (43785, 43790), (43793, 43798), (43808, 43814), (43816, 43822),
    (43824, 43883), (43888, 44013), (44016, 44025), (44032, 55203), (55216, 55238), (55243, 55291), (63744, 64109),
    (64112, 64217), (64256, 64262), (64275, 64279), (64285, 64310), (64312, 64316), (64318, 64318), (64320, 64321),
    (64323, 64324), (64326, 64450), (64467, 64911), (64914, 64967), (64975, 64975), (65008, 65049), (65056, 65106),
    (65108, 65126), (65128, 65131), (65136, 65140), (65142, 65276), (65281, 65470), (65474, 65479), (65482, 65487),
    (65490, 65495), (65498, 65500), (65504, 65510), (65512, 65518), (65532, 65533), (65536, 65547), (65549, 65574),
    (65576, 65594), (65596, 65597), (65599, 65613), (65616, 65629), (65664, 65786), (65792, 65794), (65799, 65843),
    (65847, 65934), (65936, 65948), (65952, 65952), (66000, 66045), (66176, 66204), (66208, 66256), (66272, 66299),
    (66304, 66339), (66349, 66378), (66384, 66426), (66432, 66461), (66463, 66499), (66504, 66517), (66560, 66717),
    (66720, 66729), (66736, 66771), (66776, 66811), (66816, 66855), (66864, 66915), (66927, 66938), (66940, 66954),
    (66956, 66962), (66964, 66965), (66967, 66977), (66979, 66993), (66995, 67001), (67003, 67004), (67072, 67382),
    (67392, 67413), (67424, 67431), (67456, 67461), (67463, 67504), (67506, 67514), (67584, 67589), (67592, 67592),
    (67594, 67637), (67639, 67640), (67644, 67644), (67647, 67669), (67671, 67742), (67751, 67759), (67808, 67826),
    (67828, 67829), (67835, 67867), (67871, 67897), (67903, 67903), (67968, 68023), (68028, 68047), (68050, 68099),
    (68101, 68102), (68108, 68115), (68117, 68119), (68121, 68149), (68152, 68154), (68159, 68168), (68176, 68184),
    (68192, 68255), (68288, 68326), (68331, 68342), (68352, 68405), (68409, 68437), (68440, 68466), (68472, 68497),
    (68505, 68508), (68521, 68527), (68608, 68680), (68736, 68786), (68800, 68850), (68858, 68903), (68912, 68921),
    (69216, 69246), (69248, 69289), (69291, 69293), (69296, 69297), (69373, 69415), (69424, 69465), (69488, 69513),
    (69552, 69579), (69600, 69622), (69632, 69709), (69714, 69749), (69759, 69820), (69822, 69826), (69840, 69864),
    (69872, 69881), (69888, 69940), (69942, 69959), (69968, 70006), (70016, 70111), (70113, 70132), (70144, 70161),
    (70163, 70209), (70272, 70278), (70280, 70280), (70282, 70285), (70287, 70301), (70303, 70313), (70320, 70378),
    (70384, 70393), (70400, 70403), (70405, 70412), (70415, 70416), (70419, 70440), (70442, 70448), (70450, 70451),
    (70453, 70457), (70459, 70468), (70471, 70472), (70475, 70477), (70480, 70480), (70487, 70487), (70493, 70499),
    (70502, 70508), (70512, 70516), (70656, 70747), (70749, 70753), (70784, 70855), (70864, 70873), (71040, 71093),
    (71096, 71133), (71168, 71236), (71248, 71257), (71264, 71276), (71296, 71353), (71360, 71369), (71424, 71450),
    (71453, 71467), (71472, 71494), (71680, 71739), (71840, 71922), (71935, 71942), (71945, 71945), (71948, 71955),
    (71957, 71958), (71960, 71989), (71991, 71992), (71995, 72006), (72016, 72025), (72096, 72103), (72106, 72151),
    (72154, 72164), (72192, 72263), (72272, 72354), (72368, 72440), (72448, 72457), (72704, 72712), (72714, 72758),
    (72760, 72773), (72784, 72812), (72816, 72847), (72850, 72871), (72873, 72886), (72960, 72966), (72968, 72969),
    (72971, 73014), (73018, 73018), (73020, 73021), (73023, 73031), (73040, 73049), (73056, 73061), (73063, 73064),
    (73066, 73102), (73104, 73105), (73107, 73112), (73120, 73129), (73440, 73464), (73472, 73488), (73490, 73530),
    (73534, 73561), (73648, 73648), (73664, 73713), (73727, 74649), (74752, 74862), (74864, 74868), (74880, 75075),
    (77712, 77810), (77824, 78895), (78912, 78933), (82944, 83526), (92160, 92728), (92736, 92766), (92768, 92777),
    (92782, 92862), (92864, 92873), (92880, 92909), (92912, 92917), (92928, 92997), (93008, 93017), (93019, 93025),
    (93027, 93047), (93053, 93071), (93760, 93850), (93952, 94026), (94031, 94087), (94095, 94111), (94176, 94180),
    (94192, 94193), (94208, 100343), (100352, 101589), (101632, 101640), (110576, 110579), (110581, 110587),
    (110589, 110590), (110592, 110882), (110898, 110898), (110928, 110930), (110933, 110933), (110948, 110951),
    (110960, 111355), (113664, 113770), (113776, 113788), (113792, 113800), (113808, 113817), (113820, 113823),
    (118528, 118573), (118576, 118598), (118608, 118723), (118784, 119029), (119040, 119078), (119081, 119154),
    (119163, 119274), (119296, 119365), (119488, 119507), (119520, 119539), (119552, 119638), (119648, 119672),
    (119808, 119892), (119894, 119964), (119966, 119967), (119970, 119970), (119973, 119974), (119977, 119980),
    (119982, 119993), (119995, 119995), (119997, 120003), (120005, 120069), (120071, 120074), (120077, 120084),
    (120086, 120092), (120094, 120121), (120123, 120126), (120128, 120132), (120134, 120134), (120138, 120144),
    (120146, 120485), (120488, 120779), (120782, 121483), (121499, 121503), (121505, 121519), (122624, 122654),
    (122661, 122666), (122880, 122886), (122888, 122904), (122907, 122913), (122915, 122916), (122918, 122922),
    (122928, 122989), (123023, 123023), (123136, 123180), (123184, 123197), (123200, 123209), (123214, 123215),
    (123536, 123566), (123584, 123641), (123647, 123647), (124112, 124153), (124896, 124902), (124904, 124907),
    (124909, 124910), (124912, 124926), (124928, 125124), (125127, 125142), (125184, 125259), (125264, 125273),
    (125278, 125279), (126065, 126132), (126209, 126269), (126464, 126467), (126469, 126495), (126497, 126498),
    (126500, 126500), (126503, 126503), (126505, 126514), (126516, 126519), (126521, 126521), (126523, 126523),
    (126530, 126530), (126535, 126535), (126537, 126537), (126539, 126539), (126541, 126543), (126545, 126546),
    (126548, 126548), (126551, 126551), (126553, 126553), (126555, 126555), (126557, 126557), (126559, 126559),
    (126561, 126562), (126564, 126564), (126567, 126570), (126572, 126578), (126580, 126583), (126585, 126588),
    (126590, 126590), (126592, 126601), (126603, 126619), (126625, 126627), (126629, 126633), (126635, 126651),
    (126704, 126705), (126976, 127019), (127024, 127123), (127136, 127150), (127153, 127167), (127169, 127183),
    (127185, 127221), (127232, 127405), (127462, 127490), (127504, 127547), (127552, 127560), (127568, 127569),
    (127584, 127589), (127744, 128727), (128732, 128748), (128752, 128764), (128768, 128886), (128891, 128985),
    (128992, 129003), (129008, 129008), (129024, 129035), (129040, 129095), (129104, 129113), (129120, 129159),
    (129168, 129197), (129200, 129201), (129280, 129619), (129632, 129645), (129648, 129660), (129664, 129672),
    (129680, 129725), (129727, 129733), (129742, 129755), (129760, 129768), (129776, 129784), (129792, 129938),
    (129940, 129994), (130032, 130041), (131072, 173791), (173824, 177977), (177984, 178205), (178208, 183969),
    (183984, 191456), (194560, 195101), (196608, 201546), (201552, 205743), (917760, 917999)]"

definition is_print :: "int \<Rightarrow> bool" where
  "is_print r =
     (if r < 128 then 32 \<le> r \<and> r < 127
      else list_ex (\<lambda>(first, last). first \<le> r \<and> r \<le> last) printable_ranges)"

definition go_quote :: "string \<Rightarrow> string" where
  "go_quote s = text_of ([34] @ quote_body is_print (bytes_of s) @ [34])"

text \<open>The package \<open>time\<close> quotes on its own: every byte that is beyond ASCII or a control is escaped.\<close>

definition time_quote_byte :: "int \<Rightarrow> int list" where
  "time_quote_byte b =
     (if 128 \<le> b \<or> b < 32 then 92 # 120 # hex_codes 2 b
      else if b = 34 \<or> b = 92 then [92, b]
      else [b])"

definition time_quote :: "string \<Rightarrow> string" where
  "time_quote s = text_of ([34] @ concat (map time_quote_byte (bytes_of s)) @ [34])"


section \<open>Reading a quotation\<close>

text \<open>What a quotation stands for, up to its closing mark, and what follows it.\<close>

definition hex_value :: "int list \<Rightarrow> int" where
  "hex_value cs = foldl (\<lambda>n c. 16 * n + (if c < 58 then c - 48 else c - 87)) 0 cs"

definition short_escape :: "int \<Rightarrow> int" where
  "short_escape e =
     (if e = 97 then 7 else if e = 98 then 8 else if e = 102 then 12 else if e = 110 then 10
      else if e = 114 then 13 else if e = 116 then 9 else if e = 118 then 11 else e)"

function unquote :: "int list \<Rightarrow> int list \<times> int list" where
  "unquote [] = ([], [])"
| "unquote [b] = ([], [])"
| "unquote (b # e # bs) =
     (if b = 34 then ([], e # bs)
      else if b \<noteq> 92 then apfst (Cons b) (unquote (e # bs))
      else if e = 120 then apfst (Cons (hex_value (take 2 bs))) (unquote (drop 2 bs))
      else if e = 117 then apfst (append (encode_rune (hex_value (take 4 bs)))) (unquote (drop 4 bs))
      else if e = 85 then apfst (append (encode_rune (hex_value (take 8 bs)))) (unquote (drop 8 bs))
      else apfst (Cons (short_escape e)) (unquote bs))"
  by pat_completeness auto
termination by (relation "measure length") auto

lemma unquote_plain: "b \<noteq> 34 \<Longrightarrow> b \<noteq> 92 \<Longrightarrow> bs \<noteq> [] \<Longrightarrow> unquote (b # bs) = apfst (Cons b) (unquote bs)"
  by (cases bs) auto

lemma unquote_copied:
  "\<forall>b \<in> set cs. b \<noteq> 34 \<and> b \<noteq> 92 \<Longrightarrow> bs \<noteq> [] \<Longrightarrow> unquote (cs @ bs) = apfst (append cs) (unquote bs)"
  by (induction cs; cases "unquote bs") (auto simp: unquote_plain)

lemma length_hex_codes [simp]: "length (hex_codes k n) = k"
  by (induction k arbitrary: n) simp_all

lemma hex_value_codes: "hex_value (hex_codes k n) = n mod 16 ^ k"
proof (induction k arbitrary: n)
  case (Suc k)
  have "hex_value (cs @ [hex_code d]) = 16 * hex_value cs + d" if "0 \<le> d" "d < 16" for cs d
    using that by (auto simp: hex_value_def hex_code_def)
  then have "hex_value (hex_codes (Suc k) n) = 16 * (n div 16 mod 16 ^ k) + n mod 16"
    by (simp add: Suc)
  also have "\<dots> = n mod (16 * 16 ^ k)" by (simp add: zmod_zmult2_eq)
  finally show ?case by simp
qed (simp add: hex_value_def)

text \<open>A run of bytes is written so that it is read back.\<close>

definition stands_for :: "int list \<Rightarrow> int list \<Rightarrow> bool" where
  "stands_for token cs \<longleftrightarrow> (\<forall>bs. bs \<noteq> [] \<longrightarrow> unquote (token @ bs) = apfst (append cs) (unquote bs))"

lemma stands_for_byte: "0 \<le> b \<and> b < 256 \<Longrightarrow> stands_for (92 # 120 # hex_codes 2 b) [b]"
  by (auto simp: stands_for_def hex_value_codes apfst_def map_prod_def simp del: hex_codes.simps split: prod.split)

lemma encode_rune_beyond: "128 \<le> r \<Longrightarrow> c \<in> set (encode_rune r) \<Longrightarrow> 128 \<le> c"
  by (auto simp: encode_rune_def split: if_splits)

lemma stands_for_rune:
  assumes "valid_rune r"
  shows "stands_for (escaped_rune isPrint r) (encode_rune r)"
proof -
  have printed: "stands_for (encode_rune r) (encode_rune r)" if "r \<noteq> 34" "r \<noteq> 92"
  proof -
    have "\<forall>c \<in> set (encode_rune r). c \<noteq> 34 \<and> c \<noteq> 92"
    proof (cases "r < 128")
      case True
      then show ?thesis using that by (simp add: encode_rune_def)
    next
      case False
      then show ?thesis using encode_rune_beyond [of r] by fastforce
    qed
    from unquote_copied [OF this] show ?thesis by (simp add: stands_for_def)
  qed
  have short: "stands_for [92, e] [short_escape e]" if "e \<notin> {120, 117, 85}" for e
    using that by (auto simp: stands_for_def apfst_def map_prod_def split: prod.split)
  have u: "stands_for (92 # 117 # hex_codes 4 r) (encode_rune r)" if "r < 65536"
    using that assms by (auto simp: stands_for_def hex_value_codes valid_rune_def simp del: hex_codes.simps)
  have U: "stands_for (92 # 85 # hex_codes 8 r) (encode_rune r)"
    using assms by (auto simp: stands_for_def hex_value_codes valid_rune_def simp del: hex_codes.simps)
  have ascii: "r < 128 \<Longrightarrow> encode_rune r = [r]" by (simp add: encode_rune_def)
  consider "r = 34 \<or> r = 92" | "r \<noteq> 34" "r \<noteq> 92" "isPrint r" | "\<not> isPrint r" "r \<in> {7, 8, 9, 10, 11, 12, 13}"
    | "\<not> isPrint r" "r \<notin> {7, 8, 9, 10, 11, 12, 13, 34, 92}" by blast
  then show ?thesis
  proof cases
    case 1
    then show ?thesis using short [of r] ascii by (auto simp: escaped_rune_def short_escape_def)
  next
    case 2
    then show ?thesis using printed by (simp add: escaped_rune_def)
  next
    case 3
    then show ?thesis
      using short [of 97] short [of 98] short [of 102] short [of 110] short [of 114] short [of 116] short [of 118] ascii
      by (auto simp: escaped_rune_def short_escape_def)
  next
    case 4
    then show ?thesis
      using stands_for_byte [of r] u U ascii assms
      by (cases "0 \<le> r") (auto simp: escaped_rune_def valid_rune_def simp del: hex_codes.simps)
  qed
qed

text \<open>What is no wrong encoding has one of four forms.\<close>

definition six_bits :: "int \<Rightarrow> bool" where
  "six_bits y \<longleftrightarrow> 0 \<le> y \<and> y < 64"

lemma decode_rune_cases:
  assumes "decode_rune (b # bs) = (r, w)" and "\<not> (w = 1 \<and> r = RuneError)"
  obtains (one) "b < 128" and "r = b" and "w = 1"
  | (two) x y t where "b = 192 + x" and "bs = (128 + y) # t" and "2 \<le> x" and "x < 32" and "six_bits y"
      and "r = x * 64 + y" and "w = 2"
  | (three) x y z t where "b = 224 + x" and "bs = (128 + y) # (128 + z) # t" and "0 \<le> x" and "x < 16" and "six_bits y"
      and "six_bits z" and "x = 0 \<longrightarrow> 32 \<le> y" and "x = 13 \<longrightarrow> y < 32" and "r = x * 4096 + y * 64 + z" and "w = 3"
  | (four) x y z u t where "b = 240 + x" and "bs = (128 + y) # (128 + z) # (128 + u) # t" and "0 \<le> x" and "x \<le> 4"
      and "six_bits y" and "six_bits z" and "six_bits u" and "x = 0 \<longrightarrow> 16 \<le> y" and "x = 4 \<longrightarrow> y < 16"
      and "r = x * 262144 + y * 4096 + z * 64 + u" and "w = 4"
proof (cases "b < 128")
  case True
  then have "r = b" "w = 1" using assms(1) by (simp_all add: decode_rune_def)
  then show thesis using True by (rule one [rotated])
next
  case b: False
  obtain n lo hi where first: "utf8_first b = Some (n, lo, hi)"
    using assms b by (cases "utf8_first b") (auto simp: decode_rune_def)
  obtain b1 t1 where t1: "bs = b1 # t1" "lo \<le> b1" "b1 \<le> hi"
    using assms b first by (auto simp: decode_rune_def split: list.splits if_splits)
  have range: "128 \<le> lo" "hi \<le> 191" using first by (auto simp: utf8_first_def split: if_splits)
  define y where "y = b1 - 128"
  have y: "b1 = 128 + y" "six_bits y" "lo \<le> 128 + y" "128 + y \<le> hi" using t1 range by (simp_all add: y_def six_bits_def)
  consider "n = 2" | "n = 3" | "n = 4" using first by (auto simp: utf8_first_def split: if_splits)
  then show thesis
  proof cases
    case 1
    then have "194 \<le> b" "b \<le> 223" using first by (auto simp: utf8_first_def split: if_splits)
    then show thesis using assms b first t1 1 y by (intro two [of "b - 192" y t1]) (auto simp: decode_rune_def)
  next
    case 2
    obtain b2 t2 where t2: "t1 = b2 # t2" "continues b2"
      using assms b first t1 2 by (auto simp: decode_rune_def split: list.splits if_splits)
    have x: "224 \<le> b" "b \<le> 239" "b = 224 \<longrightarrow> lo = 160" "b = 237 \<longrightarrow> hi = 159"
      using first 2 by (auto simp: utf8_first_def split: if_splits)
    have r: "r = (b - 224) * 4096 + y * 64 + (b2 - 128)" "w = 3"
      using assms b first t1 2 t2 y(1) by (auto simp: decode_rune_def)
    show thesis
      by (rule three [of "b - 224" y "b2 - 128" t2]) (use t1 t2 x y r in \<open>auto simp: continues_def six_bits_def\<close>)
  next
    case 3
    obtain b2 t2 where t2: "t1 = b2 # t2" "continues b2"
      using assms b first t1 3 by (auto simp: decode_rune_def split: list.splits if_splits)
    obtain b3 t3 where t3: "t2 = b3 # t3" "continues b3"
      using assms b first t1 3 t2 by (auto simp: decode_rune_def split: list.splits if_splits)
    have x: "240 \<le> b" "b \<le> 244" "b = 240 \<longrightarrow> lo = 144" "b = 244 \<longrightarrow> hi = 143"
      using first 3 by (auto simp: utf8_first_def split: if_splits)
    have r: "r = (b - 240) * 262144 + y * 4096 + (b2 - 128) * 64 + (b3 - 128)" "w = 4"
      using assms b first t1 3 t2 t3 y(1) by (auto simp: decode_rune_def)
    show thesis
      by (rule four [of "b - 240" y "b2 - 128" "b3 - 128" t3]) (use t1 t2 t3 x y r in \<open>auto simp: continues_def six_bits_def\<close>)
  qed
qed

lemma div_mod_64: "six_bits z \<Longrightarrow> (a * 64 + z) mod 64 = z" "six_bits z \<Longrightarrow> (a * 64 + z) div 64 = a"
  by (simp_all add: six_bits_def)

lemma encode_two: "2 \<le> x \<Longrightarrow> x < 32 \<Longrightarrow> six_bits y \<Longrightarrow> encode_rune (x * 64 + y) = [192 + x, 128 + y]"
  by (simp add: encode_rune_def six_bits_def)

lemma encode_rune_beyond_two:
  "valid_rune r \<Longrightarrow> 2048 \<le> r \<Longrightarrow> r < 65536 \<Longrightarrow>
     encode_rune r = [224 + r div 4096, 128 + r div 64 mod 64, 128 + r mod 64]"
  "valid_rune r \<Longrightarrow> 65536 \<le> r \<Longrightarrow>
     encode_rune r = [240 + r div 262144, 128 + r div 4096 mod 64, 128 + r div 64 mod 64, 128 + r mod 64]"
  by (auto simp: encode_rune_def)

lemma encode_three:
  assumes "0 \<le> x" and "x < 16" and "six_bits y" and "six_bits z" and "x = 0 \<longrightarrow> 32 \<le> y" and "x = 13 \<longrightarrow> y < 32"
  shows "encode_rune (x * 4096 + y * 64 + z) = [224 + x, 128 + y, 128 + z]" "valid_rune (x * 4096 + y * 64 + z)"
proof -
  let ?r = "x * 4096 + y * 64 + z"
  have r0: "?r = (x * 64 + y) * 64 + z" by simp
  have r: "?r mod 64 = z" "?r div 64 = x * 64 + y" unfolding r0 by (rule div_mod_64 [OF assms(4)])+
  have "?r div 4096 = ?r div 64 div 64" by (simp add: zdiv_zmult2_eq [of 64 ?r 64, simplified])
  then have r2: "?r div 4096 = x" "?r div 64 mod 64 = y" by (simp_all only: r div_mod_64 [OF assms(3)])
  have range: "2048 \<le> ?r" "?r < 65536" using assms unfolding six_bits_def by (cases "x = 0"; simp; linarith)+
  show v: "valid_rune ?r"
  proof (cases "x \<le> 13")
    case True
    then show ?thesis using assms unfolding six_bits_def by (cases "x = 13") (auto simp: valid_rune_def)
  next
    case False
    then show ?thesis using assms unfolding six_bits_def by (simp add: valid_rune_def)
  qed
  show "encode_rune ?r = [224 + x, 128 + y, 128 + z]" by (simp only: encode_rune_beyond_two(1) [OF v range] r(1) r2)
qed

lemma encode_four:
  assumes "0 \<le> x" and "x \<le> 4" and "six_bits y" and "six_bits z" and "six_bits u"
    and "x = 0 \<longrightarrow> 16 \<le> y" and "x = 4 \<longrightarrow> y < 16"
  shows "encode_rune (x * 262144 + y * 4096 + z * 64 + u) = [240 + x, 128 + y, 128 + z, 128 + u]"
    "valid_rune (x * 262144 + y * 4096 + z * 64 + u)"
proof -
  let ?r = "x * 262144 + y * 4096 + z * 64 + u"
  have r0: "?r = ((x * 64 + y) * 64 + z) * 64 + u" by simp
  have r: "?r mod 64 = u" "?r div 64 = (x * 64 + y) * 64 + z" unfolding r0 by (rule div_mod_64 [OF assms(5)])+
  have "?r div 4096 = ?r div 64 div 64" by (simp add: zdiv_zmult2_eq [of 64 ?r 64, simplified])
  then have r2: "?r div 4096 = x * 64 + y" "?r div 64 mod 64 = z" by (simp_all only: r div_mod_64 [OF assms(4)])
  have "?r div 262144 = ?r div 4096 div 64" by (simp add: zdiv_zmult2_eq [of 64 ?r 4096, simplified])
  then have r3: "?r div 262144 = x" "?r div 4096 mod 64 = y" by (simp_all only: r2 div_mod_64 [OF assms(3)])
  note six = assms(3-5) [unfolded six_bits_def]
  have range: "65536 \<le> ?r" using assms(1,6) six by (cases "x = 0") (simp, linarith)
  moreover have "?r \<le> 1114111" using assms(2,7) six by (cases "x = 4") (simp, linarith)
  ultimately have range: "65536 \<le> ?r" "?r \<le> 1114111" by simp_all
  show v: "valid_rune ?r" using range unfolding valid_rune_def by linarith
  show "encode_rune ?r = [240 + x, 128 + y, 128 + z, 128 + u]" 
    by (simp only: encode_rune_beyond_two(2) [OF v range(1)] r(1) r2(2) r3)
qed

lemma decode_rune_valid:
  assumes "decode_rune (b # bs) = (r, w)" and "\<not> (w = 1 \<and> r = RuneError)" and "0 \<le> b"
  shows "valid_rune r \<and> encode_rune r @ drop (w - 1) bs = b # bs"
  using assms(1,2)
proof (cases rule: decode_rune_cases)
  case one
  then show ?thesis using assms(3) by (simp add: valid_rune_def encode_rune_def)
next
  case (two x y t)
  then show ?thesis using encode_two [of x y] by (simp add: valid_rune_def six_bits_def)
next
  case (three x y z t)
  then show ?thesis using encode_three [of x y z] by simp
next
  case (four x y z u t)
  then show ?thesis using encode_four [of x y z u] by simp
qed

section \<open>No two texts have one quotation\<close>

lemma unquote_append: "stands_for token cs \<Longrightarrow> unquote (token @ body @ [34] @ xs) = apfst (append cs) (unquote (body @ [34] @ xs))"
  by (simp add: stands_for_def)

lemma unquote_quote_body:
  "\<forall>b \<in> set bs. 0 \<le> b \<and> b < 256 \<Longrightarrow> xs \<noteq> [] \<Longrightarrow> unquote (quote_body isPrint bs @ 34 # xs) = (bs, xs)"
proof (induction isPrint bs rule: quote_body.induct)
  case (1 isPrint)
  then show ?case by (cases xs) auto
next
  case (2 isPrint b bs)
  obtain r w where rw: "decode_rune (b # bs) = (r, w)" by (metis prod.collapse)
  show ?case
  proof (cases "w = 1 \<and> r = RuneError")
    case True
    have "stands_for (92 # 120 # hex_codes 2 b) [b]" using 2(3) by (intro stands_for_byte) simp
    then show ?thesis
      using unquote_append [of _ _ "quote_body isPrint bs" xs] 2(1) [OF rw [symmetric] True] 2(3,4) rw True
      by (auto simp: hex_value_codes simp del: hex_codes.simps)
  next
    case False
    have v: "valid_rune r \<and> encode_rune r @ drop (w - 1) bs = b # bs"
      using decode_rune_valid [OF rw False] 2(3) by simp
    have "\<forall>b \<in> set (drop (w - 1) bs). 0 \<le> b \<and> b < 256" using 2(3) by (auto dest: in_set_dropD)
    then show ?thesis
      using unquote_append [OF stands_for_rune [of r isPrint], of "quote_body isPrint (drop (w - 1) bs)" xs]
        2(2) [OF rw [symmetric] False] 2(4) rw False v by (auto simp del: hex_codes.simps)
  qed
qed

definition all_bytes :: "int list \<Rightarrow> bool" where
  "all_bytes bs \<longleftrightarrow> (\<forall>b \<in> set bs. 0 \<le> b \<and> b < 256)"

lemma all_bytes_simps [simp]:
  "all_bytes []" "all_bytes (b # bs) \<longleftrightarrow> 0 \<le> b \<and> b < 256 \<and> all_bytes bs" "all_bytes (bs @ cs) \<longleftrightarrow> all_bytes bs \<and> all_bytes cs"
  by (auto simp: all_bytes_def)

lemma hex_codes_bytes [simp]: "all_bytes (hex_codes k n)"
proof (induction k arbitrary: n)
  case (Suc k)
  have "0 \<le> n mod 16" "n mod 16 < 16" by simp_all
  then have "0 \<le> hex_code (n mod 16) \<and> hex_code (n mod 16) < 256" unfolding hex_code_def by (simp split: if_split) linarith
  then show ?case using Suc by simp
qed simp

lemma encode_rune_bytes: "valid_rune r \<Longrightarrow> all_bytes (encode_rune r)"
proof -
  assume v: "valid_rune r"
  have m: "0 \<le> 128 + n mod 64 \<and> 128 + n mod 64 < 256" for n :: int
    using pos_mod_bound [of 64 n] pos_mod_sign [of 64 n] by linarith
  have "0 \<le> r" "r \<le> 1114111" using v by (auto simp: valid_rune_def)
  then have "r < 2048 \<Longrightarrow> r div 64 < 32" "r < 65536 \<Longrightarrow> r div 4096 < 16" "r div 262144 \<le> 4"
    "0 \<le> r div 64" "0 \<le> r div 4096" "0 \<le> r div 262144" by simp_all
  with v m \<open>0 \<le> r\<close> show ?thesis unfolding encode_rune_def by auto
qed

lemma escaped_rune_bytes: "valid_rune r \<Longrightarrow> all_bytes (escaped_rune isPrint r)"
  using encode_rune_bytes [of r] by (simp add: escaped_rune_def del: hex_codes.simps)

lemma quote_body_bytes: "all_bytes bs \<Longrightarrow> all_bytes (quote_body isPrint bs)"
proof (induction isPrint bs rule: quote_body.induct)
  case (2 isPrint b bs)
  obtain r w where rw: "decode_rune (b # bs) = (r, w)" by (metis prod.collapse)
  show ?case
  proof (cases "w = 1 \<and> r = RuneError")
    case True
    then show ?thesis using 2(1) [OF rw [symmetric] True] 2(3) rw by (simp del: hex_codes.simps)
  next
    case False
    have "all_bytes (escaped_rune isPrint r)"
      using decode_rune_valid [OF rw False] 2(3) by (intro escaped_rune_bytes) simp
    moreover have "all_bytes (drop (w - 1) bs)" using 2(3) by (auto simp: all_bytes_def dest: in_set_dropD)
    ultimately show ?thesis using 2(2) [OF rw [symmetric] False] rw False by auto
  qed
qed simp

lemma go_quote_prefix:
  assumes "go_quote s @ x # xs = go_quote t @ y # ys"
  shows "s = t \<and> x # xs = y # ys"
proof -
  have bytes: "bytes_of (go_quote s @ x # xs) = 34 # quote_body is_print (bytes_of s) @ 34 # bytes_of (x # xs)" for s x xs
    using bytes_of_text_of [of "[34] @ quote_body is_print (bytes_of s) @ [34]"] quote_body_bytes [of "bytes_of s" is_print]
      bytes_of_less [of s]
    by (simp add: go_quote_def all_bytes_def)
  have "unquote (quote_body is_print (bytes_of s) @ 34 # bytes_of (x # xs)) = (bytes_of s, bytes_of (x # xs))" for s x xs
    by (rule unquote_quote_body [OF bytes_of_less]) (simp add: bytes_of_def)
  note reads = this [of s x xs] this [of t y ys]
  have "quote_body is_print (bytes_of s) @ 34 # bytes_of (x # xs) = quote_body is_print (bytes_of t) @ 34 # bytes_of (y # ys)"
    using arg_cong [OF assms, of bytes_of] by (simp only: bytes list.inject)
  from arg_cong [OF this, of unquote] have "(bytes_of s, bytes_of (x # xs)) = (bytes_of t, bytes_of (y # ys))" by (simp only: reads)
  then show ?thesis by (simp only: bytes_of_inj prod.inject)
qed
text \<open>What is printable is copied, the rest is escaped: a no-break space by its rune, what is no UTF-8 by its byte.\<close>

lemma go_quote_examples:
  "go_quote ''ab'' = [CHR 0x22, CHR ''a'', CHR ''b'', CHR 0x22]"
  "go_quote [CHR 0xC3, CHR 0xA9] = [CHR 0x22, CHR 0xC3, CHR 0xA9, CHR 0x22]"
  "go_quote [CHR 0xC2, CHR 0xA0] = text_of [34, 92, 117, 48, 48, 97, 48, 34]"
  "go_quote [CHR 0xFF] = text_of [34, 92, 120, 102, 102, 34]"
  by code_simp+

end
