(* ===== verification/GoErrors.thy ===== *)
theory GoErrors
  imports GoQuote
begin

text \<open>
  Go's \<open>error\<close> values as the orchestrator creates and inspects them: the sentinels it compares
  with \<open>errors.Is\<close>, the types it extracts with \<open>errors.As\<close>, the wrapping that \<open>fmt.Errorf\<close>
  with \<open>%w\<close> and \<open>RetryableError.Unwrap\<close> do, the gRPC status errors of the handlers, and the
  machine-readable codes of \<open>libs/errors/codes.go\<close>.
\<close>

section \<open>Error values\<close>

text \<open>The \<open>Type\<close> of a Stripe API error (the SDK's documented constants).\<close>

datatype stripe_error_type =
    ErrorTypeAPI | ErrorTypeCard | ErrorTypeIdempotency | ErrorTypeInvalidRequest
  | ErrorTypeOther string

text \<open>The gRPC status codes the program names; every other code is \<open>GrpcOther\<close>.\<close>

datatype grpc_code =
    GrpcInvalidArgument | GrpcNotFound | GrpcAlreadyExists | GrpcFailedPrecondition
  | GrpcInternal | GrpcOther nat

text \<open>
  \<open>PgError\<close> is an error the database server or the connection reports, with its SQLSTATE;
  \<open>ErrNoRows\<close> is pgx's sentinel; \<open>RetryableError\<close> and \<open>ErrCancelNotSupported\<close> are the
  provider package's; \<open>ErrText\<close> is \<open>errors.New\<close> or \<open>fmt.Errorf\<close> without a wrapped error.
\<close>

datatype go_error =
    ErrNoRows
  | ErrNotFound
  | ErrIdempotencyKeyExists
  | ErrCancelNotSupported
  | ErrNoProviders
  | ErrText string
  | ErrWrap string go_error
  | PgError string string
  | StripeErr stripe_error_type string
  | RetryableError bool go_error
  | StatusError grpc_code string

text \<open>The result of a Go function that returns \<open>(T, error)\<close>, with the error on the left.\<close>

type_synonym 'a result = "go_error + 'a"

section \<open>Round trips\<close>

text \<open>
  What happens to one round trip: it is answered, it fails before the server acts, or the server
  acts and the answer is lost. A failure is reported with a code and a text.
\<close>

datatype delivery = Delivered | LostBefore string string | LostAfter string string

section \<open>Inspecting errors\<close>

fun go_unwrap :: "go_error \<Rightarrow> go_error option" where
  "go_unwrap (ErrWrap _ e) = Some e"
| "go_unwrap (RetryableError _ e) = Some e"
| "go_unwrap _ = None"

text \<open>\<open>errors.Is\<close>: the error or one it wraps is the target.\<close>

fun errors_Is :: "go_error \<Rightarrow> go_error \<Rightarrow> bool" where
  "errors_Is (ErrWrap m e) t = (ErrWrap m e = t \<or> errors_Is e t)"
| "errors_Is (RetryableError b e) t = (RetryableError b e = t \<or> errors_Is e t)"
| "errors_Is e t = (e = t)"

text \<open>\<open>errors.As\<close> for a \<open>*RetryableError\<close>: the first one on the chain, its flag.\<close>

fun errors_As_Retryable :: "go_error \<Rightarrow> bool option" where
  "errors_As_Retryable (RetryableError b _) = Some b"
| "errors_As_Retryable (ErrWrap _ e) = errors_As_Retryable e"
| "errors_As_Retryable _ = None"

text \<open>\<open>errors.As\<close> for a \<open>*stripe.Error\<close>: the first one on the chain, its type.\<close>

fun errors_As_Stripe :: "go_error \<Rightarrow> stripe_error_type option" where
  "errors_As_Stripe (StripeErr t _) = Some t"
| "errors_As_Stripe (ErrWrap _ e) = errors_As_Stripe e"
| "errors_As_Stripe (RetryableError _ e) = errors_As_Stripe e"
| "errors_As_Stripe _ = None"

text \<open>\<open>err.Error()\<close>, the text the handlers put into a status message with \<open>%v\<close>.\<close>

fun err_text :: "go_error \<Rightarrow> string" where
  "err_text ErrNoRows = ''no rows in result set''"
| "err_text ErrNotFound = ''not found''"
| "err_text ErrIdempotencyKeyExists = ''idempotency key already exists''"
| "err_text ErrCancelNotSupported = ''provider does not support cancel''"
| "err_text ErrNoProviders = ''no providers available for rail''"
| "err_text (ErrText m) = m"
| "err_text (ErrWrap m e) = m @ '': '' @ err_text e"
| "err_text (PgError _ m) = m"
| "err_text (StripeErr _ m) = m"
| "err_text (RetryableError _ e) = err_text e"
| "err_text (StatusError _ m) = ''rpc error: '' @ m"

section \<open>Codes (libs/errors/codes.go)\<close>

abbreviation CodeIdempotencyConflict :: string where
  "CodeIdempotencyConflict \<equiv> ''IDEMPOTENCY_CONFLICT''"
abbreviation CodeInvalidArgument :: string where
  "CodeInvalidArgument \<equiv> ''INVALID_ARGUMENT''"
abbreviation CodeInvalidState :: string where
  "CodeInvalidState \<equiv> ''INVALID_STATE''"
abbreviation CodeInvalidUUID :: string where
  "CodeInvalidUUID \<equiv> ''INVALID_UUID''"
abbreviation CodeNotFound :: string where
  "CodeNotFound \<equiv> ''NOT_FOUND''"
abbreviation CodeInternal :: string where
  "CodeInternal \<equiv> ''INTERNAL''"

text \<open>A sentinel is found through any number of wrappings.\<close>

lemma errors_Is_refl [simp]: "errors_Is e e"
  by (cases e) auto

lemma errors_Is_unwrap: "go_unwrap e = Some e' \<Longrightarrow> errors_Is e' t \<Longrightarrow> errors_Is e t"
  by (cases e) auto

end
