(* ===== verification/Domain.thy ===== *)
theory Domain
  imports GoErrors
begin

text \<open>
  \<open>services/orchestrator/internal/domain/payout.go\<close>: the payout states, rails and providers
  (Go string types, so the model's are strings too: a state read from the database need not be one
  of the constants), the payout and idempotency-key records and the parameter structs of the
  repository interface.
\<close>

type_synonym payout_state = string
type_synonym rail = string
type_synonym provider = string

abbreviation PayoutStateCreated :: payout_state where "PayoutStateCreated \<equiv> ''created''"
abbreviation PayoutStateQueued :: payout_state where "PayoutStateQueued \<equiv> ''queued''"
abbreviation PayoutStatePending :: payout_state where "PayoutStatePending \<equiv> ''pending''"
abbreviation PayoutStateProcessing :: payout_state where "PayoutStateProcessing \<equiv> ''processing''"
abbreviation PayoutStateCompleted :: payout_state where "PayoutStateCompleted \<equiv> ''completed''"
abbreviation PayoutStateSent :: payout_state where "PayoutStateSent \<equiv> ''sent''"
abbreviation PayoutStateFailed :: payout_state where "PayoutStateFailed \<equiv> ''failed''"
abbreviation PayoutStateCanceled :: payout_state where "PayoutStateCanceled \<equiv> ''canceled''"

abbreviation RailCard :: rail where "RailCard \<equiv> ''card''"
abbreviation RailCrypto :: rail where "RailCrypto \<equiv> ''crypto''"

abbreviation ProviderStripe :: provider where "ProviderStripe \<equiv> ''stripe''"
abbreviation ProviderCryptoSim :: provider where "ProviderCryptoSim \<equiv> ''crypto_sim''"
abbreviation ProviderMockCard :: provider where "ProviderMockCard \<equiv> ''mock_card''"

text \<open>Routing metadata of a provider; \<open>Weight\<close> is a Go \<open>int\<close>.\<close>

record provider_meta =
  mProvider :: provider
  mIsActive :: bool
  mWeight :: int

text \<open>\<open>domain.Payout\<close>. A nil \<open>ExternalID\<close> is \<open>None\<close>; an unset provider is the empty string.\<close>

record payout =
  pID :: uuid
  pState :: payout_state
  pAmountCents :: int
  pCurrency :: string
  pRail :: rail
  pProvider :: provider
  pExternalID :: "string option"
  pCreatedAt :: go_time
  pUpdatedAt :: go_time

record idempotency_key =
  kKey :: string
  kRequestHash :: string
  kPayoutID :: uuid
  kCreatedAt :: go_time

record create_payout_params =
  cpState :: payout_state
  cpAmountCents :: int
  cpCurrency :: string
  cpRail :: rail
  cpProvider :: provider
  cpExternalID :: "string option"

record update_payout_params =
  upState :: payout_state
  upExternalID :: "string option"
  upProvider :: provider

text \<open>Go's zero values of the two records, what a function returns beside an error.\<close>

definition zero_payout :: payout where
  "zero_payout = \<lparr>pID = 0, pState = [], pAmountCents = 0, pCurrency = [], pRail = [],
     pProvider = [], pExternalID = None, pCreatedAt = 0, pUpdatedAt = 0\<rparr>"

definition zero_key :: idempotency_key where
  "zero_key = \<lparr>kKey = [], kRequestHash = [], kPayoutID = 0, kCreatedAt = 0\<rparr>"

end
