(* ===== verification/Providers.thy ===== *)
theory Providers
  imports Domain
begin

text \<open>
  The provider clients: \<open>provider/mock/mock.go\<close>, \<open>provider/stripe/stripe.go\<close> and the interface
  \<open>Client\<close> of \<open>provider/provider.go\<close>. The Stripe SDK is not under \<open>src/\<close>: its two calls are
  parameters, functions on an abstract state of the outside world (\<open>'p\<close>) that the model threads
  through, so that a call leaves a trace there.
\<close>

section \<open>Stripe\<close>

record stripe_config =
  scAPIKey :: string
  scMaxRetries :: int
  scTimeoutSeconds :: int
  scBaseURL :: string

text \<open>What \<open>New\<close> hands to the SDK: the defaults filled in, the base URL only when one is given.\<close>

record stripe_client =
  stAPIKey :: string
  stRetries :: int
  stTimeoutSec :: int
  stURL :: "string option"

definition Stripe_New :: "int \<Rightarrow> stripe_config \<Rightarrow> stripe_client" where
  "Stripe_New DefaultMaxNetworkRetries cfg =
     \<lparr>stAPIKey = scAPIKey cfg,
      stRetries = (if scMaxRetries cfg = 0 then DefaultMaxNetworkRetries else scMaxRetries cfg),
      stTimeoutSec = (if scTimeoutSeconds cfg = 0 then 30 else scTimeoutSeconds cfg),
      stURL = (if scBaseURL cfg \<noteq> [] then Some (scBaseURL cfg) else None)\<rparr>"

record payment_intent_params =
  piAmount :: int
  piCurrency :: string
  piPaymentMethodTypes :: "string list"
  piPaymentMethod :: string
  piConfirm :: bool
  piOffSession :: bool

record 'p stripe_sdk =
  PaymentIntents_Create :: "stripe_client \<Rightarrow> payment_intent_params \<Rightarrow> 'p \<Rightarrow> string result \<times> 'p"
  PaymentIntents_Cancel :: "stripe_client \<Rightarrow> string \<Rightarrow> 'p \<Rightarrow> go_error option \<times> 'p"

definition classifyError :: "go_error \<Rightarrow> go_error" where
  "classifyError err =
     (case errors_As_Stripe err of
        Some t \<Rightarrow>
          (case t of
             ErrorTypeCard \<Rightarrow> RetryableError False err
           | ErrorTypeInvalidRequest \<Rightarrow> RetryableError False err
           | ErrorTypeIdempotency \<Rightarrow> RetryableError False err
           | _ \<Rightarrow> RetryableError True err)
      | None \<Rightarrow> err)"

definition Stripe_SendPayout ::
    "'p stripe_sdk \<Rightarrow> stripe_client \<Rightarrow> payout \<Rightarrow> 'p \<Rightarrow> string result \<times> 'p" where
  "Stripe_SendPayout sdk c payout w =
     (case PaymentIntents_Create sdk c
         \<lparr>piAmount = pAmountCents payout, piCurrency = pCurrency payout,
          piPaymentMethodTypes = [''card''], piPaymentMethod = ''pm_card_visa'',
          piConfirm = True, piOffSession = True\<rparr> w of
        (Inl err, w') \<Rightarrow> (Inl (classifyError err), w')
      | (Inr piID, w') \<Rightarrow> (Inr piID, w'))"

definition Stripe_CancelPayout ::
    "'p stripe_sdk \<Rightarrow> stripe_client \<Rightarrow> payout \<Rightarrow> 'p \<Rightarrow> go_error option \<times> 'p" where
  "Stripe_CancelPayout sdk c payout w =
     (case pExternalID payout of
        None \<Rightarrow> (Some (RetryableError False (ErrText ''stripe: payout has no external_id to cancel'')), w)
      | Some x \<Rightarrow>
          (case PaymentIntents_Cancel sdk c x w of
             (Some err, w') \<Rightarrow> (Some (classifyError err), w')
           | (None, w') \<Rightarrow> (None, w')))"

section \<open>Mock\<close>

record mock_provider =
  mpSendErr :: "go_error option"
  mpCancelErr :: "go_error option"

definition Mock_SendPayout :: "(uuid \<Rightarrow> string) \<Rightarrow> mock_provider \<Rightarrow> payout \<Rightarrow> string result" where
  "Mock_SendPayout uuid_string m payout =
     (case mpSendErr m of
        Some e \<Rightarrow> Inl e
      | None \<Rightarrow> Inr (''mock-ext-'' @ uuid_string (pID payout)))"

definition Mock_CancelPayout :: "mock_provider \<Rightarrow> payout \<Rightarrow> go_error option" where
  "Mock_CancelPayout m payout = mpCancelErr m"

section \<open>The interface value\<close>

text \<open>The two implementations of \<open>Client\<close> and the dynamic dispatch on them.\<close>

datatype client = StripeClient stripe_client | MockClient mock_provider

fun Client_SendPayout ::
    "(uuid \<Rightarrow> string) \<Rightarrow> 'p stripe_sdk \<Rightarrow> client \<Rightarrow> payout \<Rightarrow> 'p \<Rightarrow> string result \<times> 'p" where
  "Client_SendPayout us sdk (StripeClient c) payout w = Stripe_SendPayout sdk c payout w"
| "Client_SendPayout us sdk (MockClient m) payout w = (Mock_SendPayout us m payout, w)"

fun Client_CancelPayout ::
    "'p stripe_sdk \<Rightarrow> client \<Rightarrow> payout \<Rightarrow> 'p \<Rightarrow> go_error option \<times> 'p" where
  "Client_CancelPayout sdk (StripeClient c) payout w = Stripe_CancelPayout sdk c payout w"
| "Client_CancelPayout sdk (MockClient m) payout w = (Mock_CancelPayout m payout, w)"

end
