(* ===== verification/Registry.thy ===== *)
theory Registry
  imports Domain
begin

text \<open>
  \<open>services/orchestrator/internal/provider/registry.go\<close>: the providers of each rail in the order of
  registration. The Go map from rails to slices is an association list with distinct rails; a
  client is whatever implements the interface \<open>Client\<close> (the type variable \<open>'c\<close>).
\<close>

section \<open>State\<close>

record 'c provider_with_meta =
  pwClient :: 'c
  pwMeta :: provider_meta

type_synonym 'c registry = "(rail \<times> 'c provider_with_meta list) list"

definition NewRegistry :: "'c registry" where
  "NewRegistry = []"

section \<open>Operations\<close>

definition registered :: "rail \<Rightarrow> 'c registry \<Rightarrow> 'c provider_with_meta list" where
  "registered rl r = (case map_of r rl of None \<Rightarrow> [] | Some entries \<Rightarrow> entries)"

definition RegisterWithMeta :: "rail \<Rightarrow> 'c \<Rightarrow> provider_meta \<Rightarrow> 'c registry \<Rightarrow> 'c registry" where
  "RegisterWithMeta rl client meta r =
     AList.update rl (registered rl r @ [\<lparr>pwClient = client, pwMeta = meta\<rparr>]) r"

definition Register :: "rail \<Rightarrow> 'c \<Rightarrow> 'c registry \<Rightarrow> 'c registry" where
  "Register rl client r =
     RegisterWithMeta rl client \<lparr>mProvider = [], mIsActive = True, mWeight = 0\<rparr> r"

definition GetProviders :: "rail \<Rightarrow> 'c registry \<Rightarrow> 'c provider_with_meta list" where
  "GetProviders rl r =
     (case map_of r rl of
        None \<Rightarrow> []
      | Some entries \<Rightarrow> filter (\<lambda>e. mIsActive (pwMeta e)) entries)"

definition Registry_Get :: "rail \<Rightarrow> 'c registry \<Rightarrow> 'c result" where
  "Registry_Get rl r =
     (case GetProviders rl r of
        [] \<Rightarrow> Inl (ErrText (''provider: no active client registered for rail '' @ go_quote rl))
      | p # _ \<Rightarrow> Inr (pwClient p))"

text \<open>The loop over the entries stops at the first one with the name.\<close>

fun set_active_first ::
    "provider \<Rightarrow> bool \<Rightarrow> 'c provider_with_meta list \<Rightarrow> 'c provider_with_meta list option" where
  "set_active_first _ _ [] = None"
| "set_active_first p active (e # es) =
     (if mProvider (pwMeta e) = p
      then Some (e\<lparr>pwMeta := (pwMeta e)\<lparr>mIsActive := active\<rparr>\<rparr> # es)
      else map_option (\<lambda>es'. e # es') (set_active_first p active es))"

definition SetActive :: "rail \<Rightarrow> provider \<Rightarrow> bool \<Rightarrow> 'c registry \<Rightarrow> bool \<times> 'c registry" where
  "SetActive rl p active r =
     (case map_of r rl of
        None \<Rightarrow> (False, r)
      | Some entries \<Rightarrow>
          (case set_active_first p active entries of
             None \<Rightarrow> (False, r)
           | Some entries' \<Rightarrow> (True, AList.update rl entries' r)))"

text \<open>
  Go visits the rails of the map in an unspecified order, which is the argument \<open>order\<close>; within a
  rail the entries come in registration order, active or not.
\<close>

definition GetByProvider :: "rail list \<Rightarrow> provider \<Rightarrow> 'c registry \<Rightarrow> 'c result" where
  "GetByProvider order p r =
     (case find (\<lambda>e. mProvider (pwMeta e) = p) (concat (map (\<lambda>rl. registered rl r) order)) of
        None \<Rightarrow> Inl (ErrText (''provider: no client registered for provider '' @ go_quote p))
      | Some e \<Rightarrow> Inr (pwClient e))"

section \<open>What the operations do\<close>

lemma GetProviders_registered: "GetProviders rl r = filter (\<lambda>e. mIsActive (pwMeta e)) (registered rl r)"
  by (simp add: GetProviders_def registered_def split: option.split)

lemma registered_RegisterWithMeta:
  "registered rl' (RegisterWithMeta rl client meta r) =
     (if rl' = rl then registered rl r @ [\<lparr>pwClient = client, pwMeta = meta\<rparr>]
      else registered rl' r)"
  by (simp add: RegisterWithMeta_def registered_def update_conv')

text \<open>
  Registration order is priority order, inactive providers are skipped, and rails are independent:
  what the router sees after a registration is what it saw before, with the new provider last if it
  is active and the rail is its own.
\<close>

lemma GetProviders_RegisterWithMeta:
  "GetProviders rl' (RegisterWithMeta rl client meta r) =
     GetProviders rl' r @
     (if rl' = rl \<and> mIsActive meta then [\<lparr>pwClient = client, pwMeta = meta\<rparr>] else [])"
  by (simp add: GetProviders_registered registered_RegisterWithMeta)

lemma GetProviders_active: "e \<in> set (GetProviders rl r) \<Longrightarrow> mIsActive (pwMeta e)"
  by (simp add: GetProviders_registered)

lemma set_active_first_None:
  "set_active_first p active es = None \<longleftrightarrow> (\<forall>e \<in> set es. mProvider (pwMeta e) \<noteq> p)"
  by (induction es) auto

lemma set_active_first_Some:
  "set_active_first p active es = Some es' \<Longrightarrow>
   \<exists>us e vs. es = us @ e # vs \<and> mProvider (pwMeta e) = p \<and>
     (\<forall>u \<in> set us. mProvider (pwMeta u) \<noteq> p) \<and>
     es' = us @ e\<lparr>pwMeta := (pwMeta e)\<lparr>mIsActive := active\<rparr>\<rparr> # vs"
proof (induction es arbitrary: es')
  case (Cons e es)
  show ?case
  proof (cases "mProvider (pwMeta e) = p")
    case True
    with Cons.prems show ?thesis by (intro exI [of _ "[]"]) auto
  next
    case False
    with Cons.prems obtain es1 where es1: "set_active_first p active es = Some es1" "es' = e # es1"
      by auto
    from Cons.IH [OF es1(1)] obtain us f vs where "es = us @ f # vs" "mProvider (pwMeta f) = p"
      "\<forall>u \<in> set us. mProvider (pwMeta u) \<noteq> p"
      "es1 = us @ f\<lparr>pwMeta := (pwMeta f)\<lparr>mIsActive := active\<rparr>\<rparr> # vs" by blast
    with False es1(2) show ?thesis by (intro exI [of _ "e # us"]) auto
  qed
qed simp

lemma SetActive_answer:
  "fst (SetActive rl p active r) \<longleftrightarrow> (\<exists>e \<in> set (registered rl r). mProvider (pwMeta e) = p)"
proof (cases "map_of r rl")
  case (Some es)
  then show ?thesis
    using set_active_first_None [of p active es]
    by (cases "set_active_first p active es") (auto simp: SetActive_def registered_def)
qed (simp add: SetActive_def registered_def)

end
