(* ===== verification/GoFloat.thy ===== *)
theory GoFloat
  imports Prelude Complex_Main
begin

text \<open>
  Go's \<open>float64\<close>: every arithmetic result is the exact result rounded to the nearest number with a
  53-bit significand, ties to even. Values are rationals here and \<open>rnd64\<close> is that rounding; the
  exponent is not bounded, which is exact for the program's values (quotients of 64-bit counters,
  token counts and rates), all far from the overflow and underflow thresholds. What the components
  need of rounding is the locale \<open>rounding\<close>, and \<open>rnd64\<close> is its interpretation.
\<close>

section \<open>The rounding\<close>

text \<open>The number of bits of a natural number.\<close>

fun bits :: "nat \<Rightarrow> nat" where
  "bits n = (if n = 0 then 0 else Suc (bits (n div 2)))"

declare bits.simps [simp del]

text \<open>The exponent \<open>e\<close> with \<open>2^e \<le> x < 2^(e+1)\<close> of a positive number.\<close>

definition expo :: "rat \<Rightarrow> int" where
  "expo x = (if 1 \<le> x then int (bits (nat \<lfloor>x\<rfloor>)) - 1 else - int (bits (nat (\<lceil>1 / x\<rceil> - 1))))"

text \<open>Round to an integer, half to even.\<close>

definition round_even :: "rat \<Rightarrow> int" where
  "round_even x =
     (let f = \<lfloor>x\<rfloor>; r = x - of_int f in
      if r < 1 / 2 then f else if 1 / 2 < r then f + 1 else if even f then f else f + 1)"

definition pow2 :: "int \<Rightarrow> rat" where
  "pow2 e = (if 0 \<le> e then 2 ^ nat e else 1 / 2 ^ nat (- e))"

definition rnd_pos :: "rat \<Rightarrow> rat" where
  "rnd_pos x = (let u = pow2 (expo x - 52) in of_int (round_even (x / u)) * u)"

definition rnd64 :: "rat \<Rightarrow> rat" where
  "rnd64 x = (if x = 0 then 0 else if 0 < x then rnd_pos x else - rnd_pos (- x))"

section \<open>Arithmetic\<close>

text \<open>The conversion \<open>float64(n)\<close> of an \<open>int64\<close> and the float division, product, sum and difference.\<close>

definition float64_of_int :: "int \<Rightarrow> rat" where
  "float64_of_int n = rnd64 (of_int n)"

definition fdiv :: "rat \<Rightarrow> rat \<Rightarrow> rat" where
  "fdiv x y = rnd64 (x / y)"

definition fmul :: "rat \<Rightarrow> rat \<Rightarrow> rat" where
  "fmul x y = rnd64 (x * y)"

definition fadd :: "rat \<Rightarrow> rat \<Rightarrow> rat" where
  "fadd x y = rnd64 (x + y)"

definition fsub :: "rat \<Rightarrow> rat \<Rightarrow> rat" where
  "fsub x y = rnd64 (x - y)"

section \<open>Bits and exponents\<close>

lemma bits_bounds: "n < 2 ^ bits n \<and> (0 < n \<longrightarrow> 2 ^ (bits n - 1) \<le> n)"
proof (induction n rule: bits.induct)
  case (1 n)
  show ?case
  proof (cases "n = 0")
    case True
    then show ?thesis by (simp add: bits.simps)
  next
    case False
    then have IH: "n div 2 < 2 ^ bits (n div 2)"
      "0 < n div 2 \<longrightarrow> 2 ^ (bits (n div 2) - 1) \<le> n div 2"
      using 1 by auto
    have b: "bits n = Suc (bits (n div 2))" using False by (simp add: bits.simps [of n])
    have "2 ^ bits (n div 2) \<le> n"
    proof (cases "n div 2 = 0")
      case True
      with False show ?thesis by (simp add: bits.simps)
    next
      case nz: False
      then have "bits (n div 2) = Suc (bits (n div 2) - 1)" by (simp add: bits.simps [of "n div 2"])
      then have "(2::nat) ^ bits (n div 2) = 2 * 2 ^ (bits (n div 2) - 1)" by (metis power_Suc)
      with IH(2) nz show ?thesis by linarith
    qed
    with IH(1) b show ?thesis by simp
  qed
qed

lemma pow2_pos [simp]: "0 < pow2 e"
  by (simp add: pow2_def)

lemma pow2_nonzero [simp]: "pow2 e \<noteq> 0"
  using pow2_pos [of e] by linarith

lemma pow2_add: "pow2 (a + b) = pow2 a * pow2 b"
proof -
  have eq: "pow2 e = 2 powi e" for e
    by (simp add: pow2_def power_int_def inverse_eq_divide power_one_over)
  show ?thesis by (simp add: eq power_int_add)
qed

lemma pow2_0 [simp]: "pow2 0 = 1"
  by (simp add: pow2_def)

lemma pow2_mono: "a \<le> b \<Longrightarrow> pow2 a \<le> pow2 b"
proof -
  assume "a \<le> b"
  then have "pow2 (b - a) = 2 ^ nat (b - a)" by (simp add: pow2_def)
  then have "1 \<le> pow2 (b - a)" by simp
  then show ?thesis using pow2_add [of a "b - a"] pow2_pos [of a] by simp
qed

lemma pow2_52: "pow2 52 = 2 ^ 52" and pow2_53: "pow2 53 = 2 ^ 53" and pow2_1: "pow2 1 = 2"
  by (simp_all add: pow2_def)

lemma expo_bounds:
  assumes "0 < x"
  shows "pow2 (expo x) \<le> x" and "x < pow2 (expo x + 1)"
proof -
  have "pow2 (expo x) \<le> x \<and> x < pow2 (expo x + 1)"
  proof (cases "1 \<le> x")
    case True
    let ?n = "nat \<lfloor>x\<rfloor>"
    have n: "0 < ?n" using True by linarith
    then have b: "bits ?n = Suc (bits ?n - 1)" by (simp add: bits.simps [of ?n])
    have e: "expo x = int (bits ?n - 1)" using True b by (simp add: expo_def)
    have "(2::rat) ^ (bits ?n - 1) \<le> of_nat ?n"
      using bits_bounds [of ?n] n by (metis of_nat_le_iff of_nat_numeral of_nat_power)
    moreover have "of_nat ?n + 1 \<le> (2::rat) ^ bits ?n"
      using bits_bounds [of ?n] by (metis Suc_leI add.commute of_nat_Suc of_nat_le_iff
          of_nat_numeral of_nat_power)
    moreover have "of_nat ?n \<le> x" "x < of_nat ?n + 1"
      using True by linarith+
    moreover have "pow2 (expo x + 1) = 2 ^ bits ?n"
      using b by (simp add: e pow2_def flip: of_nat_Suc)
    moreover have "pow2 (expo x) = 2 ^ (bits ?n - 1)"
      unfolding e by (simp add: pow2_def)
    ultimately show ?thesis by linarith
  next
    case False
    let ?y = "1 / x" and ?n = "nat (\<lceil>1 / x\<rceil> - 1)"
    have y: "1 < ?y" using False assms by simp
    then have n: "0 < ?n" by linarith
    then have b: "bits ?n = Suc (bits ?n - 1)" by (simp add: bits.simps [of ?n])
    have e: "expo x = - int (bits ?n)" using False by (simp add: expo_def)
    have "(2::rat) ^ (bits ?n - 1) \<le> of_nat ?n"
      using bits_bounds [of ?n] n by (metis of_nat_le_iff of_nat_numeral of_nat_power)
    moreover have "of_nat ?n + 1 \<le> (2::rat) ^ bits ?n"
      using bits_bounds [of ?n] by (metis Suc_leI add.commute of_nat_Suc of_nat_le_iff
          of_nat_numeral of_nat_power)
    moreover have "of_nat ?n < ?y" "?y \<le> of_nat ?n + 1"
      using y by linarith+
    ultimately have lo: "(2::rat) ^ (bits ?n - 1) < ?y" and hi: "?y \<le> 2 ^ bits ?n"
      by linarith+
    have "pow2 (expo x) = 1 / 2 ^ bits ?n" by (auto simp: e pow2_def)
    moreover have "pow2 (expo x + 1) = 1 / 2 ^ (bits ?n - 1)"
      by (subst e, subst b) (auto simp: pow2_def)
    moreover have "1 / 2 ^ bits ?n \<le> x" using hi assms by (simp add: field_simps)
    moreover have "x < 1 / 2 ^ (bits ?n - 1)" using lo assms by (simp add: field_simps)
    ultimately show ?thesis by simp
  qed
  then show "pow2 (expo x) \<le> x" and "x < pow2 (expo x + 1)" by simp_all
qed

section \<open>Properties of the rounding\<close>

lemma round_even_mono: "x \<le> y \<Longrightarrow> round_even x \<le> round_even y"
proof -
  assume xy: "x \<le> y"
  have fl: "\<lfloor>z\<rfloor> \<le> round_even z \<and> round_even z \<le> \<lfloor>z\<rfloor> + 1" for z
    by (simp add: round_even_def Let_def)
  show ?thesis
  proof (cases "\<lfloor>x\<rfloor> = \<lfloor>y\<rfloor>")
    case True
    then show ?thesis using xy by (auto simp: round_even_def Let_def)
  next
    case False
    with xy have "\<lfloor>x\<rfloor> + 1 \<le> \<lfloor>y\<rfloor>" using floor_mono [OF xy] by linarith
    with fl [of x] fl [of y] show ?thesis by linarith
  qed
qed

lemma round_even_int [simp]: "round_even (of_int n) = n"
  by (simp add: round_even_def)

lemma round_even_error: "\<bar>of_int (round_even x) - x\<bar> \<le> 1 / 2"
  by (auto simp: round_even_def Let_def abs_if) linarith+

text \<open>A rounded number lies in the same binade, its upper end included.\<close>

lemma rnd_pos_bounds:
  assumes "0 < x"
  shows "pow2 (expo x) \<le> rnd_pos x" and "rnd_pos x \<le> pow2 (expo x + 1)"
proof -
  let ?u = "pow2 (expo x - 52)"
  have u: "0 < ?u" by simp
  have split: "pow2 (expo x) = 2 ^ 52 * ?u" "pow2 (expo x + 1) = 2 ^ 53 * ?u"
    using pow2_add [of 52 "expo x - 52"] pow2_add [of 53 "expo x - 52"] by (simp_all add: pow2_52 pow2_53 add.commute)
  from expo_bounds [OF assms] u have "of_int (2 ^ 52) \<le> x / ?u" "x / ?u \<le> of_int (2 ^ 53)"
    unfolding split by (simp_all add: field_simps)
  then have "2 ^ 52 \<le> round_even (x / ?u)" "round_even (x / ?u) \<le> 2 ^ 53"
    using round_even_mono [of "of_int (2 ^ 52)" "x / ?u"] round_even_mono [of "x / ?u" "of_int (2 ^ 53)"]
    by (simp_all only: round_even_int)
  then have "(of_int (2 ^ 52) :: rat) \<le> of_int (round_even (x / ?u))"
    "(of_int (round_even (x / ?u)) :: rat) \<le> of_int (2 ^ 53)"
    by (simp_all only: of_int_le_iff)
  with u show "pow2 (expo x) \<le> rnd_pos x" and "rnd_pos x \<le> pow2 (expo x + 1)"
    unfolding split rnd_pos_def Let_def by (simp_all add: mult_right_mono)
qed

lemma expo_mono: "0 < x \<Longrightarrow> x \<le> y \<Longrightarrow> expo x \<le> expo y"
proof (rule ccontr)
  assume x: "0 < x" and xy: "x \<le> y" and "\<not> expo x \<le> expo y"
  then have "pow2 (expo y + 1) \<le> pow2 (expo x)" by (intro pow2_mono) simp
  with expo_bounds [of x] expo_bounds [of y] x xy show False by simp
qed

lemma rnd_pos_mono:
  assumes "0 < x" and "x \<le> y"
  shows "rnd_pos x \<le> rnd_pos y"
proof (cases "expo x = expo y")
  case True
  then show ?thesis
    using assms by (auto simp: rnd_pos_def Let_def intro!: mult_right_mono round_even_mono divide_right_mono
        less_imp_le [OF pow2_pos])
next
  case False
  with expo_mono [OF assms] have "pow2 (expo x + 1) \<le> pow2 (expo y)" by (intro pow2_mono) simp
  with rnd_pos_bounds [of x] rnd_pos_bounds [of y] assms show ?thesis by linarith
qed

lemma rnd_pos_pos: "0 < x \<Longrightarrow> 0 < rnd_pos x"
  using rnd_pos_bounds(1) [of x] pow2_pos [of "expo x"] by linarith

lemma rnd64_mono: "x \<le> y \<Longrightarrow> rnd64 x \<le> rnd64 y"
  using rnd_pos_mono [of x y] rnd_pos_mono [of "- y" "- x"] rnd_pos_pos [of y] rnd_pos_pos [of "- x"]
  by (auto simp: rnd64_def)

lemma rnd64_0 [simp]: "rnd64 0 = 0"
  by (simp add: rnd64_def)

text \<open>A whole number of at most 53 bits is its own rounding.\<close>

lemma rnd_pos_exact:
  assumes "0 < n" and "n \<le> 2 ^ 53"
  shows "rnd_pos (of_int n) = of_int n"
proof -
  let ?e = "expo (of_int n)" and ?u = "pow2 (expo (of_int n) - 52)"
  have pos: "(0::rat) < of_int n" using assms by simp
  show ?thesis
  proof (cases "?e \<le> 52")
    case True
    then have "?u = 1 / 2 ^ nat (52 - ?e)" by (auto simp: pow2_def)
    then have "of_int n / ?u = of_int (n * 2 ^ nat (52 - ?e))" by simp
    then have "of_int (round_even (of_int n / ?u)) = (of_int n / ?u :: rat)"
      by (simp only: round_even_int)
    then show ?thesis by (simp add: rnd_pos_def Let_def)
  next
    case False
    then have "pow2 53 \<le> pow2 ?e" by (intro pow2_mono) simp
    also have "\<dots> \<le> of_int n" by (rule expo_bounds(1) [OF pos])
    finally have "(of_int (2 ^ 53) :: rat) \<le> of_int n" by (simp add: pow2_53)
    with assms(2) have n: "n = 2 ^ 53" by (simp only: of_int_le_iff)
    have "?e = 53"
    proof -
      have "\<not> 54 \<le> ?e"
      proof
        assume "54 \<le> ?e"
        then have "pow2 54 \<le> pow2 ?e" by (rule pow2_mono)
        with expo_bounds(1) [OF pos] show False by (simp add: n pow2_def)
      qed
      with False show ?thesis by simp
    qed
    then have u: "?u = 2" by (simp add: pow2_1)
    have "of_int n / 2 = (of_int (2 ^ 52) :: rat)" by (simp add: n)
    then have "round_even (of_int n / ?u) = 2 ^ 52" by (simp only: u round_even_int)
    then have "rnd_pos (of_int n) = of_int (2 ^ 52) * 2" by (simp only: rnd_pos_def Let_def u)
    then show ?thesis by (simp add: n)
  qed
qed

lemma rnd64_exact: "\<bar>n\<bar> \<le> 2 ^ 53 \<Longrightarrow> rnd64 (of_int n) = of_int n"
  using rnd_pos_exact [of n] rnd_pos_exact [of "- n"] by (auto simp: rnd64_def)

text \<open>The relative error is at most \<open>2^-53\<close>.\<close>

lemma rnd_pos_error:
  assumes "0 < x"
  shows "\<bar>rnd_pos x - x\<bar> \<le> x / 2 ^ 53"
proof -
  let ?u = "pow2 (expo x - 52)"
  have "rnd_pos x - x = (of_int (round_even (x / ?u)) - x / ?u) * ?u"
    using pow2_pos [of "expo x - 52"] by (simp add: rnd_pos_def Let_def field_simps)
  then have "\<bar>rnd_pos x - x\<bar> = \<bar>of_int (round_even (x / ?u)) - x / ?u\<bar> * ?u"
    by (simp add: abs_mult less_imp_le)
  also have "\<dots> \<le> 1 / 2 * ?u"
    by (intro mult_right_mono round_even_error less_imp_le pow2_pos)
  also have "\<dots> = pow2 (expo x) / 2 ^ 53"
    using pow2_add [of 52 "expo x - 52"] by (simp add: pow2_52)
  also have "\<dots> \<le> x / 2 ^ 53"
    by (intro divide_right_mono expo_bounds(1) assms) simp
  finally show ?thesis .
qed

lemma rnd64_error: "\<bar>rnd64 x - x\<bar> \<le> \<bar>x\<bar> / 2 ^ 53"
  using rnd_pos_error [of x] rnd_pos_error [of "- x"] by (auto simp: rnd64_def abs_if split: if_splits)

section \<open>The interface of rounding\<close>

locale rounding =
  fixes rnd :: "rat \<Rightarrow> rat"
  assumes rnd_mono: "x \<le> y \<Longrightarrow> rnd x \<le> rnd y"
    and rnd_exact: "\<bar>n\<bar> \<le> 2 ^ 53 \<Longrightarrow> rnd (of_int n) = of_int n"
begin

text \<open>A strict comparison of rounded values is one of the exact values.\<close>

lemma rnd_less_imp: "rnd x < rnd y \<Longrightarrow> x < y"
  by (metis rnd_mono linorder_not_le)

lemma rnd_zero: "rnd 0 = 0" and rnd_one: "rnd 1 = 1"
  using rnd_exact [of 0] rnd_exact [of 1] by simp_all

lemma rnd_nonneg: "0 \<le> x \<Longrightarrow> 0 \<le> rnd x"
  using rnd_mono [of 0 x] by (simp add: rnd_zero)

text \<open>The rounded quotient of two rounded numbers in order lies between 0 and 1.\<close>

lemma rnd_quotient_unit:
  assumes "0 \<le> x" and "x \<le> y"
  shows "0 \<le> rnd (rnd x / rnd y)" and "rnd (rnd x / rnd y) \<le> 1"
proof -
  have xy: "0 \<le> rnd x" "rnd x \<le> rnd y" using rnd_nonneg rnd_mono assms by auto
  show "0 \<le> rnd (rnd x / rnd y)"
    by (rule rnd_nonneg) (use xy in \<open>simp add: divide_nonneg_nonneg\<close>)
  have "rnd x / rnd y \<le> 1" using xy by (cases "rnd y = 0") (auto simp: divide_le_eq)
  from rnd_mono [OF this] show "rnd (rnd x / rnd y) \<le> 1" by (simp add: rnd_one)
qed

end

interpretation f64: rounding rnd64
  by unfold_locales (simp_all add: rnd64_mono rnd64_exact)

end
