(* ===== verification/SuccessTracker.thy ===== *)
theory SuccessTracker
  imports GoFloat Domain
begin

text \<open>
  \<open>services/orchestrator/internal/provider/success_tracker.go\<close>: success and failure counts per
  (rail, provider), kept under the string key \<open>rail:provider\<close>. The mutex makes each operation one
  atomic step, so the operations are functions on the map; \<open>now\<close> is what \<open>time.Now()\<close> returned.
\<close>

section \<open>State and operations\<close>

record provider_stats =
  sSuccessCount :: int
  sFailCount :: int
  sLastUpdated :: go_time

type_synonym success_tracker = "string \<Rightarrow> provider_stats option"

definition NewSuccessTracker :: success_tracker where
  "NewSuccessTracker = (\<lambda>_. None)"

definition stats_key :: "string \<Rightarrow> string \<Rightarrow> string" where
  "stats_key rail provider = rail @ '':'' @ provider"

definition zero_stats :: provider_stats where
  "zero_stats = \<lparr>sSuccessCount = 0, sFailCount = 0, sLastUpdated = 0\<rparr>"

definition stats_or_zero :: "success_tracker \<Rightarrow> string \<Rightarrow> provider_stats" where
  "stats_or_zero t key = (case t key of None \<Rightarrow> zero_stats | Some st \<Rightarrow> st)"

definition RecordSuccess :: "string \<Rightarrow> string \<Rightarrow> go_time \<Rightarrow> success_tracker \<Rightarrow> success_tracker" where
  "RecordSuccess rail provider now t =
     (let key = stats_key rail provider; st = stats_or_zero t key in
      t(key \<mapsto> st\<lparr>sSuccessCount := wrap64 (sSuccessCount st + 1), sLastUpdated := now\<rparr>))"

definition RecordFailure :: "string \<Rightarrow> string \<Rightarrow> go_time \<Rightarrow> success_tracker \<Rightarrow> success_tracker" where
  "RecordFailure rail provider now t =
     (let key = stats_key rail provider; st = stats_or_zero t key in
      t(key \<mapsto> st\<lparr>sFailCount := wrap64 (sFailCount st + 1), sLastUpdated := now\<rparr>))"

text \<open>The untyped constant \<open>0.95\<close> becomes the nearest \<open>float64\<close>.\<close>

definition DefaultSuccessRate :: rat where
  "DefaultSuccessRate = rnd64 (95 / 100)"

definition GetSuccessRate :: "string \<Rightarrow> string \<Rightarrow> success_tracker \<Rightarrow> rat" where
  "GetSuccessRate rail provider t =
     (case t (stats_key rail provider) of
        None \<Rightarrow> DefaultSuccessRate
      | Some st \<Rightarrow>
          let total = wrap64 (sSuccessCount st + sFailCount st) in
          if total = 0 then DefaultSuccessRate
          else fdiv (float64_of_int (sSuccessCount st)) (float64_of_int total))"

definition GetStats :: "string \<Rightarrow> string \<Rightarrow> success_tracker \<Rightarrow> int \<times> int \<times> bool" where
  "GetStats rail provider t =
     (case t (stats_key rail provider) of
        None \<Rightarrow> (0, 0, False)
      | Some st \<Rightarrow> (sSuccessCount st, sFailCount st, True))"

section \<open>Histories\<close>

text \<open>
  The specification of the tracker: the list of outcomes reported so far. \<open>replay\<close> feeds a history
  to the code, oldest first; the counts must be those of the list.
\<close>

record outcome =
  oRail :: string
  oProvider :: string
  oOk :: bool
  oAt :: go_time

definition record_outcome :: "outcome \<Rightarrow> success_tracker \<Rightarrow> success_tracker" where
  "record_outcome x t =
     (if oOk x then RecordSuccess (oRail x) (oProvider x) (oAt x) t
      else RecordFailure (oRail x) (oProvider x) (oAt x) t)"

definition replay :: "outcome list \<Rightarrow> success_tracker" where
  "replay h = fold record_outcome h NewSuccessTracker"

definition key_of :: "outcome \<Rightarrow> string" where
  "key_of x = stats_key (oRail x) (oProvider x)"

definition count_outcomes :: "string \<Rightarrow> bool \<Rightarrow> outcome list \<Rightarrow> int" where
  "count_outcomes key b h = int (length (filter (\<lambda>x. key_of x = key \<and> oOk x = b) h))"

section \<open>The counts are those of the history\<close>

lemma count_outcomes_le: "count_outcomes key b h \<le> int (length h)" "0 \<le> count_outcomes key b h"
  by (simp_all add: count_outcomes_def)

lemma replay_snoc: "replay (h @ [x]) = record_outcome x (replay h)"
  by (simp add: replay_def)

lemma record_outcome_at:
  "record_outcome x t key =
     (if key = key_of x
      then Some ((stats_or_zero t key)
        \<lparr>sSuccessCount := (if oOk x then wrap64 (sSuccessCount (stats_or_zero t key) + 1)
                           else sSuccessCount (stats_or_zero t key)),
         sFailCount := (if oOk x then sFailCount (stats_or_zero t key)
                        else wrap64 (sFailCount (stats_or_zero t key) + 1)),
         sLastUpdated := oAt x\<rparr>)
      else t key)"
  by (simp add: record_outcome_def RecordSuccess_def RecordFailure_def key_of_def Let_def)

lemma replay_stats:
  assumes "length h < 2 ^ 63"
  shows "(replay h key = None \<longleftrightarrow> (\<forall>x \<in> set h. key_of x \<noteq> key)) \<and>
    sSuccessCount (stats_or_zero (replay h) key) = count_outcomes key True h \<and>
    sFailCount (stats_or_zero (replay h) key) = count_outcomes key False h"
  using assms
proof (induction h rule: rev_induct)
  case Nil
  show ?case
    by (simp add: replay_def NewSuccessTracker_def stats_or_zero_def zero_stats_def count_outcomes_def)
next
  case (snoc x h)
  let ?st = "stats_or_zero (replay h) key"
  from snoc have IH: "replay h key = None \<longleftrightarrow> (\<forall>x \<in> set h. key_of x \<noteq> key)"
    "sSuccessCount ?st = count_outcomes key True h" "sFailCount ?st = count_outcomes key False h"
    by simp_all
  have room: "wrap64 (count_outcomes key b h + 1) = count_outcomes key b h + 1" for b
    using count_outcomes_le [of key b h] snoc.prems by (intro wrap64_id) auto
  show ?case
  proof (cases "key = key_of x")
    case True
    then have at: "replay (h @ [x]) key = Some (?st
        \<lparr>sSuccessCount := (if oOk x then sSuccessCount ?st + 1 else sSuccessCount ?st),
         sFailCount := (if oOk x then sFailCount ?st else sFailCount ?st + 1),
         sLastUpdated := oAt x\<rparr>)"
      using room IH(2,3) by (simp add: replay_snoc record_outcome_at)
    show ?thesis
      using True IH(2,3) unfolding stats_or_zero_def at by (auto simp: count_outcomes_def)
  next
    case False
    then have at: "replay (h @ [x]) key = replay h key"
      by (simp add: replay_snoc record_outcome_at)
    show ?thesis
      using False IH unfolding stats_or_zero_def at by (auto simp: count_outcomes_def)
  qed
qed

text \<open>
  The tracker counts exactly. After any history of fewer than \<open>2^63\<close> reported outcomes,
  \<open>GetStats\<close> answers the number of successes and the number of failures reported under that
  (rail, provider) key, and says whether there was any.
\<close>

lemma GetStats_counts:
  assumes "length h < 2 ^ 63"
  shows "GetStats rail provider (replay h) =
    (count_outcomes (stats_key rail provider) True h,
     count_outcomes (stats_key rail provider) False h,
     \<exists>x \<in> set h. key_of x = stats_key rail provider)"
proof -
  let ?key = "stats_key rail provider"
  note st = replay_stats [OF assms, of ?key]
  show ?thesis
  proof (cases "replay h ?key")
    case None
    with st show ?thesis
      by (simp add: GetStats_def stats_or_zero_def zero_stats_def)
  next
    case (Some s)
    with st show ?thesis
      by (auto simp: GetStats_def stats_or_zero_def)
  qed
qed

definition demo_history :: "outcome list" where
  "demo_history =
     [\<lparr>oRail = ''card'', oProvider = ''stripe'', oOk = True, oAt = 1\<rparr>,
      \<lparr>oRail = ''card'', oProvider = ''stripe'', oOk = False, oAt = 2\<rparr>,
      \<lparr>oRail = ''card'', oProvider = ''mock_card'', oOk = True, oAt = 3\<rparr>]"

lemma GetStats_counts_witness:
  "GetStats ''card'' ''stripe'' (replay demo_history) = (1, 1, True)"
proof -
  have "length demo_history < 2 ^ 63" by (simp add: demo_history_def)
  from GetStats_counts [OF this, of "''card''" "''stripe''"] show ?thesis
    by (simp add: demo_history_def count_outcomes_def key_of_def stats_key_def)
qed

section \<open>The rate\<close>

lemma DefaultSuccessRate_unit: "0 \<le> DefaultSuccessRate \<and> DefaultSuccessRate \<le> 1"
  using f64.rnd_nonneg [of "95 / 100"] f64.rnd_mono [of "95 / 100" 1]
  by (simp add: DefaultSuccessRate_def f64.rnd_one)

lemma GetSuccessRate_replay:
  fixes rail provider :: string
  assumes "length h < 2 ^ 62"
  defines "key \<equiv> stats_key rail provider"
  defines "s \<equiv> count_outcomes key True h" and "f \<equiv> count_outcomes key False h"
  shows "GetSuccessRate rail provider (replay h) =
    (if s + f = 0 then DefaultSuccessRate else rnd64 (rnd64 (of_int s) / rnd64 (of_int (s + f))))"
proof -
  have "length h < 2 ^ 63" using assms(1) by simp
  note st = replay_stats [OF this, of key]
  have sum: "wrap64 (s + f) = s + f"
    using count_outcomes_le [of key True h] count_outcomes_le [of key False h] assms(1)
    unfolding s_def f_def by (intro wrap64_id) auto
  show ?thesis
  proof (cases "replay h key")
    case None
    with st have "s = 0" "f = 0" by (simp_all add: s_def f_def stats_or_zero_def zero_stats_def)
    with None show ?thesis by (simp add: GetSuccessRate_def key_def)
  next
    case (Some x)
    with st have "sSuccessCount x = s" "sFailCount x = f"
      by (simp_all add: s_def f_def stats_or_zero_def)
    with Some sum show ?thesis
      by (simp add: GetSuccessRate_def Let_def fdiv_def float64_of_int_def flip: key_def)
  qed
qed

text \<open>
  The success rate is a rate. After any history, whatever rounding does, it lies between 0
  and 1; with no outcome under the key it is the optimistic default.
\<close>

lemma GetSuccessRate_unit:
  assumes "length h < 2 ^ 62"
  shows "0 \<le> GetSuccessRate rail provider (replay h) \<and>
    GetSuccessRate rail provider (replay h) \<le> 1"
  using f64.rnd_quotient_unit [of "of_int (count_outcomes (stats_key rail provider) True h)"
      "of_int (count_outcomes (stats_key rail provider) True h +
               count_outcomes (stats_key rail provider) False h)"]
    count_outcomes_le(2) DefaultSuccessRate_unit
  by (auto simp: GetSuccessRate_replay [OF assms])

lemma GetSuccessRate_unit_witness:
  "0 \<le> GetSuccessRate ''card'' ''stripe'' (replay demo_history) \<and>
   GetSuccessRate ''card'' ''stripe'' (replay demo_history) \<le> 1"
  by (rule GetSuccessRate_unit) (simp add: demo_history_def)

text \<open>
  Comparing two rounded rates never reverses the exact order: a provider whose computed rate is
  higher has the higher exact proportion of successes (while the counts are below \<open>2^53\<close>, where the
  conversion to \<open>float64\<close> is exact).
\<close>

lemma rate_order_exact:
  fixes rail p q :: string
  assumes "length h \<le> 2 ^ 52"
  defines "s \<equiv> \<lambda>p. count_outcomes (stats_key rail p) True h"
    and "n \<equiv> \<lambda>p. count_outcomes (stats_key rail p) True h + count_outcomes (stats_key rail p) False h"
  assumes "0 < n p" and "0 < n q"
    and less: "GetSuccessRate rail p (replay h) < GetSuccessRate rail q (replay h)"
  shows "s p * n q < s q * n p"
proof -
  have len: "length h < 2 ^ 62" using assms(1) by simp
  have "int (length h) \<le> 2 ^ 52" using assms(1) by simp
  then have "\<bar>s x\<bar> \<le> 2 ^ 53 \<and> \<bar>n x\<bar> \<le> 2 ^ 53" for x
    using count_outcomes_le [of "stats_key rail x" True h] count_outcomes_le [of "stats_key rail x" False h]
    unfolding s_def n_def by simp
  then have exact: "rnd64 (of_int (s x)) = of_int (s x) \<and> rnd64 (of_int (n x)) = of_int (n x)" for x
    using f64.rnd_exact by blast
  have rate: "GetSuccessRate rail x (replay h) = rnd64 (of_int (s x) / of_int (n x))" if "0 < n x" for x
  proof -
    have "n x \<noteq> 0" using that by simp
    then show ?thesis
      using GetSuccessRate_replay [OF len, of rail x] exact [of x]
      unfolding s_def n_def by presburger
  qed
  from less have "of_int (s p) / of_int (n p) < (of_int (s q) / of_int (n q) :: rat)"
    using rate [OF assms(4)] rate [OF assms(5)] by (metis f64.rnd_less_imp)
  then have "(of_int (s p * n q) :: rat) < of_int (s q * n p)"
    using assms(4,5) by (simp add: field_simps)
  then show ?thesis by (simp only: of_int_less_iff)
qed

end
