(* ===== verification/ExchangeSort.thy ===== *)
theory ExchangeSort
  imports Prelude "HOL-Library.Product_Lexorder"
begin

text \<open>
  The double loop \<open>for i := 0; i < len-1; i++ { for j := i+1; j < len; j++ { if less swap } }\<close> that
  the router sorts with, over any key into a linear order: it is an exchange sort, it permutes, and
  it leaves the list in descending order of the keys.
\<close>

section \<open>The loops\<close>

definition exchange_step :: "('a \<Rightarrow> 'k::linorder) \<Rightarrow> nat \<Rightarrow> 'a list \<Rightarrow> nat \<Rightarrow> 'a list" where
  "exchange_step key i xs j = (if key (xs ! i) < key (xs ! j) then swap_at i j xs else xs)"

definition exchange_pass :: "('a \<Rightarrow> 'k::linorder) \<Rightarrow> 'a list \<Rightarrow> nat \<Rightarrow> 'a list" where
  "exchange_pass key xs i = foldl (exchange_step key i) xs [Suc i..<length xs]"

definition exchange_sort :: "('a \<Rightarrow> 'k::linorder) \<Rightarrow> 'a list \<Rightarrow> 'a list" where
  "exchange_sort key xs = foldl (exchange_pass key) xs [0..<length xs - 1]"

section \<open>It permutes\<close>

lemma exchange_step_mset:
  "i < length xs \<Longrightarrow> j < length xs \<Longrightarrow>
   mset (exchange_step key i xs j) = mset xs \<and> length (exchange_step key i xs j) = length xs"
  by (simp add: exchange_step_def mset_swap_at)

lemma exchange_steps_mset:
  assumes "i < length xs" and "\<forall>j \<in> set js. j < length xs"
  shows "mset (foldl (exchange_step key i) xs js) = mset xs \<and>
    length (foldl (exchange_step key i) xs js) = length xs"
  using assms
proof (induction js arbitrary: xs)
  case (Cons j js)
  have st: "mset (exchange_step key i xs j) = mset xs"
    "length (exchange_step key i xs j) = length xs"
    using exchange_step_mset [of i xs j key] Cons.prems by simp_all
  with Cons.IH [of "exchange_step key i xs j"] Cons.prems show ?case by simp
qed simp

lemma exchange_pass_mset:
  "i < length xs \<Longrightarrow> mset (exchange_pass key xs i) = mset xs \<and>
   length (exchange_pass key xs i) = length xs"
  unfolding exchange_pass_def by (rule exchange_steps_mset) auto

lemma exchange_passes_mset:
  assumes "\<forall>i \<in> set is. i < length xs"
  shows "mset (foldl (exchange_pass key) xs is) = mset xs \<and>
    length (foldl (exchange_pass key) xs is) = length xs"
  using assms
proof (induction "is" arbitrary: xs)
  case (Cons i "is")
  with exchange_pass_mset [of i xs key] Cons.IH [of "exchange_pass key xs i"] show ?case by simp
qed simp

lemma mset_exchange_sort: "mset (exchange_sort key xs) = mset xs"
  unfolding exchange_sort_def by (rule exchange_passes_mset [THEN conjunct1]) auto

lemma length_exchange_sort [simp]: "length (exchange_sort key xs) = length xs"
  by (metis mset_exchange_sort size_mset)

section \<open>It sorts\<close>

text \<open>The first \<open>m\<close> places hold the largest keys, in order.\<close>

definition top_sorted :: "('a \<Rightarrow> 'k::linorder) \<Rightarrow> nat \<Rightarrow> 'a list \<Rightarrow> bool" where
  "top_sorted key m xs \<longleftrightarrow> (\<forall>a b. a < m \<and> a < b \<and> b < length xs \<longrightarrow> key (xs ! b) \<le> key (xs ! a))"

text \<open>Place \<open>i\<close> holds the largest key of the places from \<open>i\<close> up to \<open>m\<close>.\<close>

definition leads :: "('a \<Rightarrow> 'k::linorder) \<Rightarrow> nat \<Rightarrow> nat \<Rightarrow> 'a list \<Rightarrow> bool" where
  "leads key i m xs \<longleftrightarrow> (\<forall>b. i < b \<and> b < m \<longrightarrow> key (xs ! b) \<le> key (xs ! i))"

lemma exchange_step_inv:
  assumes "top_sorted key i xs" and "leads key i j xs" and "i < j" and "j < length xs"
  shows "top_sorted key i (exchange_step key i xs j) \<and> leads key i (Suc j) (exchange_step key i xs j)"
proof (cases "key (xs ! i) < key (xs ! j)")
  case True
  have nth: "swap_at i j xs ! k = (if k = j then xs ! i else if k = i then xs ! j else xs ! k)" for k
    using assms(3,4) by (simp add: nth_swap_at)
  have "top_sorted key i (swap_at i j xs)"
    using assms(1,3,4) by (auto simp: top_sorted_def nth)
  moreover have "leads key i (Suc j) (swap_at i j xs)"
    using assms(2) True by (auto simp: leads_def nth less_Suc_eq intro: order_trans [OF _ less_imp_le])
  ultimately show ?thesis using True by (simp add: exchange_step_def)
next
  case False
  then show ?thesis using assms(1,2) by (auto simp: exchange_step_def leads_def less_Suc_eq)
qed

lemma exchange_steps_inv:
  assumes "top_sorted key i xs" and "i < m" and "m \<le> length xs"
  shows "top_sorted key i (foldl (exchange_step key i) xs [Suc i..<m]) \<and>
    leads key i m (foldl (exchange_step key i) xs [Suc i..<m])"
  using assms(2,3)
proof (induction m)
  case (Suc m)
  show ?case
  proof (cases "i < m")
    case True
    let ?ys = "foldl (exchange_step key i) xs [Suc i..<m]"
    have "length ?ys = length xs"
      using Suc.prems by (intro exchange_steps_mset [THEN conjunct2]) auto
    with Suc True exchange_step_inv [of key i ?ys m] show ?thesis by simp
  next
    case False
    with Suc.prems have "m = i" by simp
    then show ?thesis using assms(1) by (auto simp: leads_def)
  qed
qed simp

lemma exchange_pass_inv:
  assumes "top_sorted key i xs" and "i < length xs"
  shows "top_sorted key (Suc i) (exchange_pass key xs i)"
proof -
  have len: "length (exchange_pass key xs i) = length xs"
    using exchange_pass_mset [OF assms(2)] by blast
  have "top_sorted key i (exchange_pass key xs i)" "leads key i (length xs) (exchange_pass key xs i)"
    using exchange_steps_inv [OF assms order.refl] by (simp_all add: exchange_pass_def)
  then show ?thesis using len by (auto simp: top_sorted_def leads_def less_Suc_eq)
qed

lemma exchange_passes_inv:
  "m \<le> length xs \<Longrightarrow> top_sorted key m (foldl (exchange_pass key) xs [0..<m])"
proof (induction m)
  case 0
  show ?case by (simp add: top_sorted_def)
next
  case (Suc m)
  have "length (foldl (exchange_pass key) xs [0..<m]) = length xs"
    using Suc.prems by (intro exchange_passes_mset [THEN conjunct2]) auto
  with Suc exchange_pass_inv [of key m "foldl (exchange_pass key) xs [0..<m]"] show ?case by simp
qed

lemma sorted_exchange_sort: "sorted_wrt (\<lambda>a b. key b \<le> key a) (exchange_sort key xs)"
proof -
  have "top_sorted key (length xs - 1) (exchange_sort key xs)"
    unfolding exchange_sort_def by (rule exchange_passes_inv) simp
  then show ?thesis by (auto simp: sorted_wrt_iff_nth_less top_sorted_def)
qed

section \<open>It moves nothing without reason\<close>

text \<open>A list that is already in descending order, ties included, is left as it is.\<close>

lemma exchange_steps_id:
  "\<forall>j \<in> set js. \<not> key (xs ! i) < key (xs ! j) \<Longrightarrow> foldl (exchange_step key i) xs js = xs"
  by (induction js) (simp_all add: exchange_step_def)

lemma exchange_sort_id:
  assumes "sorted_wrt (\<lambda>a b. key b \<le> key a) xs"
  shows "exchange_sort key xs = xs"
proof -
  have pass: "exchange_pass key xs i = xs" for i
    unfolding exchange_pass_def
    by (rule exchange_steps_id) (use assms in \<open>auto simp: sorted_wrt_iff_nth_less not_less\<close>)
  have "foldl (exchange_pass key) xs is = xs" for "is"
    by (induction "is") (simp_all add: pass)
  then show ?thesis by (simp add: exchange_sort_def)
qed

end
