(* ===== verification/Router.thy ===== *)
theory Router
  imports Registry SuccessTracker ExchangeSort
begin

text \<open>
  \<open>services/orchestrator/internal/provider/router.go\<close>: the three routing algorithms. The result of
  \<open>rand.Intn(n)\<close> is an argument of the functions that draw; its documented range \<open>0 \<le> r < n\<close> is a
  hypothesis where it matters. Go's \<open>int\<close> sums are written with their wrap-around.
\<close>

section \<open>Weights\<close>

text \<open>Give \<open>rest\<close> to the first entry without a weight; the loop breaks there.\<close>

fun add_to_first_unset :: "int \<Rightarrow> 'c provider_with_meta list \<Rightarrow> int list \<Rightarrow> int list" where
  "add_to_first_unset rest (p # ps) (w # ws) =
     (if mWeight (pwMeta p) = 0 then wrap64 (w + rest) # ws
      else w # add_to_first_unset rest ps ws)"
| "add_to_first_unset rest ps ws = ws"

text \<open>Entries without a weight get \<open>v\<close>, the others keep what they have.\<close>

definition set_unset :: "int \<Rightarrow> 'c provider_with_meta list \<Rightarrow> int list \<Rightarrow> int list" where
  "set_unset v ps ws = map2 (\<lambda>p w. if mWeight (pwMeta p) = 0 then v else w) ps ws"

definition explicit_weight :: "'c provider_with_meta \<Rightarrow> int" where
  "explicit_weight p = (if 0 < mWeight (pwMeta p) then mWeight (pwMeta p) else 0)"

text \<open>
  The caller passes a non-empty list. \<open>100\<close>, the counts and the remainder are positive where they
  are divided, so Go's truncating division is \<open>div\<close>.
\<close>

definition calculateEffectiveWeights :: "'c provider_with_meta list \<Rightarrow> int list" where
  "calculateEffectiveWeights providers =
     (let n = int (length providers);
          weights = map explicit_weight providers;
          totalExplicit = foldl (\<lambda>s p. if 0 < mWeight (pwMeta p) then wrap64 (s + mWeight (pwMeta p)) else s)
                            0 providers;
          explicitCount = int (length (filter (\<lambda>p. 0 < mWeight (pwMeta p)) providers))
      in if explicitCount = 0
         then (case map (\<lambda>_. 100 div n) providers of
                 [] \<Rightarrow> []
               | w # ws \<Rightarrow> (w + 100 mod n) # ws)
         else if explicitCount = n then weights
         else let remainder = wrap64 (100 - totalExplicit) in
           if remainder \<le> 0 then set_unset 1 providers weights
           else let unsetCount = n - explicitCount;
                    weights' = set_unset (remainder div unsetCount) providers weights;
                    remainderRemainder = remainder mod unsetCount
                in if 0 < remainderRemainder
                   then add_to_first_unset remainderRemainder providers weights'
                   else weights')"

definition total_weight :: "int list \<Rightarrow> int" where
  "total_weight ws = foldl (\<lambda>s w. wrap64 (s + w)) 0 ws"

section \<open>Weighted choice\<close>

text \<open>The bound \<open>rand.Intn\<close> is called with.\<close>

definition intn_bound :: "int list \<Rightarrow> int \<Rightarrow> int" where
  "intn_bound weights totalWeight =
     (if totalWeight \<le> 0 then int (length weights) else totalWeight)"

text \<open>The scan: the index of the first prefix sum above \<open>r\<close>, the last index if there is none.\<close>

fun scan_weights :: "int list \<Rightarrow> int \<Rightarrow> int \<Rightarrow> nat \<Rightarrow> nat option" where
  "scan_weights [] r acc i = None"
| "scan_weights (w # ws) r acc i =
     (let acc' = wrap64 (acc + w) in
      if r < acc' then Some i else scan_weights ws r acc' (Suc i))"

definition weightedRandomIndex :: "int list \<Rightarrow> int \<Rightarrow> int \<Rightarrow> nat" where
  "weightedRandomIndex weights totalWeight drawn =
     (if totalWeight \<le> 0 then nat drawn
      else (case scan_weights weights drawn 0 0 of
              Some i \<Rightarrow> i
            | None \<Rightarrow> length weights - 1))"

text \<open>\<open>result[0] = providers[idx]\<close>, then the others in their order.\<close>

definition move_to_front :: "nat \<Rightarrow> 'a list \<Rightarrow> 'a list" where
  "move_to_front idx ps =
     ps ! idx # map snd (filter (\<lambda>(i, p). i \<noteq> idx) (enumerate 0 ps))"

definition selectByWeight ::
    "(int \<Rightarrow> 'p \<Rightarrow> int \<times> 'p) \<Rightarrow> 'c provider_with_meta list \<Rightarrow> 'p \<Rightarrow>
     'c provider_with_meta list \<times> 'p" where
  "selectByWeight rand_Intn providers w =
     (if providers = [] then (providers, w)
      else let weights = calculateEffectiveWeights providers;
               totalWeight = total_weight weights
           in case rand_Intn (intn_bound weights totalWeight) w of
                (drawn, w') \<Rightarrow>
                  (move_to_front (weightedRandomIndex weights totalWeight drawn) providers, w'))"

section \<open>Success rates\<close>

definition enough :: "int \<Rightarrow> rail \<Rightarrow> success_tracker \<Rightarrow> 'c provider_with_meta \<Rightarrow> bool" where
  "enough minSamples rl t p =
     (case GetStats rl (mProvider (pwMeta p)) t of
        (succ, fail, ok) \<Rightarrow> ok \<and> minSamples \<le> wrap64 (succ + fail))"

text \<open>The body of the two loops: \<open>i\<close> stays, moves behind \<open>j\<close>, or is compared by rate.\<close>

definition success_step ::
    "int \<Rightarrow> rail \<Rightarrow> success_tracker \<Rightarrow> nat \<Rightarrow> 'c provider_with_meta list \<Rightarrow> nat \<Rightarrow>
     'c provider_with_meta list" where
  "success_step minSamples rl t i result j =
     (let hasEnoughI = enough minSamples rl t (result ! i);
          hasEnoughJ = enough minSamples rl t (result ! j)
      in if hasEnoughI \<and> \<not> hasEnoughJ then result
         else if \<not> hasEnoughI \<and> hasEnoughJ then swap_at i j result
         else if hasEnoughI \<and> hasEnoughJ
         then (if GetSuccessRate rl (mProvider (pwMeta (result ! i))) t
                  < GetSuccessRate rl (mProvider (pwMeta (result ! j))) t
               then swap_at i j result else result)
         else result)"

definition selectBySuccessRate ::
    "int \<Rightarrow> rail \<Rightarrow> success_tracker \<Rightarrow> 'c provider_with_meta list \<Rightarrow> 'c provider_with_meta list" where
  "selectBySuccessRate minSamples rl t providers =
     (if providers = [] then providers
      else foldl (\<lambda>xs i. foldl (success_step minSamples rl t i) xs [Suc i..<length xs])
             providers [0..<length providers - 1])"

section \<open>SelectProviders\<close>

type_synonym routing_algorithm = string

abbreviation RoutingPriority :: routing_algorithm where "RoutingPriority \<equiv> ''priority''"
abbreviation RoutingWeighted :: routing_algorithm where "RoutingWeighted \<equiv> ''weighted''"
abbreviation RoutingSuccessBased :: routing_algorithm where "RoutingSuccessBased \<equiv> ''success_based''"

record 'c router =
  rtRegistry :: "'c registry"
  rtMinSamples :: int

definition provider_NewRouter :: "'c registry \<Rightarrow> int \<Rightarrow> 'c router" where
  "provider_NewRouter registry minSamples = \<lparr>rtRegistry = registry, rtMinSamples = minSamples\<rparr>"

definition SelectProviders ::
    "(int \<Rightarrow> 'p \<Rightarrow> int \<times> 'p) \<Rightarrow> 'c router \<Rightarrow> success_tracker \<Rightarrow> rail \<Rightarrow> routing_algorithm \<Rightarrow> 'p \<Rightarrow>
     'c provider_with_meta list result \<times> 'p" where
  "SelectProviders rand_Intn rt t rl algo w =
     (let providers = GetProviders rl (rtRegistry rt) in
      if providers = [] then (Inl ErrNoProviders, w)
      else if algo = RoutingWeighted
      then (case selectByWeight rand_Intn providers w of (result, w') \<Rightarrow> (Inr result, w'))
      else if algo = RoutingSuccessBased
      then (Inr (selectBySuccessRate (rtMinSamples rt) rl t providers), w)
      else (Inr providers, w))"

end
