(* ===== verification/RouterFacts.thy ===== *)
theory RouterFacts
  imports Router
begin

text \<open>
  What routing promises: every algorithm orders exactly the active providers of the rail (the locale
  \<open>routing_algorithm\<close>, interpreted by the three of them), the weighted choice picks each index with
  the probability its weight says, the effective weights add up to 100, and the success-based order
  is by enough samples first and by success rate among those.
\<close>

section \<open>The contract of a routing algorithm\<close>

locale routing_algorithm =
  fixes select :: "'a list \<Rightarrow> 'a list"
    and dom :: "'a list \<Rightarrow> bool"
  assumes select_perm: "dom ps \<Longrightarrow> mset (select ps) = mset ps"
begin

lemma select_set: "dom ps \<Longrightarrow> set (select ps) = set ps"
  using select_perm by (metis set_mset_mset)

lemma select_length: "dom ps \<Longrightarrow> length (select ps) = length ps"
  using select_perm by (metis size_mset)

lemma select_nonempty: "dom ps \<Longrightarrow> ps \<noteq> [] \<Longrightarrow> select ps \<noteq> []"
  using select_length by fastforce

text \<open>Whatever a key counts, an algorithm neither drops nor duplicates it.\<close>

lemma select_distinct: "dom ps \<Longrightarrow> distinct (map f (select ps)) = distinct (map f ps)"
  using select_perm by (metis mset_eq_imp_distinct_iff mset_map)

end

interpretation priority: routing_algorithm "\<lambda>ps. ps" "\<lambda>_. True"
  by unfold_locales simp

section \<open>Moving the chosen provider to the front\<close>

lemma filter_enumerate_other:
  "map snd (filter (\<lambda>(i, p). i \<noteq> k) (enumerate m ps)) =
     (if m \<le> k then take (k - m) ps @ drop (Suc (k - m)) ps else ps)"
proof (induction ps arbitrary: m)
  case (Cons p ps)
  show ?case
  proof (cases "m = k")
    case True
    then show ?thesis using Cons.IH [of "Suc m"] by simp
  next
    case False
    then show ?thesis
      using Cons.IH [of "Suc m"] by (cases "m < k") (auto simp: Suc_diff_Suc [symmetric])
  qed
qed simp

lemma move_to_front_eq:
  "move_to_front k ps = ps ! k # take k ps @ drop (Suc k) ps"
  using filter_enumerate_other [of k 0 ps] by (simp add: move_to_front_def)

lemma mset_move_to_front: "k < length ps \<Longrightarrow> mset (move_to_front k ps) = mset ps"
proof -
  assume "k < length ps"
  then have "ps = take k ps @ ps ! k # drop (Suc k) ps" by (rule id_take_nth_drop)
  then have "mset ps = mset (take k ps @ ps ! k # drop (Suc k) ps)" by simp
  then show ?thesis by (simp add: move_to_front_eq)
qed

interpretation weighted: routing_algorithm "move_to_front k" "\<lambda>ps. k < length ps" for k
  by unfold_locales (rule mset_move_to_front)

section \<open>The success-based order\<close>

text \<open>The key the loops compare: having enough samples first, then the rate.\<close>

definition success_key ::
    "int \<Rightarrow> rail \<Rightarrow> success_tracker \<Rightarrow> 'c provider_with_meta \<Rightarrow> bool \<times> rat" where
  "success_key minSamples rl t p =
     (enough minSamples rl t p,
      if enough minSamples rl t p then GetSuccessRate rl (mProvider (pwMeta p)) t else 0)"

lemma success_step_exchange:
  "success_step minSamples rl t = exchange_step (success_key minSamples rl t)"
  by (intro ext) (auto simp: success_step_def exchange_step_def success_key_def Let_def less_prod_def)

lemma selectBySuccessRate_exchange:
  "selectBySuccessRate minSamples rl t ps = exchange_sort (success_key minSamples rl t) ps"
  by (simp add: selectBySuccessRate_def exchange_sort_def exchange_pass_def [abs_def]
      success_step_exchange)

interpretation success_based: routing_algorithm "selectBySuccessRate minSamples rl t" "\<lambda>_. True"
  for minSamples rl t
  by unfold_locales (simp add: selectBySuccessRate_exchange mset_exchange_sort)

text \<open>
  Success-based routing orders as documented. In the result, every provider with enough samples
  precedes every provider without, and among those with enough samples the computed success rate
  never increases.
\<close>

lemma selectBySuccessRate_sorted:
  "sorted_wrt
     (\<lambda>p q. (enough minSamples rl t q \<longrightarrow> enough minSamples rl t p) \<and>
            (enough minSamples rl t p \<and> enough minSamples rl t q \<longrightarrow>
               GetSuccessRate rl (mProvider (pwMeta q)) t
                 \<le> GetSuccessRate rl (mProvider (pwMeta p)) t))
     (selectBySuccessRate minSamples rl t providers)"
  unfolding selectBySuccessRate_exchange
  by (rule sorted_wrt_mono_rel [OF _ sorted_exchange_sort])
    (auto simp: success_key_def less_eq_prod_def split: if_splits)

text \<open>If no provider has enough samples the configured order stands.\<close>

lemma selectBySuccessRate_no_samples:
  "\<forall>p \<in> set providers. \<not> enough minSamples rl t p \<Longrightarrow>
   selectBySuccessRate minSamples rl t providers = providers"
  unfolding selectBySuccessRate_exchange
  by (rule exchange_sort_id) (simp add: success_key_def sorted_wrt_iff_nth_less)

section \<open>The weighted choice\<close>

lemma wrap64_add: "0 \<le> a \<Longrightarrow> a < 2 ^ 63 \<Longrightarrow> wrap64 a = a"
  by (rule wrap64_id) auto

lemma sum_list_nonneg_int: "\<forall>w \<in> set ws. (0::int) \<le> w \<Longrightarrow> 0 \<le> sum_list ws"
  by (induction ws) auto

lemma foldl_wrap_sum:
  "0 \<le> a \<Longrightarrow> \<forall>w \<in> set ws. 0 \<le> w \<Longrightarrow> a + sum_list ws < 2 ^ 63 \<Longrightarrow>
   foldl (\<lambda>s w. wrap64 (s + w)) a ws = a + sum_list ws"
proof (induction ws arbitrary: a)
  case (Cons w ws)
  have "0 \<le> sum_list ws" using Cons.prems by (intro sum_list_nonneg_int) simp
  with Cons.prems have "wrap64 (a + w) = a + w" by (intro wrap64_add) auto
  with Cons.IH [of "a + w"] Cons.prems show ?case by (simp add: add.assoc)
qed simp

lemma total_weight_sum:
  "\<forall>w \<in> set ws. 0 \<le> w \<Longrightarrow> sum_list ws < 2 ^ 63 \<Longrightarrow> total_weight ws = sum_list ws"
  using foldl_wrap_sum [of 0 ws] by (simp add: total_weight_def)

lemma scan_weights_iff:
  assumes "\<forall>w \<in> set ws. 0 \<le> w" and "0 \<le> acc" and "acc + sum_list ws < 2 ^ 63" and "acc \<le> r"
  shows "scan_weights ws r acc i = Some j \<longleftrightarrow>
    (\<exists>k < length ws. j = i + k \<and> acc + sum_list (take k ws) \<le> r \<and>
       r < acc + sum_list (take (Suc k) ws))"
  using assms
proof (induction ws arbitrary: acc i)
  case (Cons w ws)
  have tl: "0 \<le> sum_list (take k ws)" for k
    using Cons.prems(1) by (intro sum_list_nonneg_int) (auto dest: in_set_takeD)
  have "0 \<le> sum_list ws" using Cons.prems(1) by (intro sum_list_nonneg_int) simp
  with Cons.prems have wrap: "wrap64 (acc + w) = acc + w" by (intro wrap64_add) auto
  show ?case
  proof (cases "r < acc + w")
    case True
    have "k = 0" if "acc + sum_list (take k (w # ws)) \<le> r" for k
      using that True tl [of "k - 1"] by (cases k) auto
    with True wrap Cons.prems(4) show ?thesis by auto
  next
    case False
    then have "scan_weights (w # ws) r acc i = scan_weights ws r (acc + w) (Suc i)"
      by (simp add: wrap)
    also have "\<dots> = Some j \<longleftrightarrow> (\<exists>k < length ws. j = Suc i + k \<and>
        acc + w + sum_list (take k ws) \<le> r \<and> r < acc + w + sum_list (take (Suc k) ws))"
      using Cons.prems False by (intro Cons.IH) auto
    also have "\<dots> \<longleftrightarrow> (\<exists>k < length (w # ws). j = i + k \<and>
        acc + sum_list (take k (w # ws)) \<le> r \<and> r < acc + sum_list (take (Suc k) (w # ws)))"
      using False by (auto simp: Ex_less_Suc2 add.assoc)
    finally show ?thesis .
  qed
qed simp

lemma scan_weights_total:
  assumes "\<forall>w \<in> set ws. 0 \<le> w" and "sum_list ws < 2 ^ 63" and "0 \<le> r" and "r < sum_list ws"
  shows "scan_weights ws r 0 0 \<noteq> None"
proof -
  have "\<exists>k < length ws. sum_list (take k ws) \<le> r \<and> r < sum_list (take (Suc k) ws)"
    using assms(3,4)
  proof (induction ws rule: rev_induct)
    case (snoc w ws)
    show ?case
    proof (cases "r < sum_list ws")
      case True
      with snoc obtain k where "k < length ws" "sum_list (take k ws) \<le> r"
        "r < sum_list (take (Suc k) ws)" by auto
      then show ?thesis by (intro exI [of _ k]) auto
    next
      case False
      with snoc.prems show ?thesis by (intro exI [of _ "length ws"]) auto
    qed
  qed simp
  then show ?thesis using scan_weights_iff [OF assms(1), of 0 r 0] assms(2,3) by auto
qed

text \<open>
  C36: the weighted choice is fair. With non-negative weights of positive total, of the equally
  likely values that \<open>rand.Intn(total)\<close> can return, exactly \<open>weights[i]\<close> lead to index \<open>i\<close>: the
  index is drawn with probability \<open>weights[i] / total\<close>.
\<close>

theorem weightedRandomIndex_fair:
  assumes "\<forall>w \<in> set ws. 0 \<le> w" and "0 < sum_list ws" and "sum_list ws < 2 ^ 63" and "i < length ws"
  shows "card {r. 0 \<le> r \<and> r < intn_bound ws (total_weight ws) \<and>
      weightedRandomIndex ws (total_weight ws) r = i} = nat (ws ! i)"
proof -
  let ?lo = "sum_list (take i ws)"
  have total: "total_weight ws = sum_list ws" by (rule total_weight_sum) (use assms in auto)
  have split: "ws = take i ws @ ws ! i # drop (Suc i) ws" using assms(4) by (rule id_take_nth_drop)
  have rest: "0 \<le> sum_list (drop (Suc i) ws)"
    using assms(1) by (intro sum_list_nonneg_int) (auto dest: in_set_dropD)
  have lo: "0 \<le> ?lo"
    using assms(1) by (intro sum_list_nonneg_int) (auto dest: in_set_takeD)
  have "sum_list ws = sum_list (take i ws @ ws ! i # drop (Suc i) ws)" by (subst split) (rule refl)
  with rest have hi: "?lo + ws ! i \<le> sum_list ws" by simp
  have pick: "weightedRandomIndex ws (sum_list ws) r = i \<longleftrightarrow> ?lo \<le> r \<and> r < ?lo + ws ! i"
    if r: "0 \<le> r" "r < sum_list ws" for r
  proof -
    obtain j where j: "scan_weights ws r 0 0 = Some j"
      using scan_weights_total [OF assms(1,3) r] by auto
    then have "weightedRandomIndex ws (sum_list ws) r = j"
      using assms(2) by (simp add: weightedRandomIndex_def)
    moreover have "scan_weights ws r 0 0 = Some i \<longleftrightarrow> ?lo \<le> r \<and> r < ?lo + ws ! i"
      using scan_weights_iff [OF assms(1), of 0 r 0 i] assms(3,4) r(1)
      by (simp add: take_Suc_conv_app_nth)
    ultimately show ?thesis using j by auto
  qed
  have bound: "intn_bound ws (total_weight ws) = sum_list ws"
    using assms(2) by (simp add: total intn_bound_def)
  have "{r. 0 \<le> r \<and> r < sum_list ws \<and> weightedRandomIndex ws (sum_list ws) r = i} =
      {r. 0 \<le> r \<and> r < sum_list ws \<and> ?lo \<le> r \<and> r < ?lo + ws ! i}"
    using pick by blast
  also have "\<dots> = {?lo..<?lo + ws ! i}" using lo hi by auto
  finally show ?thesis unfolding bound [unfolded total] total by simp
qed

theorem weightedRandomIndex_fair_witness:
  "card {r. 0 \<le> r \<and> r < intn_bound [70, 30] (total_weight [70, 30]) \<and>
     weightedRandomIndex [70, 30] (total_weight [70, 30]) r = 1} = 30"
  using weightedRandomIndex_fair [of "[70, 30]" 1] by simp

text \<open>Whatever is drawn in range, the index is one of the list: the accesses cannot panic.\<close>

lemma weightedRandomIndex_in_range:
  assumes "ws \<noteq> []" and "0 \<le> r" and "r < intn_bound ws tw"
  shows "weightedRandomIndex ws tw r < length ws"
proof -
  have scan: "scan_weights vs r acc i = Some j \<Longrightarrow> j < i + length vs" for vs acc i j
    by (induction vs arbitrary: acc i) (fastforce simp: Let_def split: if_splits)+
  show ?thesis
    using assms scan [of ws 0 0] by (auto simp: weightedRandomIndex_def intn_bound_def
        split: option.split if_splits)
qed

section \<open>Effective weights\<close>

definition unset :: "'c provider_with_meta list \<Rightarrow> 'c provider_with_meta list" where
  "unset ps = filter (\<lambda>p. mWeight (pwMeta p) = 0) ps"

text \<open>The documented range of a configured weight, for a list of a realistic length.\<close>

definition weights_in_range :: "'c provider_with_meta list \<Rightarrow> bool" where
  "weights_in_range ps \<longleftrightarrow>
     (\<forall>p \<in> set ps. 0 \<le> mWeight (pwMeta p) \<and> mWeight (pwMeta p) \<le> 100) \<and> length ps < 2 ^ 32"

lemma explicit_sum_bound:
  "\<forall>p \<in> set ps. 0 \<le> mWeight (pwMeta p) \<and> mWeight (pwMeta p) \<le> 100 \<Longrightarrow>
   0 \<le> sum_list (map explicit_weight ps) \<and>
   sum_list (map explicit_weight ps) \<le> 100 * int (length ps)"
  by (induction ps) (auto simp: explicit_weight_def)

lemma foldl_explicit:
  "(\<lambda>s p. if 0 < mWeight (pwMeta p) then wrap64 (s + mWeight (pwMeta p)) else s) =
   (\<lambda>s p. if 0 < explicit_weight p then wrap64 (s + explicit_weight p) else s)"
  by (auto simp: explicit_weight_def fun_eq_iff)

lemma totalExplicit_sum:
  assumes "0 \<le> a" and "a + sum_list (map explicit_weight ps) < 2 ^ 63"
  shows "foldl (\<lambda>s p. if 0 < mWeight (pwMeta p) then wrap64 (s + mWeight (pwMeta p)) else s) a ps =
    a + sum_list (map explicit_weight ps)"
  unfolding foldl_explicit using assms
proof (induction ps arbitrary: a)
  case (Cons p ps)
  have nn: "0 \<le> explicit_weight p" "0 \<le> sum_list (map explicit_weight ps)"
    by (auto simp: explicit_weight_def intro!: sum_list_nonneg_int)
  with Cons.prems have "wrap64 (a + explicit_weight p) = a + explicit_weight p"
    by (intro wrap64_add) auto
  with Cons nn show ?case
    by (cases "0 < explicit_weight p") (simp_all add: add.assoc)
qed simp

lemma count_unset:
  "\<forall>p \<in> set ps. 0 \<le> mWeight (pwMeta p) \<Longrightarrow>
   int (length ps) - int (length (filter (\<lambda>p. 0 < mWeight (pwMeta p)) ps)) = int (length (unset ps))"
  by (induction ps) (auto simp: unset_def)

lemma set_unset_sum:
  "\<forall>p \<in> set ps. 0 \<le> mWeight (pwMeta p) \<Longrightarrow>
   sum_list (set_unset v ps (map explicit_weight ps)) =
     v * int (length (unset ps)) + sum_list (map explicit_weight ps)"
  by (induction ps) (auto simp: set_unset_def unset_def explicit_weight_def algebra_simps)

lemma set_unset_elem:
  "w \<in> set (set_unset v ps (map explicit_weight ps)) \<Longrightarrow> w = v \<or> w \<in> explicit_weight ` set ps"
  by (auto simp: set_unset_def split: if_splits dest!: set_zip_rightD)

lemma length_set_unset [simp]: "length (set_unset v ps ws) = min (length ps) (length ws)"
  by (simp add: set_unset_def)

lemma add_to_first_unset_length [simp]:
  "length (add_to_first_unset rest ps ws) = length ws"
  by (induction rest ps ws rule: add_to_first_unset.induct) auto

lemma add_to_first_unset_sum:
  assumes "length ps = length ws" and "unset ps \<noteq> []" and "0 \<le> rest"
    and "\<forall>w \<in> set ws. 0 \<le> w \<and> w + rest < 2 ^ 63"
  shows "sum_list (add_to_first_unset rest ps ws) = sum_list ws + rest \<and>
    (\<forall>w \<in> set (add_to_first_unset rest ps ws). 0 \<le> w)"
  using assms
proof (induction ps ws rule: list_induct2)
  case (Cons p ps w ws)
  have wrap: "wrap64 (w + rest) = w + rest" using Cons.prems by (intro wrap64_add) auto
  show ?case
  proof (cases "mWeight (pwMeta p) = 0")
    case True
    then show ?thesis using wrap Cons.prems by simp
  next
    case False
    then show ?thesis using Cons by (simp add: unset_def)
  qed
qed (simp add: unset_def)

lemma equal_shares_sum:
  assumes "(ps :: 'a list) \<noteq> []"
  defines "n \<equiv> int (length ps)"
  shows "sum_list (case map (\<lambda>_. 100 div n) ps of [] \<Rightarrow> [] | w # ws \<Rightarrow> (w + 100 mod n) # ws) = 100 \<and>
    (\<forall>w \<in> set (case map (\<lambda>_. 100 div n) ps of [] \<Rightarrow> [] | w # ws \<Rightarrow> (w + 100 mod n) # ws). 0 \<le> w)"
proof -
  have n: "0 < n" using assms by simp
  have "sum_list (map (\<lambda>_. c) xs) = c * int (length xs)" for c :: int and xs :: "'a list"
    by (induction xs) (simp_all add: algebra_simps)
  moreover obtain p qs where ps: "ps = p # qs" using assms(1) by (cases ps) auto
  ultimately have "sum_list (case map (\<lambda>_. 100 div n) ps of [] \<Rightarrow> [] | w # ws \<Rightarrow> (w + 100 mod n) # ws)
      = 100 div n * n + 100 mod n"
    by (simp add: n_def algebra_simps)
  then show ?thesis using n ps by (auto simp: pos_imp_zdiv_nonneg_iff)
qed

text \<open>The remainder shared out among the providers without a weight brings the total to 100.\<close>

lemma shared_remainder:
  fixes ps :: "'c provider_with_meta list"
  assumes le: "\<forall>p \<in> set ps. 0 \<le> mWeight (pwMeta p) \<and> mWeight (pwMeta p) \<le> 100"
    and unset: "unset ps \<noteq> []" and room: "sum_list (map explicit_weight ps) < 100"
  defines "k \<equiv> int (length (unset ps))" and "rest \<equiv> 100 - sum_list (map explicit_weight ps)"
  defines "ws \<equiv> set_unset (rest div k) ps (map explicit_weight ps)"
  defines "out \<equiv> (if 0 < rest mod k then add_to_first_unset (rest mod k) ps ws else ws)"
  shows "length out = length ps \<and> sum_list out = 100 \<and> (\<forall>w \<in> set out. 0 \<le> w)"
proof -
  have pos: "\<forall>p \<in> set ps. 0 \<le> mWeight (pwMeta p)" using le by auto
  have k: "0 < k" using unset by (simp add: k_def)
  have rest: "0 \<le> rest" "rest \<le> 100"
    using room explicit_sum_bound [OF le] by (auto simp: rest_def)
  have q: "0 \<le> rest div k" "0 \<le> rest mod k" "rest div k \<le> 100" "rest mod k \<le> 100"
    using rest k zdiv_mono2 [of rest 1 k] zmod_le_nonneg_dividend [of rest k]
    by (auto simp: pos_imp_zdiv_nonneg_iff)
  have ws: "\<forall>w \<in> set ws. 0 \<le> w \<and> w + rest mod k < 2 ^ 63"
  proof
    fix w assume "w \<in> set ws"
    then have "w = rest div k \<or> w \<in> explicit_weight ` set ps"
      unfolding ws_def by (rule set_unset_elem)
    then have "0 \<le> w \<and> w \<le> 100" using q le by (auto simp: explicit_weight_def)
    then show "0 \<le> w \<and> w + rest mod k < 2 ^ 63" using q by simp
  qed
  have "sum_list ws = rest div k * k + sum_list (map explicit_weight ps)"
    unfolding ws_def k_def by (rule set_unset_sum [OF pos])
  then have sum: "sum_list ws + rest mod k = 100"
    using div_mult_mod_eq [of rest k] by (simp add: rest_def)
  have len: "length ws = length ps" by (simp add: ws_def)
  show ?thesis
    using add_to_first_unset_sum [of ps ws "rest mod k"] len unset q(2) ws sum
    by (auto simp: out_def)
qed

text \<open>The total of the explicit weights, and what they leave of 100, do not wrap around.\<close>

lemma explicit_total:
  fixes ps :: "'c provider_with_meta list"
  assumes "weights_in_range ps"
  defines "e \<equiv> sum_list (map explicit_weight ps)"
  shows "foldl (\<lambda>s p. if 0 < mWeight (pwMeta p) then wrap64 (s + mWeight (pwMeta p)) else s) 0 ps = e"
    and "wrap64 (100 - e) = 100 - e"
proof -
  have le: "\<forall>p \<in> set ps. 0 \<le> mWeight (pwMeta p) \<and> mWeight (pwMeta p) \<le> 100" and len: "length ps < 2 ^ 32"
    using assms(1) by (auto simp: weights_in_range_def)
  have e: "0 \<le> e" "e \<le> 100 * int (length ps)" using explicit_sum_bound [OF le] by (auto simp: e_def)
  then show "foldl (\<lambda>s p. if 0 < mWeight (pwMeta p) then wrap64 (s + mWeight (pwMeta p)) else s) 0 ps = e"
    using totalExplicit_sum [of 0 ps] len by (simp add: e_def)
  show "wrap64 (100 - e) = 100 - e" using e len by (intro wrap64_id) auto
qed

text \<open>Some weights are given and some are not: one each beyond 100, or a share of what is left.\<close>

lemma partial_weights:
  fixes ps :: "'c provider_with_meta list"
  assumes "weights_in_range ps" and u: "unset ps \<noteq> []" and some: "filter (\<lambda>p. 0 < mWeight (pwMeta p)) ps \<noteq> []"
  defines "e \<equiv> sum_list (map explicit_weight ps)"
  shows "length (calculateEffectiveWeights ps) = length ps \<and> (\<forall>w \<in> set (calculateEffectiveWeights ps). 0 \<le> w) \<and>
    sum_list (calculateEffectiveWeights ps) = (if 100 \<le> e then e + int (length (unset ps)) else 100)"
proof -
  have le: "\<forall>p \<in> set ps. 0 \<le> mWeight (pwMeta p) \<and> mWeight (pwMeta p) \<le> 100"
    and pos: "\<forall>p \<in> set ps. 0 \<le> mWeight (pwMeta p)" using assms(1) by (auto simp: weights_in_range_def)
  note n = count_unset [OF pos]
  have part: "int (length (filter (\<lambda>p. 0 < mWeight (pwMeta p)) ps)) \<noteq> int (length ps)" using n u by auto
  note calc = calculateEffectiveWeights_def [of ps] Let_def explicit_total [OF assms(1)] n
  show ?thesis
  proof (cases "100 \<le> e")
    case True
    then have "calculateEffectiveWeights ps = set_unset 1 ps (map explicit_weight ps)"
      using some part by (simp add: calc e_def)
    then show ?thesis
      using True set_unset_sum [OF pos, of 1] by (auto simp: e_def explicit_weight_def dest: set_unset_elem)
  next
    case False
    have "calculateEffectiveWeights ps =
        (let ws = set_unset ((100 - e) div int (length (unset ps))) ps (map explicit_weight ps)
         in if 0 < (100 - e) mod int (length (unset ps))
            then add_to_first_unset ((100 - e) mod int (length (unset ps))) ps ws else ws)"
      using some part False by (simp add: calc e_def)
    with shared_remainder [OF le u, folded e_def] False show ?thesis by (simp add: Let_def)
  qed
qed

text \<open>
  C35: the effective weights. For a non-empty list with weights from 0 (unset) to 100, there is one
  effective weight per provider, every one is non-negative, and their total is: the sum of the given
  weights where all are given; 100 where none is, or where the given ones leave a remainder to share;
  and the given sum plus one for each provider without a weight where the given ones already reach 100.
  (The comments of the configuration give an unset weight the default 50, which is another total.)
\<close>

theorem effective_weights_total:
  fixes ps :: "'c provider_with_meta list"
  assumes "ps \<noteq> []" and "weights_in_range ps"
  shows "length (calculateEffectiveWeights ps) = length ps \<and>
    (\<forall>w \<in> set (calculateEffectiveWeights ps). 0 \<le> w) \<and>
    sum_list (calculateEffectiveWeights ps) =
      (let given = sum_list (map (\<lambda>p. mWeight (pwMeta p)) ps) in
       if unset ps = [] \<or> 100 \<le> given then given + int (length (unset ps)) else 100)"
proof -
  let ?c = "int (length (filter (\<lambda>p. 0 < mWeight (pwMeta p)) ps))"
  have pos: "\<forall>p \<in> set ps. 0 \<le> mWeight (pwMeta p)" using assms(2) by (auto simp: weights_in_range_def)
  have given: "map (\<lambda>p. mWeight (pwMeta p)) ps = map explicit_weight ps"
    using pos by (auto simp: explicit_weight_def)
  note calc = calculateEffectiveWeights_def [of ps] Let_def explicit_total [OF assms(2)]
  consider (none) "?c = 0" | (all) "?c = int (length ps)" "?c \<noteq> 0" | (part) "?c \<noteq> 0" "unset ps \<noteq> []"
    using count_unset [OF pos] by force
  then show ?thesis
  proof cases
    case none
    then have zero: "sum_list (map explicit_weight ps) = 0" "unset ps = ps"
      using pos by (induction ps) (auto simp: explicit_weight_def unset_def split: if_splits)
    from equal_shares_sum [OF assms(1)] none assms(1) zero show ?thesis
      by (simp add: calc given split: list.split) (auto split: list.split)
  next
    case all
    then have "calculateEffectiveWeights ps = map explicit_weight ps" "unset ps = []"
      using count_unset [OF pos] by (simp_all add: calc)
    then show ?thesis by (auto simp: given explicit_weight_def)
  next
    case part
    then show ?thesis using partial_weights [OF assms(2) part(2)] by (auto simp: given)
  qed
qed

definition demo_provider :: "provider \<Rightarrow> int \<Rightarrow> unit provider_with_meta" where
  "demo_provider name weight =
     \<lparr>pwClient = (), pwMeta = \<lparr>mProvider = name, mIsActive = True, mWeight = weight\<rparr>\<rparr>"

theorem effective_weights_total_witness:
  "sum_list (calculateEffectiveWeights [demo_provider ''stripe'' 30, demo_provider ''mock_card'' 0]) = 100"
proof -
  let ?ps = "[demo_provider ''stripe'' 30, demo_provider ''mock_card'' 0]"
  have "?ps \<noteq> []" "weights_in_range ?ps" by (simp_all add: weights_in_range_def demo_provider_def)
  from effective_weights_total [OF this] show ?thesis
    by (simp add: Let_def unset_def demo_provider_def)
qed

section \<open>Stability\<close>

text \<open>Ten successes of one provider, and nothing known of the others.\<close>

definition demo_tracker :: success_tracker where
  "demo_tracker =
     [stats_key ''card'' ''c'' \<mapsto> \<lparr>sSuccessCount = 10, sFailCount = 0, sLastUpdated = 0\<rparr>]"

lemma selectBySuccessRate_sorted_witness:
  "GetSuccessRate ''card'' ''c'' demo_tracker \<le> 1 \<and>
   enough 10 ''card'' demo_tracker (selectBySuccessRate 10 ''card'' demo_tracker
     [demo_provider ''a'' 0, demo_provider ''c'' 0] ! 0)"
proof -
  let ?out = "selectBySuccessRate 10 ''card'' demo_tracker [demo_provider ''a'' 0, demo_provider ''c'' 0]"
  have "mset ?out = mset [demo_provider ''a'' 0, demo_provider ''c'' 0]"
    by (rule success_based.select_perm) simp
  then have c: "demo_provider ''c'' 0 \<in> set ?out" "length ?out = 2"
    by (metis list.set_intros(1) list.set_intros(2) set_mset_mset)
      (metis success_based.select_length One_nat_def Suc_1 length_Cons list.size(3))
  have e: "enough 10 ''card'' demo_tracker (demo_provider ''c'' 0)"
    by (simp add: enough_def GetStats_def demo_tracker_def demo_provider_def wrap64_def)
  obtain x y where out: "?out = [x, y]"
    using c(2) by (auto simp: length_Suc_conv numeral_2_eq_2)
  have "enough 10 ''card'' demo_tracker y \<longrightarrow> enough 10 ''card'' demo_tracker x"
    using selectBySuccessRate_sorted [of 10 "''card''" demo_tracker
        "[demo_provider ''a'' 0, demo_provider ''c'' 0]"] unfolding out by simp
  with c(1) e have "enough 10 ''card'' demo_tracker x" unfolding out by auto
  moreover have "GetSuccessRate ''card'' ''c'' demo_tracker \<le> 1"
  proof -
    have "(rnd64 10 / rnd64 10 :: rat) = 1" using f64.rnd_exact [of 10] by simp
    then show ?thesis
      by (simp add: GetSuccessRate_def demo_tracker_def wrap64_def fdiv_def float64_of_int_def f64.rnd_one)
  qed
  ultimately show ?thesis unfolding out by simp
qed

text \<open>
  The sort is not stable, although the code's comments say that it is and that providers without
  enough samples keep their order: exchanging \<open>a\<close> with the proven provider \<open>c\<close> puts \<open>a\<close> behind \<open>b\<close>,
  with which it was never compared unfavourably. (Where no provider has enough samples the order
  does stand.)
\<close>

lemma selectBySuccessRate_not_stable:
  "map (\<lambda>p. mProvider (pwMeta p)) (selectBySuccessRate 10 ''card'' demo_tracker
      [demo_provider ''a'' 0, demo_provider ''b'' 0, demo_provider ''c'' 0]) = [''c'', ''b'', ''a''] \<and>
   \<not> enough 10 ''card'' demo_tracker (demo_provider ''a'' 0) \<and>
   \<not> enough 10 ''card'' demo_tracker (demo_provider ''b'' 0)"
  by (simp add: selectBySuccessRate_def success_step_def enough_def GetStats_def demo_tracker_def
      demo_provider_def stats_key_def swap_at_def upt_rec wrap64_def Let_def)

section \<open>SelectProviders\<close>

text \<open>What \<open>math/rand\<close> documents of \<open>Intn\<close>.\<close>

definition Intn_ok :: "(int \<Rightarrow> 'p \<Rightarrow> int \<times> 'p) \<Rightarrow> bool" where
  "Intn_ok rand_Intn \<longleftrightarrow>
     (\<forall>n w. 0 < n \<longrightarrow> 0 \<le> fst (rand_Intn n w) \<and> fst (rand_Intn n w) < n)"

lemma calculateEffectiveWeights_length:
  "length (calculateEffectiveWeights ps) = length ps"
  by (cases ps) (simp_all add: calculateEffectiveWeights_def Let_def)

lemma selectByWeight_front:
  assumes "Intn_ok rand_Intn" and "ps \<noteq> []"
  obtains k where "k < length ps" and "fst (selectByWeight rand_Intn ps w) = move_to_front k ps"
proof -
  let ?ws = "calculateEffectiveWeights ps"
  let ?b = "intn_bound ?ws (total_weight ?ws)"
  obtain r w' where r: "rand_Intn ?b w = (r, w')" by (cases "rand_Intn ?b w")
  have ne: "?ws \<noteq> []" using assms(2) calculateEffectiveWeights_length [of ps] by fastforce
  then have "0 < ?b" by (simp add: intn_bound_def)
  with assms(1) r have "0 \<le> r" "r < ?b" unfolding Intn_ok_def by (metis fst_conv)+
  from weightedRandomIndex_in_range [OF ne this]
  have "weightedRandomIndex ?ws (total_weight ?ws) r < length ps"
    by (simp add: calculateEffectiveWeights_length)
  then show thesis
    by (rule that) (simp add: selectByWeight_def assms(2) Let_def r)
qed

lemma SelectProviders_answer:
  assumes "Intn_ok rand_Intn"
  shows "case fst (SelectProviders rand_Intn rt t rl algo w) of
      Inl e \<Rightarrow> e = ErrNoProviders \<and> GetProviders rl (rtRegistry rt) = []
    | Inr ps \<Rightarrow> mset ps = mset (GetProviders rl (rtRegistry rt)) \<and> ps \<noteq> []"
proof (cases "GetProviders rl (rtRegistry rt) = []")
  case False
  let ?g = "GetProviders rl (rtRegistry rt)"
  obtain k where k: "k < length ?g" "fst (selectByWeight rand_Intn ?g w) = move_to_front k ?g"
    using selectByWeight_front [OF assms False] .
  have "mset (move_to_front k ?g) = mset ?g" by (rule weighted.select_perm [OF k(1)])
  moreover have "mset (selectBySuccessRate (rtMinSamples rt) rl t ?g) = mset ?g"
    by (rule success_based.select_perm) simp
  moreover have "move_to_front k ?g \<noteq> []" by (simp add: move_to_front_eq)
  moreover have "selectBySuccessRate (rtMinSamples rt) rl t ?g \<noteq> []"
    by (rule success_based.select_nonempty) (simp_all add: False)
  ultimately show ?thesis
    using False k(2) by (auto simp: SelectProviders_def Let_def split: prod.split)
qed (simp add: SelectProviders_def)

text \<open>
  C37: routing neither loses, adds nor duplicates a provider. If \<open>SelectProviders\<close> answers, then the
  answer is a rearrangement of exactly the active providers registered for the rail, under every
  algorithm; it fails only where there is none.
\<close>

theorem SelectProviders_permutation:
  assumes "Intn_ok rand_Intn"
  shows "case fst (SelectProviders rand_Intn rt t rl algo w) of
      Inl e \<Rightarrow> e = ErrNoProviders \<and> GetProviders rl (rtRegistry rt) = []
    | Inr ps \<Rightarrow> mset ps = mset (GetProviders rl (rtRegistry rt)) \<and> ps \<noteq> []"
  by (rule SelectProviders_answer [OF assms])

definition demo_registry :: "unit registry" where
  "demo_registry = [(''card'', [demo_provider ''a'' 0, demo_provider ''b'' 0])]"

theorem SelectProviders_permutation_witness:
  "case fst (SelectProviders (\<lambda>n w. (0, w)) \<lparr>rtRegistry = demo_registry, rtMinSamples = 10\<rparr>
      NewSuccessTracker ''card'' RoutingWeighted ()) of
     Inl e \<Rightarrow> e = ErrNoProviders \<and> GetProviders ''card'' demo_registry = []
   | Inr ps \<Rightarrow> mset ps = mset (GetProviders ''card'' demo_registry) \<and> ps \<noteq> []"
proof -
  have "Intn_ok (\<lambda>n w. (0, w :: unit))" by (simp add: Intn_ok_def)
  from SelectProviders_permutation [OF this,
      where rt = "\<lparr>rtRegistry = demo_registry, rtMinSamples = 10\<rparr>" and t = NewSuccessTracker
        and rl = "''card''" and algo = RoutingWeighted and w = "()"]
  show ?thesis by (simp only: router.simps)
qed

end
