(* ===== verification/Orchestrator.thy ===== *)
theory Orchestrator
  imports RouterFacts
begin

text \<open>
  \<open>services/orchestrator/internal/provider/orchestrator.go\<close>: sending a payout through the providers
  that routing selects, falling back to the next one on a retryable failure, and cancelling with the
  provider that was used. The clients, the clock, the random source and the order in which Go visits
  a map are a record of functions on the state \<open>'p\<close> of the outside world.
\<close>

section \<open>State\<close>

record ('c, 'p) rails_env =
  reSendPayout :: "'c \<Rightarrow> payout \<Rightarrow> 'p \<Rightarrow> string result \<times> 'p"
  reCancelPayout :: "'c \<Rightarrow> payout \<Rightarrow> 'p \<Rightarrow> go_error option \<times> 'p"
  reIntn :: "int \<Rightarrow> 'p \<Rightarrow> int \<times> 'p"
  reNow :: "'p \<Rightarrow> go_time \<times> 'p"
  reMapOrder :: "rail list \<Rightarrow> 'p \<Rightarrow> rail list \<times> 'p"

text \<open>The orchestrator's fields that do not change, and the state it shares with the world.\<close>

record 'c orchestrator =
  orRegistry :: "'c registry"
  orRouter :: "'c router"
  orRoutingAlgo :: routing_algorithm

definition NewOrchestrator :: "'c registry \<Rightarrow> 'c router \<Rightarrow> routing_algorithm \<Rightarrow> 'c orchestrator" where
  "NewOrchestrator registry router routingAlgo =
     \<lparr>orRegistry = registry, orRouter = router, orRoutingAlgo = routingAlgo\<rparr>"

record 'p orch_state =
  osTracker :: success_tracker
  osRails :: 'p

record send_payout_result =
  srExternalID :: string
  srUsedProvider :: provider
  srTriedProviders :: "provider list"
  srSuccess :: bool

definition empty_result :: send_payout_result where
  "empty_result = \<lparr>srExternalID = [], srUsedProvider = [], srTriedProviders = [], srSuccess = False\<rparr>"

section \<open>Sending with fallback\<close>

definition isRetryable :: "go_error \<Rightarrow> bool" where
  "isRetryable err = (case errors_As_Retryable err of Some b \<Rightarrow> b | None \<Rightarrow> True)"

text \<open>The loop over the selected providers; \<open>break\<close> and \<open>return\<close> end it.\<close>

fun fallback_loop ::
    "('c, 'p) rails_env \<Rightarrow> payout \<Rightarrow> 'c provider_with_meta list \<Rightarrow> send_payout_result \<Rightarrow>
     'p orch_state \<Rightarrow> send_payout_result \<times> 'p orch_state" where
  "fallback_loop R payout [] result st = (result, st)"
| "fallback_loop R payout (p # ps) result st =
     (let providerName = mProvider (pwMeta p);
          result = result\<lparr>srTriedProviders := srTriedProviders result @ [providerName]\<rparr>
      in case reSendPayout R (pwClient p) payout (osRails st) of
           (Inr extID, w1) \<Rightarrow>
             (case reNow R w1 of (now, w2) \<Rightarrow>
               (result\<lparr>srExternalID := extID, srUsedProvider := providerName, srSuccess := True\<rparr>,
                \<lparr>osTracker = RecordSuccess (pRail payout) providerName now (osTracker st),
                 osRails = w2\<rparr>))
         | (Inl err, w1) \<Rightarrow>
             (case reNow R w1 of (now, w2) \<Rightarrow>
               let st' = \<lparr>osTracker = RecordFailure (pRail payout) providerName now (osTracker st),
                          osRails = w2\<rparr>
               in if \<not> isRetryable err then (result, st')
                  else fallback_loop R payout ps result st'))"

definition SendPayoutWithFallback ::
    "('c, 'p) rails_env \<Rightarrow> 'c orchestrator \<Rightarrow> payout \<Rightarrow> 'p orch_state \<Rightarrow>
     send_payout_result \<times> 'p orch_state" where
  "SendPayoutWithFallback R orc payout st =
     (case SelectProviders (reIntn R) (orRouter orc) (osTracker st) (pRail payout) (orRoutingAlgo orc)
            (osRails st) of
        (Inl err, w) \<Rightarrow> (empty_result, st\<lparr>osRails := w\<rparr>)
      | (Inr providers, w) \<Rightarrow> fallback_loop R payout providers empty_result (st\<lparr>osRails := w\<rparr>))"

section \<open>Cancelling with the provider\<close>

definition Orchestrator_CancelPayout ::
    "('c, 'p) rails_env \<Rightarrow> 'c orchestrator \<Rightarrow> payout \<Rightarrow> 'p orch_state \<Rightarrow>
     go_error option \<times> 'p orch_state" where
  "Orchestrator_CancelPayout R orc payout st =
     (case reMapOrder R (map fst (orRegistry orc)) (osRails st) of (order, w) \<Rightarrow>
        (case GetByProvider order (pProvider payout) (orRegistry orc) of
           Inl err \<Rightarrow> (Some err, st\<lparr>osRails := w\<rparr>)
         | Inr client \<Rightarrow>
             (case reCancelPayout R client payout w of (err, w') \<Rightarrow> (err, st\<lparr>osRails := w'\<rparr>))))"

section \<open>The attempts that are made\<close>

text \<open>
  The log of one call: the providers that are asked, in order, with their answers and the times at
  which the outcomes are recorded. The next provider is asked after a retryable failure only.
\<close>

fun attempt_log ::
    "('c, 'p) rails_env \<Rightarrow> payout \<Rightarrow> 'c provider_with_meta list \<Rightarrow> 'p \<Rightarrow>
     (provider \<times> string result \<times> go_time) list" where
  "attempt_log R payout [] w = []"
| "attempt_log R payout (p # ps) w =
     (case reSendPayout R (pwClient p) payout w of (res, w1) \<Rightarrow>
      case reNow R w1 of (now, w2) \<Rightarrow>
        (mProvider (pwMeta p), res, now) #
        (case res of
           Inr _ \<Rightarrow> []
         | Inl err \<Rightarrow> if isRetryable err then attempt_log R payout ps w2 else []))"

definition retryable_failure :: "string result \<Rightarrow> bool" where
  "retryable_failure res = (case res of Inr _ \<Rightarrow> False | Inl err \<Rightarrow> isRetryable err)"

definition log_outcome :: "rail \<Rightarrow> provider \<times> string result \<times> go_time \<Rightarrow> outcome" where
  "log_outcome rl = (\<lambda>(p, res, now).
     \<lparr>oRail = rl, oProvider = p, oOk = (case res of Inr _ \<Rightarrow> True | Inl _ \<Rightarrow> False), oAt = now\<rparr>)"

text \<open>What the log says the result must be.\<close>

definition result_of_log ::
    "(provider \<times> string result \<times> go_time) list \<Rightarrow> send_payout_result" where
  "result_of_log l =
     (if l = [] then empty_result
      else case last l of
        (p, Inr extID, _) \<Rightarrow> \<lparr>srExternalID = extID, srUsedProvider = p,
                              srTriedProviders = map fst l, srSuccess = True\<rparr>
      | (p, Inl err, _) \<Rightarrow> empty_result\<lparr>srTriedProviders := map fst l\<rparr>)"

lemma attempt_log_shape:
  "map fst (attempt_log R payout ps w) =
     take (length (attempt_log R payout ps w)) (map (\<lambda>p. mProvider (pwMeta p)) ps) \<and>
   (\<forall>a \<in> set (butlast (attempt_log R payout ps w)). retryable_failure (fst (snd a))) \<and>
   (length (attempt_log R payout ps w) < length ps \<longrightarrow> attempt_log R payout ps w \<noteq> [] \<and>
      \<not> retryable_failure (fst (snd (last (attempt_log R payout ps w)))))"
proof (induction ps arbitrary: w)
  case (Cons p ps)
  obtain res w1 where res: "reSendPayout R (pwClient p) payout w = (res, w1)"
    by (cases "reSendPayout R (pwClient p) payout w")
  obtain now w2 where now: "reNow R w1 = (now, w2)" by (cases "reNow R w1")
  show ?case
    using Cons.IH [of w2] by (cases res) (auto simp: res now retryable_failure_def)
qed simp

lemma fallback_loop_result:
  assumes "srSuccess result = False" and "srExternalID result = []" and "srUsedProvider result = []"
  shows "fst (fallback_loop R payout ps result st) =
      (result_of_log (attempt_log R payout ps (osRails st)))
        \<lparr>srTriedProviders := srTriedProviders result @ map fst (attempt_log R payout ps (osRails st))\<rparr>"
  using assms
proof (induction ps arbitrary: result st)
  case Nil
  then show ?case by (cases result) (simp add: result_of_log_def empty_result_def)
next
  case (Cons p ps result st)
  obtain res w1 where send: "reSendPayout R (pwClient p) payout (osRails st) = (res, w1)"
    by (cases "reSendPayout R (pwClient p) payout (osRails st)")
  obtain now w2 where now: "reNow R w1 = (now, w2)" by (cases "reNow R w1")
  from Cons.prems obtain tried where result: "result = empty_result\<lparr>srTriedProviders := tried\<rparr>"
    by (cases result) (auto simp: empty_result_def)
  show ?case
  proof (cases res)
    case (Inl err)
    define st' where "st' = \<lparr>osTracker = RecordFailure (pRail payout) (mProvider (pwMeta p)) now
        (osTracker st), osRails = w2\<rparr>"
    define l where "l = attempt_log R payout ps w2"
    show ?thesis
    proof (cases "isRetryable err")
      case True
      have "fst (fallback_loop R payout (p # ps) result st) = fst (fallback_loop R payout ps
          (empty_result\<lparr>srTriedProviders := tried @ [mProvider (pwMeta p)]\<rparr>) st')"
        by (simp add: send now Inl True result st'_def empty_result_def Let_def)
      also have "\<dots> = (result_of_log l)
          \<lparr>srTriedProviders := (tried @ [mProvider (pwMeta p)]) @ map fst l\<rparr>"
        by (subst Cons.IH) (simp_all add: empty_result_def st'_def l_def)
      also have "\<dots> = (result_of_log ((mProvider (pwMeta p), res, now) # l))
          \<lparr>srTriedProviders := tried @ map fst ((mProvider (pwMeta p), res, now) # l)\<rparr>"
        using Inl by (cases "l = []")
          (auto simp: result_of_log_def empty_result_def split: prod.split sum.split)
      finally show ?thesis
        by (simp add: send now Inl True result l_def empty_result_def)
    qed (simp add: send now Inl result result_of_log_def empty_result_def Let_def)
  qed (simp add: send now result result_of_log_def empty_result_def Let_def)
qed

lemma fallback_loop_tracker:
  "osTracker (snd (fallback_loop R payout ps result st)) =
     fold record_outcome (map (log_outcome (pRail payout)) (attempt_log R payout ps (osRails st)))
       (osTracker st)"
proof (induction ps arbitrary: result st)
  case (Cons p ps result st)
  obtain res w1 where send: "reSendPayout R (pwClient p) payout (osRails st) = (res, w1)"
    by (cases "reSendPayout R (pwClient p) payout (osRails st)")
  obtain now w2 where now: "reNow R w1 = (now, w2)" by (cases "reNow R w1")
  show ?case
    using Cons.IH by (cases res) (simp_all add: send now log_outcome_def record_outcome_def Let_def)
qed simp

section \<open>Sending reports what happened\<close>

text \<open>The providers that routing selects, in order, and the world after the selection.\<close>

definition routed ::
    "('c, 'p) rails_env \<Rightarrow> 'c orchestrator \<Rightarrow> payout \<Rightarrow> 'p orch_state \<Rightarrow>
     'c provider_with_meta list \<times> 'p" where
  "routed R orc payout st =
     (case SelectProviders (reIntn R) (orRouter orc) (osTracker st) (pRail payout) (orRoutingAlgo orc)
            (osRails st) of
        (Inl err, w) \<Rightarrow> ([], w)
      | (Inr ps, w) \<Rightarrow> (ps, w))"

definition attempts ::
    "('c, 'p) rails_env \<Rightarrow> 'c orchestrator \<Rightarrow> payout \<Rightarrow> 'p orch_state \<Rightarrow>
     (provider \<times> string result \<times> go_time) list" where
  "attempts R orc payout st = (case routed R orc payout st of (ps, w) \<Rightarrow> attempt_log R payout ps w)"

lemma SendPayoutWithFallback_loop:
  "SendPayoutWithFallback R orc payout st =
     fallback_loop R payout (fst (routed R orc payout st)) empty_result
       (st\<lparr>osRails := snd (routed R orc payout st)\<rparr>)"
  by (simp add: SendPayoutWithFallback_def routed_def split: prod.split sum.split)

lemma SendPayoutWithFallback_result:
  "fst (SendPayoutWithFallback R orc payout st) = result_of_log (attempts R orc payout st)"
proof -
  have "(result_of_log l)\<lparr>srTriedProviders := [] @ map fst l\<rparr> = result_of_log l" for l
    by (simp add: result_of_log_def empty_result_def split: prod.split sum.split)
  then show ?thesis
    by (simp add: SendPayoutWithFallback_loop fallback_loop_result attempts_def split_beta
        empty_result_def)
qed

lemma SendPayoutWithFallback_tracker:
  "osTracker (snd (SendPayoutWithFallback R orc payout st)) =
     fold record_outcome (map (log_outcome (pRail payout)) (attempts R orc payout st)) (osTracker st)"
  by (simp add: SendPayoutWithFallback_loop fallback_loop_tracker attempts_def split_beta)

lemma SendPayoutWithFallback_shape:
  fixes R :: "('c, 'p) rails_env"
  shows "srTriedProviders (fst (SendPayoutWithFallback R orc payout st)) =
      take (length (attempts R orc payout st)) (map (\<lambda>p. mProvider (pwMeta p)) (fst (routed R orc payout st)))"
    and "\<forall>a \<in> set (butlast (attempts R orc payout st)). retryable_failure (fst (snd a))"
    and "length (attempts R orc payout st) < length (map (\<lambda>p. mProvider (pwMeta p)) (fst (routed R orc payout st))) \<Longrightarrow>
      attempts R orc payout st \<noteq> [] \<and>
      \<not> retryable_failure (fst (snd (last (attempts R orc payout st))))"
proof -
  let ?ps = "fst (routed R orc payout st)" and ?w = "snd (routed R orc payout st)"
  have tried: "srTriedProviders (result_of_log l) = map fst l" for l
    by (simp add: result_of_log_def empty_result_def split: prod.split sum.split)
  have l: "attempts R orc payout st = attempt_log R payout ?ps ?w"
    by (simp add: attempts_def split_beta)
  note shape = attempt_log_shape [of R payout ?ps ?w, folded l]
  show "srTriedProviders (fst (SendPayoutWithFallback R orc payout st)) =
      take (length (attempts R orc payout st)) (map (\<lambda>p. mProvider (pwMeta p)) ?ps)"
    using shape by (simp add: SendPayoutWithFallback_result tried)
  show "\<forall>a \<in> set (butlast (attempts R orc payout st)). retryable_failure (fst (snd a))"
    using shape by blast
  show "length (attempts R orc payout st) < length (map (\<lambda>p. mProvider (pwMeta p)) ?ps) \<Longrightarrow>
      attempts R orc payout st \<noteq> [] \<and> \<not> retryable_failure (fst (snd (last (attempts R orc payout st))))"
    using shape by simp
qed

text \<open>
  C10: sending reports what happened. The result of \<open>SendPayoutWithFallback\<close> and the tracker's new
  counts are those of the attempts that were made: the providers asked are a prefix of the routed
  ones, every attempt but the last failed with a retryable error, and where providers are left
  unasked the last attempt succeeded or failed for good.
\<close>

theorem SendPayoutWithFallback_attempts:
  "let l = attempts R orc payout st;
       names = map (\<lambda>p. mProvider (pwMeta p)) (fst (routed R orc payout st));
       out = SendPayoutWithFallback R orc payout st
   in fst out = result_of_log l \<and>
      osTracker (snd out) = fold record_outcome (map (log_outcome (pRail payout)) l) (osTracker st) \<and>
      srTriedProviders (fst out) = take (length l) names \<and>
      (\<forall>a \<in> set (butlast l). retryable_failure (fst (snd a))) \<and>
      (length l < length names \<longrightarrow> l \<noteq> [] \<and> \<not> retryable_failure (fst (snd (last l))))"
  using SendPayoutWithFallback_shape [of R orc payout st]
  by (simp add: Let_def SendPayoutWithFallback_result SendPayoutWithFallback_tracker)

section \<open>Clients that answer alike every time\<close>

text \<open>
  The declarative reading: if what a client answers depends on the client and the payout only, then
  the first routed provider that succeeds is used, unless one before it fails for good.
\<close>

definition stops :: "(payout \<Rightarrow> 'c \<Rightarrow> string result) \<Rightarrow> payout \<Rightarrow> 'c provider_with_meta \<Rightarrow> bool" where
  "stops answer payout p \<longleftrightarrow> \<not> retryable_failure (answer payout (pwClient p))"

lemma attempt_log_answers:
  assumes "\<And>c w. fst (reSendPayout R c payout w) = answer payout c"
  shows "map (\<lambda>a. (fst a, fst (snd a))) (attempt_log R payout ps w) =
    map (\<lambda>p. (mProvider (pwMeta p), answer payout (pwClient p)))
      (takeWhile (\<lambda>p. \<not> stops answer payout p) ps @
       (case find (stops answer payout) ps of None \<Rightarrow> [] | Some p \<Rightarrow> [p]))"
proof (induction ps arbitrary: w)
  case (Cons p ps)
  obtain res w1 where res: "reSendPayout R (pwClient p) payout w = (res, w1)"
    by (cases "reSendPayout R (pwClient p) payout w")
  obtain now w2 where now: "reNow R w1 = (now, w2)" by (cases "reNow R w1")
  have ans: "answer payout (pwClient p) = res" using assms [of "pwClient p" w] res by simp
  show ?case
    using Cons.IH [of w2]
    by (cases res) (auto simp: res now ans stops_def retryable_failure_def)
qed simp

text \<open>
  The first provider that succeeds is used. If each client's answer to the payout is fixed,
  sending succeeds exactly if the first routed provider that does not fail with a retryable error
  succeeds, and then its name and its reference are reported; the providers tried are all those up
  to that one, or all where there is none.
\<close>

lemma SendPayoutWithFallback_first:
  assumes "\<And>c w. fst (reSendPayout R c payout w) = answer payout c"
  shows "let ps = fst (routed R orc payout st);
             upto = takeWhile (\<lambda>p. \<not> stops answer payout p) ps
         in fst (SendPayoutWithFallback R orc payout st) =
      (case find (stops answer payout) ps of
         None \<Rightarrow> empty_result\<lparr>srTriedProviders := map (\<lambda>p. mProvider (pwMeta p)) ps\<rparr>
       | Some p \<Rightarrow>
           (case answer payout (pwClient p) of
              Inl e \<Rightarrow> empty_result\<lparr>srTriedProviders := map (\<lambda>p. mProvider (pwMeta p)) (upto @ [p])\<rparr>
            | Inr x \<Rightarrow> \<lparr>srExternalID = x, srUsedProvider = mProvider (pwMeta p),
                srTriedProviders = map (\<lambda>p. mProvider (pwMeta p)) (upto @ [p]), srSuccess = True\<rparr>))"
proof -
  let ?ps = "fst (routed R orc payout st)" and ?w = "snd (routed R orc payout st)"
  let ?l = "attempt_log R payout ?ps ?w"
  let ?upto = "takeWhile (\<lambda>p. \<not> stops answer payout p) ?ps"
  let ?asked = "?upto @ (case find (stops answer payout) ?ps of None \<Rightarrow> [] | Some p \<Rightarrow> [p])"
  have pairs: "map (\<lambda>a. (fst a, fst (snd a))) ?l =
      map (\<lambda>p. (mProvider (pwMeta p), answer payout (pwClient p))) ?asked"
    by (rule attempt_log_answers) (rule assms)
  have names: "map fst ?l = map (\<lambda>p. mProvider (pwMeta p)) ?asked"
    using arg_cong [OF pairs, of "map fst"] by (simp add: comp_def)
  have nil: "?l = [] \<longleftrightarrow> ?asked = []" using arg_cong [OF pairs, of length] by auto
  have fin: "(fst (last ?l), fst (snd (last ?l))) =
      (mProvider (pwMeta (last ?asked)), answer payout (pwClient (last ?asked)))" if "?asked \<noteq> []"
    using arg_cong [OF pairs, of last] that nil by (simp add: last_map del: map_append)
  have all: "find (stops answer payout) ?ps = None \<Longrightarrow> ?upto = ?ps"
    by (auto simp: find_None_iff takeWhile_eq_all_conv)
  have failing: "\<exists>e. answer payout (pwClient (last ?ps)) = Inl e"
    if "find (stops answer payout) ?ps = None" "?ps \<noteq> []"
  proof -
    from that have "\<not> stops answer payout (last ?ps)" by (auto simp: find_None_iff)
    then show ?thesis by (auto simp: stops_def retryable_failure_def split: sum.splits)
  qed
  have res: "fst (SendPayoutWithFallback R orc payout st) = result_of_log ?l"
    by (simp add: SendPayoutWithFallback_result attempts_def split_beta)
  obtain n a t where last: "last ?l = (n, a, t)" by (cases "last ?l")
  show ?thesis
  proof (cases "find (stops answer payout) ?ps")
    case None
    note upto = all [OF None]
    show ?thesis
      using None nil fin failing [OF None] names last unfolding upto
      by (cases "?ps = []") (auto simp: Let_def res result_of_log_def empty_result_def upto)
  next
    case (Some p)
    then show ?thesis
      using nil fin names last
      by (auto simp: Let_def res result_of_log_def empty_result_def split: sum.split)
  qed
qed


text \<open>A card rail whose first provider times out and whose second one takes the payout.\<close>

definition demo_answer :: "payout \<Rightarrow> nat \<Rightarrow> string result" where
  "demo_answer payout c =
     (if c = 0 then Inl (RetryableError True (ErrText ''timeout'')) else Inr ''ext-1'')"

definition demo_rails :: "(nat, unit) rails_env" where
  "demo_rails = \<lparr>reSendPayout = (\<lambda>c payout w. (demo_answer payout c, w)),
     reCancelPayout = (\<lambda>c payout w. (None, w)), reIntn = (\<lambda>n w. (0, w)), reNow = (\<lambda>w. (7, w)),
     reMapOrder = (\<lambda>order w. (order, w))\<rparr>"

definition demo_orchestrator :: "nat orchestrator" where
  "demo_orchestrator =
     (let reg = RegisterWithMeta ''card'' 1 \<lparr>mProvider = ''mock_card'', mIsActive = True, mWeight = 0\<rparr>
           (RegisterWithMeta ''card'' 0 \<lparr>mProvider = ''stripe'', mIsActive = True, mWeight = 0\<rparr>
             NewRegistry)
      in \<lparr>orRegistry = reg, orRouter = \<lparr>rtRegistry = reg, rtMinSamples = 10\<rparr>,
          orRoutingAlgo = RoutingPriority\<rparr>)"

definition demo_payout :: payout where
  "demo_payout = zero_payout\<lparr>pRail := ''card'', pAmountCents := 100\<rparr>"

definition demo_orch_state :: "unit orch_state" where
  "demo_orch_state = \<lparr>osTracker = NewSuccessTracker, osRails = ()\<rparr>"

lemmas demo_defs = demo_answer_def demo_rails_def demo_orchestrator_def demo_payout_def
  demo_orch_state_def zero_payout_def NewRegistry_def NewSuccessTracker_def RegisterWithMeta_def
  registered_def

lemma demo_routed:
  "routed demo_rails demo_orchestrator demo_payout demo_orch_state =
     ([\<lparr>pwClient = 0, pwMeta = \<lparr>mProvider = ''stripe'', mIsActive = True, mWeight = 0\<rparr>\<rparr>,
       \<lparr>pwClient = 1, pwMeta = \<lparr>mProvider = ''mock_card'', mIsActive = True, mWeight = 0\<rparr>\<rparr>], ())"
  by (simp add: routed_def demo_defs SelectProviders_def GetProviders_def Let_def)

lemma demo_attempts:
  "attempts demo_rails demo_orchestrator demo_payout demo_orch_state =
     [(''stripe'', Inl (RetryableError True (ErrText ''timeout'')), 7), (''mock_card'', Inr ''ext-1'', 7)]"
  by (simp add: attempts_def demo_routed) (simp add: demo_rails_def demo_answer_def isRetryable_def)

lemma demo_registered:
  "registered rl (orRegistry demo_orchestrator) =
     (if rl = ''card''
      then [\<lparr>pwClient = 0, pwMeta = \<lparr>mProvider = ''stripe'', mIsActive = True, mWeight = 0\<rparr>\<rparr>,
            \<lparr>pwClient = 1, pwMeta = \<lparr>mProvider = ''mock_card'', mIsActive = True, mWeight = 0\<rparr>\<rparr>]
      else [])"
  by (simp add: demo_defs Let_def)

theorem SendPayoutWithFallback_attempts_witness:
  "srTriedProviders (fst (SendPayoutWithFallback demo_rails demo_orchestrator demo_payout
     demo_orch_state)) = [''stripe'', ''mock_card'']"
proof -
  note sent = SendPayoutWithFallback_attempts [of demo_rails demo_orchestrator demo_payout
      demo_orch_state, unfolded Let_def]
  from conjunct1 [OF conjunct2 [OF conjunct2 [OF sent]]]
  show ?thesis by (simp add: demo_attempts demo_routed)
qed

lemma SendPayoutWithFallback_first_witness:
  "fst (SendPayoutWithFallback demo_rails demo_orchestrator demo_payout demo_orch_state) =
     \<lparr>srExternalID = ''ext-1'', srUsedProvider = ''mock_card'',
      srTriedProviders = [''stripe'', ''mock_card''], srSuccess = True\<rparr>"
proof -
  have "fst (reSendPayout demo_rails c demo_payout w) = demo_answer demo_payout c" for c w
    by (simp add: demo_rails_def)
  from SendPayoutWithFallback_first [where answer = demo_answer, OF this,
      of demo_orchestrator demo_orch_state]
  show ?thesis
    by (simp add: demo_routed Let_def stops_def retryable_failure_def demo_answer_def isRetryable_def)
qed

text \<open>
  Only active providers of the payout's rail are asked, and none more often than it is
  registered there; if every one of them was asked without success, they are all reported.
\<close>

lemma SendPayoutWithFallback_tried:
  assumes "Intn_ok (reIntn R)"
  shows "let names = map (\<lambda>p. mProvider (pwMeta p)) (GetProviders (pRail payout) (rtRegistry (orRouter orc)));
             res = fst (SendPayoutWithFallback R orc payout st)
         in mset (srTriedProviders res) \<subseteq># mset names \<and>
            (srSuccess res \<longrightarrow> srUsedProvider res \<in> set names) \<and>
            ((\<forall>a \<in> set (attempts R orc payout st). retryable_failure (fst (snd a))) \<longrightarrow>
               mset (srTriedProviders res) = mset names)"
proof -
  let ?g = "GetProviders (pRail payout) (rtRegistry (orRouter orc))"
  let ?ps = "fst (routed R orc payout st)" and ?l = "attempts R orc payout st"
  let ?n = "map (\<lambda>p. mProvider (pwMeta p))"
  let ?res = "fst (SendPayoutWithFallback R orc payout st)"
  have perm: "mset ?ps = mset ?g"
    using SelectProviders_answer [OF assms, where rt = "orRouter orc" and t = "osTracker st"
        and rl = "pRail payout" and algo = "orRoutingAlgo orc" and w = "osRails st"]
    by (auto simp: routed_def split: prod.split sum.splits)
  note shape = SendPayoutWithFallback_shape [of R orc payout st]
  have sub: "mset (take k (?n ?ps)) \<subseteq># mset (?n ?ps)" for k
    by (metis append_take_drop_id mset_append mset_subset_eq_add_left)
  have n: "mset (?n ?ps) = mset (?n ?g)" using perm by simp
  have used: "srSuccess ?res \<Longrightarrow> srUsedProvider ?res \<in> set (srTriedProviders ?res)"
    unfolding SendPayoutWithFallback_result
    by (auto simp: result_of_log_def empty_result_def split: prod.splits sum.splits if_splits
        dest!: last_in_set intro: rev_image_eqI)
  have all: "length (?n ?ps) \<le> length ?l"
    if "\<forall>a \<in> set ?l. retryable_failure (fst (snd a))"
    using shape(3) that by (metis last_in_set not_le)
  show ?thesis
    unfolding Let_def
  proof (intro conjI impI)
    show tried: "mset (srTriedProviders ?res) \<subseteq># mset (?n ?g)"
      using sub [of "length ?l"] shape(1) n by simp
    show "srUsedProvider ?res \<in> set (?n ?g)" if "srSuccess ?res"
      using used [OF that] mset_subset_eqD [OF tried] by (metis set_mset_mset)
    show "mset (srTriedProviders ?res) = mset (?n ?g)"
      if "\<forall>a \<in> set ?l. retryable_failure (fst (snd a))"
      using all [OF that] shape(1) n by simp
  qed
qed

lemma demo_providers:
  "map (\<lambda>p. mProvider (pwMeta p))
     (GetProviders (pRail demo_payout) (rtRegistry (orRouter demo_orchestrator))) =
   [''stripe'', ''mock_card'']"
  by (simp add: demo_defs Let_def GetProviders_def)

lemma SendPayoutWithFallback_tried_witness:
  "srUsedProvider (fst (SendPayoutWithFallback demo_rails demo_orchestrator demo_payout
     demo_orch_state)) \<in> {''stripe'', ''mock_card''}"
proof -
  have "Intn_ok (reIntn demo_rails)" by (simp add: Intn_ok_def demo_rails_def)
  from SendPayoutWithFallback_tried [OF this, of demo_payout demo_orchestrator demo_orch_state,
      unfolded Let_def]
  show ?thesis
    by (simp add: SendPayoutWithFallback_result demo_attempts result_of_log_def demo_providers)
qed

section \<open>Cancelling asks the provider that was used\<close>

lemma find_unique:
  assumes "e \<in> set xs" and "P e" and "\<And>x. x \<in> set xs \<Longrightarrow> P x \<Longrightarrow> x = e"
  shows "find P xs = Some e"
proof (cases "find P xs")
  case None
  then show ?thesis using assms(1,2) by (auto simp: find_None_iff)
next
  case (Some x)
  then have "x \<in> set xs" "P x" by (auto simp: find_Some_iff)
  then show ?thesis using Some assms(3) by simp
qed

text \<open>
  Cancelling asks the client of the provider that the payout names, in whatever order Go visits
  the rails, provided one registered entry has that name; with none the answer is an error and no
  client is called.
\<close>

lemma CancelPayout_client:
  assumes "set (fst (reMapOrder R (map fst (orRegistry orc)) (osRails st))) = fst ` set (orRegistry orc)"
    and "\<And>rl e rl' e'. e \<in> set (registered rl (orRegistry orc)) \<Longrightarrow>
      e' \<in> set (registered rl' (orRegistry orc)) \<Longrightarrow> mProvider (pwMeta e) = pProvider payout \<Longrightarrow>
      mProvider (pwMeta e') = pProvider payout \<Longrightarrow> e = e'"
  shows "let w = snd (reMapOrder R (map fst (orRegistry orc)) (osRails st));
             out = Orchestrator_CancelPayout R orc payout st
         in (\<forall>rl. \<forall>e \<in> set (registered rl (orRegistry orc)).
               mProvider (pwMeta e) = pProvider payout \<longrightarrow>
               out = (fst (reCancelPayout R (pwClient e) payout w),
                      st\<lparr>osRails := snd (reCancelPayout R (pwClient e) payout w)\<rparr>)) \<and>
            ((\<forall>rl. \<forall>e \<in> set (registered rl (orRegistry orc)). mProvider (pwMeta e) \<noteq> pProvider payout) \<longrightarrow>
               fst out \<noteq> None \<and> snd out = st\<lparr>osRails := w\<rparr>)"
proof -
  obtain order w where order: "reMapOrder R (map fst (orRegistry orc)) (osRails st) = (order, w)"
    by (cases "reMapOrder R (map fst (orRegistry orc)) (osRails st)")
  let ?all = "concat (map (\<lambda>rl. registered rl (orRegistry orc)) order)"
  have ord: "rl \<in> set order" if "e \<in> set (registered rl (orRegistry orc))" for rl e
  proof -
    from that have "map_of (orRegistry orc) rl \<noteq> None" by (intro notI) (simp add: registered_def)
    then show ?thesis using assms(1) order by (metis fst_conv map_of_eq_None_iff)
  qed
  have hit: "find (\<lambda>e. mProvider (pwMeta e) = pProvider payout) ?all = Some e"
    if "e \<in> set (registered rl (orRegistry orc))" "mProvider (pwMeta e) = pProvider payout" for rl e
    using that ord [OF that(1)] assms(2) by (intro find_unique) auto
  have miss: "find (\<lambda>e. mProvider (pwMeta e) = pProvider payout) ?all = None"
    if "\<forall>rl. \<forall>e \<in> set (registered rl (orRegistry orc)). mProvider (pwMeta e) \<noteq> pProvider payout"
    using that by (auto simp: find_None_iff)
  show ?thesis
    using hit miss
    by (auto simp: Let_def Orchestrator_CancelPayout_def order GetByProvider_def split: prod.split)
qed

lemma CancelPayout_client_witness:
  "Orchestrator_CancelPayout demo_rails demo_orchestrator (demo_payout\<lparr>pProvider := ''stripe''\<rparr>)
     demo_orch_state = (None, demo_orch_state)"
proof -
  let ?p = "demo_payout\<lparr>pProvider := ''stripe''\<rparr>" and ?r = "orRegistry demo_orchestrator"
  have order: "set (fst (reMapOrder demo_rails (map fst ?r) (osRails demo_orch_state))) = fst ` set ?r"
    by (simp add: demo_rails_def)
  have one: "e = e'" if "e \<in> set (registered rl ?r)" "e' \<in> set (registered rl' ?r)"
    "mProvider (pwMeta e) = pProvider ?p" "mProvider (pwMeta e') = pProvider ?p" for rl rl' e e'
    using that by (auto simp: demo_registered split: if_splits)
  have call: "fst (reCancelPayout demo_rails c p w) = None" "snd (reCancelPayout demo_rails c p w) = w"
    for c p w by (simp_all add: demo_rails_def)
  note cancel = CancelPayout_client [of demo_rails demo_orchestrator demo_orch_state ?p, OF order one,
      unfolded Let_def]
  from spec [where x = "''card''", OF conjunct1 [OF cancel]]
  show ?thesis by (simp add: demo_registered call demo_rails_def)
qed

end
