(* ===== verification/Sqlc.thy ===== *)
theory Sqlc
  imports Domain
begin

text \<open>
  The persistence layer's bottom: the two tables as \<open>db/migrations/*.sql\<close> leave them and the seven
  queries of \<open>persistence/sqlcgen/queries.sql.go\<close>, each the meaning of its SQL text. The database
  server itself is not under \<open>src/\<close>; what the queries rely on is a parameter, a record of three
  functions on an abstract server state: \<open>pg_net\<close> decides the fate of the next round trip (a
  connection error before or after the statement took effect, a serialization failure, a time-out),
  \<open>pg_uuid\<close> is \<open>gen_random_uuid()\<close>, \<open>pg_now\<close> is \<open>now()\<close>.
\<close>

section \<open>Rows and tables (sqlcgen/models.go)\<close>

record payout_row =
  rID :: uuid
  rState :: string
  rAmountCents :: int
  rCurrency :: string
  rRail :: string
  rProvider :: "string option"
  rExternalID :: "string option"
  rCreatedAt :: go_time
  rUpdatedAt :: go_time

record key_row =
  ikKey :: string
  ikRequestHash :: string
  ikPayoutID :: uuid
  ikCreatedAt :: go_time

record 'd pg =
  tbl_payouts :: "payout_row list"
  tbl_keys :: "key_row list"
  pg_world :: 'd

record 'd pg_env =
  pg_net :: "'d \<Rightarrow> delivery \<times> 'd"
  pg_uuid :: "'d \<Rightarrow> uuid \<times> 'd"
  pg_now :: "'d \<Rightarrow> go_time \<times> 'd"

section \<open>Constraints (db/migrations)\<close>

text \<open>
  The CHECK constraints in force after the last migration: the states of migration 5, the positive
  amount, the two rails, and the provider list of migration 2, which migration 6 makes nullable
  without changing the list.
\<close>

definition db_states :: "string list" where
  "db_states = [''created'', ''queued'', ''pending'', ''processing'', ''completed'', ''succeeded'',
     ''sent'', ''failed'', ''canceled'']"

definition db_rails :: "string list" where
  "db_rails = [''card'', ''crypto'']"

definition db_providers :: "string list" where
  "db_providers = [''stripe'', ''crypto_sim'']"

definition row_checks :: "payout_row \<Rightarrow> bool" where
  "row_checks r \<longleftrightarrow>
     rState r \<in> set db_states \<and> 0 < rAmountCents r \<and> rRail r \<in> set db_rails \<and>
     (case rProvider r of None \<Rightarrow> True | Some p \<Rightarrow> p \<in> set db_providers)"

text \<open>The column \<open>external_id\<close> is UNIQUE: two rows may share it only where it is NULL.\<close>

definition ext_taken :: "payout_row list \<Rightarrow> string option \<Rightarrow> bool" where
  "ext_taken rows x \<longleftrightarrow> x \<noteq> None \<and> x \<in> rExternalID ` set rows"

definition check_violation :: go_error where
  "check_violation = PgError ''23514'' ''new row for relation payouts violates check constraint''"

definition unique_violation :: go_error where
  "unique_violation = PgError ''23505'' ''duplicate key value violates unique constraint''"

section \<open>Statements\<close>

text \<open>A statement that reaches the server runs there; its answer may be lost.\<close>

definition round_trip ::
    "'d pg_env \<Rightarrow> ('d pg \<Rightarrow> 'a result \<times> 'd pg) \<Rightarrow> 'd pg \<Rightarrow> 'a result \<times> 'd pg" where
  "round_trip E stmt s =
     (case pg_net E (pg_world s) of (net, d) \<Rightarrow>
        let s1 = s\<lparr>pg_world := d\<rparr> in
        (case net of
           Delivered \<Rightarrow> stmt s1
         | LostBefore c m \<Rightarrow> (Inl (PgError c m), s1)
         | LostAfter c m \<Rightarrow> (Inl (PgError c m), snd (stmt s1))))"

record q_create_params =
  qcState :: string
  qcAmountCents :: int
  qcCurrency :: string
  qcRail :: string
  qcProvider :: "string option"
  qcExternalID :: "string option"

record q_update_params =
  quState :: string
  quExternalID :: "string option"
  quProvider :: "string option"
  quID :: uuid

text \<open>INSERT INTO payouts ... VALUES ... RETURNING: the id and both time stamps are the column defaults.\<close>

definition sql_createPayout ::
    "'d pg_env \<Rightarrow> q_create_params \<Rightarrow> 'd pg \<Rightarrow> payout_row result \<times> 'd pg" where
  "sql_createPayout E arg s =
     (case pg_uuid E (pg_world s) of (u, d1) \<Rightarrow>
      case pg_now E d1 of (t, d2) \<Rightarrow>
        let s2 = s\<lparr>pg_world := d2\<rparr>;
            row = \<lparr>rID = u, rState = qcState arg, rAmountCents = qcAmountCents arg,
                   rCurrency = qcCurrency arg, rRail = qcRail arg, rProvider = qcProvider arg,
                   rExternalID = qcExternalID arg, rCreatedAt = t, rUpdatedAt = t\<rparr>
        in if \<not> row_checks row then (Inl check_violation, s2)
           else if u \<in> rID ` set (tbl_payouts s) \<or> ext_taken (tbl_payouts s) (rExternalID row)
           then (Inl unique_violation, s2)
           else (Inr row, s2\<lparr>tbl_payouts := tbl_payouts s2 @ [row]\<rparr>))"

text \<open>SELECT ... FROM payouts WHERE id = $1.\<close>

definition sql_getPayout :: "uuid \<Rightarrow> 'd pg \<Rightarrow> payout_row result \<times> 'd pg" where
  "sql_getPayout i s =
     (case find (\<lambda>r. rID r = i) (tbl_payouts s) of
        None \<Rightarrow> (Inl ErrNoRows, s)
      | Some r \<Rightarrow> (Inr r, s))"

text \<open>SELECT ... FROM payouts WHERE external_id = $1.\<close>

definition sql_findPayoutByExternalID :: "string \<Rightarrow> 'd pg \<Rightarrow> payout_row result \<times> 'd pg" where
  "sql_findPayoutByExternalID x s =
     (case find (\<lambda>r. rExternalID r = Some x) (tbl_payouts s) of
        None \<Rightarrow> (Inl ErrNoRows, s)
      | Some r \<Rightarrow> (Inr r, s))"

text \<open>
  UPDATE payouts SET ... WHERE id = $k RETURNING ...: the one row with that id becomes \<open>f\<close> of it,
  unless the new row breaks a constraint, and then no row changes.
\<close>

definition sql_update_row ::
    "uuid \<Rightarrow> (payout_row \<Rightarrow> payout_row) \<Rightarrow> 'd pg \<Rightarrow> payout_row result \<times> 'd pg" where
  "sql_update_row i f s =
     (case find (\<lambda>r. rID r = i) (tbl_payouts s) of
        None \<Rightarrow> (Inl ErrNoRows, s)
      | Some r \<Rightarrow>
          if \<not> row_checks (f r) then (Inl check_violation, s)
          else if ext_taken (filter (\<lambda>q. rID q \<noteq> i) (tbl_payouts s)) (rExternalID (f r))
          then (Inl unique_violation, s)
          else (Inr (f r),
                s\<lparr>tbl_payouts := map (\<lambda>q. if rID q = i then f q else q) (tbl_payouts s)\<rparr>))"

definition sql_updatePayoutState ::
    "'d pg_env \<Rightarrow> q_update_params \<Rightarrow> 'd pg \<Rightarrow> payout_row result \<times> 'd pg" where
  "sql_updatePayoutState E arg s =
     (case pg_now E (pg_world s) of (t, d) \<Rightarrow>
        sql_update_row (quID arg)
          (\<lambda>r. r\<lparr>rState := quState arg, rExternalID := quExternalID arg,
                 rProvider := quProvider arg, rUpdatedAt := t\<rparr>)
          (s\<lparr>pg_world := d\<rparr>))"

text \<open>
  UPDATE payouts SET state = 'canceled' WHERE id = $1 AND state = ANY($2): a row in another state
  is not selected, so no row comes back.
\<close>

definition sql_cancelPayoutIfCancelable ::
    "'d pg_env \<Rightarrow> uuid \<Rightarrow> string list \<Rightarrow> 'd pg \<Rightarrow> payout_row result \<times> 'd pg" where
  "sql_cancelPayoutIfCancelable E i states s =
     (case pg_now E (pg_world s) of (t, d) \<Rightarrow>
        let s1 = s\<lparr>pg_world := d\<rparr> in
        (case find (\<lambda>r. rID r = i) (tbl_payouts s) of
           None \<Rightarrow> (Inl ErrNoRows, s1)
         | Some r \<Rightarrow>
             if rState r \<in> set states
             then sql_update_row i (\<lambda>r. r\<lparr>rState := ''canceled'', rUpdatedAt := t\<rparr>) s1
             else (Inl ErrNoRows, s1)))"

text \<open>INSERT ... ON CONFLICT (key) DO NOTHING RETURNING: no row comes back where the key exists.\<close>

definition sql_tryInsertIdempotencyKey ::
    "'d pg_env \<Rightarrow> string \<Rightarrow> string \<Rightarrow> uuid \<Rightarrow> 'd pg \<Rightarrow> key_row result \<times> 'd pg" where
  "sql_tryInsertIdempotencyKey E k h p s =
     (case pg_now E (pg_world s) of (t, d) \<Rightarrow>
        let s1 = s\<lparr>pg_world := d\<rparr>;
            row = \<lparr>ikKey = k, ikRequestHash = h, ikPayoutID = p, ikCreatedAt = t\<rparr>
        in if k \<in> ikKey ` set (tbl_keys s) then (Inl ErrNoRows, s1)
           else (Inr row, s1\<lparr>tbl_keys := tbl_keys s1 @ [row]\<rparr>))"

definition sql_getIdempotencyKey :: "string \<Rightarrow> 'd pg \<Rightarrow> key_row result \<times> 'd pg" where
  "sql_getIdempotencyKey k s =
     (case find (\<lambda>r. ikKey r = k) (tbl_keys s) of
        None \<Rightarrow> (Inl ErrNoRows, s)
      | Some r \<Rightarrow> (Inr r, s))"

section \<open>The Querier\<close>

definition Queries_CreatePayout where
  "Queries_CreatePayout E arg = round_trip E (sql_createPayout E arg)"
definition Queries_GetPayout where
  "Queries_GetPayout E i = round_trip E (sql_getPayout i)"
definition Queries_FindPayoutByExternalID where
  "Queries_FindPayoutByExternalID E x = round_trip E (sql_findPayoutByExternalID x)"
definition Queries_UpdatePayoutState where
  "Queries_UpdatePayoutState E arg = round_trip E (sql_updatePayoutState E arg)"
definition Queries_CancelPayoutIfCancelable where
  "Queries_CancelPayoutIfCancelable E i states = round_trip E (sql_cancelPayoutIfCancelable E i states)"
definition Queries_TryInsertIdempotencyKey where
  "Queries_TryInsertIdempotencyKey E k h p = round_trip E (sql_tryInsertIdempotencyKey E k h p)"
definition Queries_GetIdempotencyKey where
  "Queries_GetIdempotencyKey E k = round_trip E (sql_getIdempotencyKey k)"

end
