(* ===== verification/SqlcLaws.thy ===== *)
theory SqlcLaws
  imports Sqlc
begin

text \<open>
  The contract of a statement: it keeps the table constraints, never loses a row or a key, never
  changes the columns that identify a payout, and changes nothing when it fails. The contract is a
  locale, its consequences for a round trip over an unreliable connection are proved once in it,
  and each of the seven statements is an interpretation.
\<close>

section \<open>Table invariant and evolution\<close>

definition rows_ok :: "payout_row list \<Rightarrow> bool" where
  "rows_ok rows \<longleftrightarrow>
     distinct (map rID rows) \<and>
     (\<forall>q \<in> set rows. \<forall>r \<in> set rows.
        rExternalID q = rExternalID r \<and> rExternalID q \<noteq> None \<longrightarrow> q = r) \<and>
     (\<forall>r \<in> set rows. row_checks r)"

definition tables_ok :: "'d pg \<Rightarrow> bool" where
  "tables_ok s \<longleftrightarrow> rows_ok (tbl_payouts s) \<and> distinct (map ikKey (tbl_keys s))"

text \<open>The columns no query of the program ever writes again.\<close>

definition same_payout :: "payout_row \<Rightarrow> payout_row \<Rightarrow> bool" where
  "same_payout r r' \<longleftrightarrow>
     rID r' = rID r \<and> rAmountCents r' = rAmountCents r \<and> rCurrency r' = rCurrency r \<and>
     rRail r' = rRail r \<and> rCreatedAt r' = rCreatedAt r"

definition evolves :: "'d pg \<Rightarrow> 'd pg \<Rightarrow> bool" where
  "evolves s s' \<longleftrightarrow>
     (\<forall>r \<in> set (tbl_payouts s). \<exists>r' \<in> set (tbl_payouts s'). same_payout r r') \<and>
     set (tbl_keys s) \<subseteq> set (tbl_keys s')"

definition same_tables :: "'d pg \<Rightarrow> 'd pg \<Rightarrow> bool" where
  "same_tables s s' \<longleftrightarrow> tbl_payouts s' = tbl_payouts s \<and> tbl_keys s' = tbl_keys s"

text \<open>One step of the database, as every caller sees it.\<close>

definition db_le :: "'d pg \<Rightarrow> 'd pg \<Rightarrow> bool" where
  "db_le s s' \<longleftrightarrow> (tables_ok s \<longrightarrow> tables_ok s') \<and> evolves s s'"

lemma same_payout_refl [simp]: "same_payout r r"
  by (simp add: same_payout_def)

lemma same_payout_trans: "same_payout a b \<Longrightarrow> same_payout b c \<Longrightarrow> same_payout a c"
  by (simp add: same_payout_def)

lemma evolves_refl [simp]: "evolves s s"
  by (auto simp: evolves_def intro: bexI same_payout_refl)

lemma evolves_trans: "evolves a b \<Longrightarrow> evolves b c \<Longrightarrow> evolves a c"
  unfolding evolves_def by (meson same_payout_trans subset_trans)

lemma db_le_refl [simp]: "db_le s s"
  by (simp add: db_le_def)

lemma db_le_trans [trans]: "db_le a b \<Longrightarrow> db_le b c \<Longrightarrow> db_le a c"
  by (auto simp: db_le_def intro: evolves_trans)

lemma same_tables_refl [simp]: "same_tables s s"
  by (simp add: same_tables_def)

lemma same_tables_trans: "same_tables a b \<Longrightarrow> same_tables b c \<Longrightarrow> same_tables a c"
  by (simp add: same_tables_def)

lemma same_tables_sym: "same_tables a b \<Longrightarrow> same_tables b a"
  by (simp add: same_tables_def)

lemma same_tables_world [simp]: "same_tables s (s\<lparr>pg_world := d\<rparr>)"
  by (simp add: same_tables_def)

lemma same_tables_ok: "same_tables s s' \<Longrightarrow> tables_ok s' = tables_ok s"
  by (simp add: same_tables_def tables_ok_def)

lemma same_tables_evolves: "same_tables s s' \<Longrightarrow> evolves s s'"
  by (auto simp: same_tables_def evolves_def intro: bexI same_payout_refl)

lemma same_tables_db_le: "same_tables s s' \<Longrightarrow> db_le s s'"
  by (simp add: db_le_def same_tables_ok same_tables_evolves)

lemma tables_ok_find:
  "tables_ok s \<Longrightarrow> find (\<lambda>r. rID r = i) (tbl_payouts s) = Some r \<longleftrightarrow>
     r \<in> set (tbl_payouts s) \<and> rID r = i"
  by (simp add: tables_ok_def rows_ok_def find_Some_iff_distinct)

lemma tables_ok_find_key:
  "tables_ok s \<Longrightarrow> find (\<lambda>r. ikKey r = k) (tbl_keys s) = Some r \<longleftrightarrow>
     r \<in> set (tbl_keys s) \<and> ikKey r = k"
  by (simp add: tables_ok_def find_Some_iff_distinct)

text \<open>A payout that is found keeps its identifying columns wherever the database goes.\<close>

lemma evolves_find:
  assumes "evolves s s'" and "tables_ok s'"
    and "find (\<lambda>r. rID r = i) (tbl_payouts s) = Some r"
  obtains r' where "find (\<lambda>r. rID r = i) (tbl_payouts s') = Some r'" and "same_payout r r'"
proof -
  from assms(3) have r: "r \<in> set (tbl_payouts s)" "rID r = i"
    by (auto simp: find_Some_iff)
  with assms(1) obtain r' where r': "r' \<in> set (tbl_payouts s')" "same_payout r r'"
    by (auto simp: evolves_def)
  with r have "rID r' = i" by (simp add: same_payout_def)
  with r' assms(2) show thesis by (intro that [of r']) (simp_all add: tables_ok_find)
qed

section \<open>The contract\<close>

locale db_statement =
  fixes stmt :: "'d pg \<Rightarrow> 'a result \<times> 'd pg"
  assumes keeps_tables: "tables_ok s \<Longrightarrow> tables_ok (snd (stmt s))"
    and stmt_evolves: "evolves s (snd (stmt s))"
    and failed_keeps: "fst (stmt s) = Inl e \<Longrightarrow> same_tables s (snd (stmt s))"
begin

lemma stmt_db_le: "db_le s (snd (stmt s))"
  by (simp add: db_le_def keeps_tables stmt_evolves)

lemma round_trip_cases:
  obtains (answered) d where "round_trip E stmt s = stmt (s\<lparr>pg_world := d\<rparr>)"
  | (lost) c m d where "round_trip E stmt s = (Inl (PgError c m), s\<lparr>pg_world := d\<rparr>)"
  | (silent) c m d where
      "round_trip E stmt s = (Inl (PgError c m), snd (stmt (s\<lparr>pg_world := d\<rparr>)))"
proof -
  obtain net d where n: "pg_net E (pg_world s) = (net, d)" by (cases "pg_net E (pg_world s)")
  show thesis
    by (cases net) (use n in \<open>auto simp: round_trip_def intro: that\<close>)
qed

lemma round_trip_db_le: "db_le s (snd (round_trip E stmt s))"
proof -
  have step: "db_le s (snd (stmt (s\<lparr>pg_world := d\<rparr>)))" for d
    using db_le_trans [OF same_tables_db_le [OF same_tables_world] stmt_db_le] .
  show ?thesis
    by (cases rule: round_trip_cases [of E s]) (simp_all add: step same_tables_db_le)
qed

lemma round_trip_tables_ok: "tables_ok s \<Longrightarrow> tables_ok (snd (round_trip E stmt s))"
  using round_trip_db_le by (simp add: db_le_def)

text \<open>
  An answer that arrives comes from the statement, run on these tables; so does any error that is
  not the connection's.
\<close>

lemma round_trip_error:
  assumes "round_trip E stmt s = (Inl e, s')" and "\<And>c m. e \<noteq> PgError c m"
  obtains d where "stmt (s\<lparr>pg_world := d\<rparr>) = (Inl e, s')"
  using assms by (cases rule: round_trip_cases [of E s]) auto

lemma round_trip_answer:
  assumes "round_trip E stmt s = (Inr a, s')"
  obtains d where "stmt (s\<lparr>pg_world := d\<rparr>) = (Inr a, s')"
  using assms by (cases rule: round_trip_cases [of E s]) auto

end

text \<open>A query only reads; it is a statement in particular.\<close>

locale db_query =
  fixes stmt :: "'d pg \<Rightarrow> 'a result \<times> 'd pg"
  assumes reads_only: "snd (stmt s) = s"
begin

lemma round_trip_same: "same_tables s (snd (round_trip E stmt s))"
  by (auto simp: round_trip_def reads_only Let_def split: prod.split delivery.split)

end

sublocale db_query \<subseteq> db_statement stmt
  by unfold_locales (simp_all add: reads_only)

section \<open>The statements satisfy it\<close>

lemma rows_ok_append:
  assumes "rows_ok rows" and "row_checks row" and "rID row \<notin> rID ` set rows"
    and "\<not> ext_taken rows (rExternalID row)"
  shows "rows_ok (rows @ [row])"
proof -
  have "q = row" if "q \<in> set (rows @ [row])" "rExternalID q = rExternalID row"
    "rExternalID q \<noteq> None" for q
    using that assms(4) by (auto simp: ext_taken_def image_iff)
  moreover have "distinct (map rID (rows @ [row]))"
    using assms(1,3) by (auto simp: rows_ok_def)
  ultimately show ?thesis
    using assms(1,2) unfolding rows_ok_def by (metis (no_types, lifting) Un_iff set_append
        set_ConsD empty_set empty_iff)
qed

lemma rows_ok_update:
  assumes ok: "rows_ok rows" and f: "\<And>r. rID (f r) = rID r"
    and chk: "\<And>r. r \<in> set rows \<Longrightarrow> rID r = i \<Longrightarrow> row_checks (f r)"
    and ext: "\<And>r. r \<in> set rows \<Longrightarrow> rID r = i \<Longrightarrow>
        \<not> ext_taken (filter (\<lambda>q. rID q \<noteq> i) rows) (rExternalID (f r))"
  shows "rows_ok (map (\<lambda>q. if rID q = i then f q else q) rows)"
proof -
  let ?g = "\<lambda>q. if rID q = i then f q else q"
  have inj: "q = r" if "q \<in> set rows" "r \<in> set rows" "rID q = rID r" for q r
    using that ok by (auto simp: rows_ok_def distinct_map inj_on_def)
  have other: False
    if "q \<in> set rows" "rID q = i" "r \<in> set rows" "rID r \<noteq> i"
      "rExternalID (f q) = rExternalID r" "rExternalID r \<noteq> None" for q r
    using ext [OF that(1,2)] that(3-6) by (auto simp: ext_taken_def image_iff)
  have uniq: "?g q = ?g r"
    if q: "q \<in> set rows" and r: "r \<in> set rows"
      and e: "rExternalID (?g q) = rExternalID (?g r)" "rExternalID (?g q) \<noteq> None" for q r
  proof (cases "rID q = i"; cases "rID r = i")
    assume "rID q = i" "rID r = i"
    then show ?thesis using inj [OF q r] by simp
  next
    assume "rID q = i" "rID r \<noteq> i"
    then show ?thesis using other [OF q _ r] e by simp
  next
    assume "rID q \<noteq> i" "rID r = i"
    then show ?thesis using other [OF r _ q] e by simp
  next
    assume "rID q \<noteq> i" "rID r \<noteq> i"
    then show ?thesis using e ok q r by (auto simp: rows_ok_def)
  qed
  have "\<forall>q \<in> set (map ?g rows). \<forall>r \<in> set (map ?g rows).
      rExternalID q = rExternalID r \<and> rExternalID q \<noteq> None \<longrightarrow> q = r"
    unfolding set_map ball_simps using uniq by blast
  moreover have "\<forall>r \<in> set (map ?g rows). row_checks r"
    using ok chk by (auto simp: rows_ok_def)
  moreover have "map rID (map ?g rows) = map rID rows"
    by (rule map_if_same_column) (rule f)
  ultimately show ?thesis
    using ok unfolding rows_ok_def by presburger
qed

lemma evolves_update:
  "(\<And>r. same_payout r (f r)) \<Longrightarrow>
   evolves s (s\<lparr>tbl_payouts := map (\<lambda>q. if rID q = i then f q else q) (tbl_payouts s)\<rparr>)"
  unfolding evolves_def
  by (intro conjI ballI, rule_tac x = "if rID r = i then f r else r" in bexI) auto

lemma sql_update_row_statement:
  assumes "\<And>r. same_payout r (f r)"
  shows "tables_ok s \<Longrightarrow> tables_ok (snd (sql_update_row i f s))"
    and "evolves s (snd (sql_update_row i f s))"
    and "fst (sql_update_row i f s) = Inl e \<Longrightarrow> same_tables s (snd (sql_update_row i f s))"
proof -
  have id: "rID (f r) = rID r" for r using assms [of r] by (simp add: same_payout_def)
  assume ok: "tables_ok s"
  have one: "q = r" if "find (\<lambda>r. rID r = i) (tbl_payouts s) = Some r"
    and "q \<in> set (tbl_payouts s)" "rID q = i" for q r
    using that tables_ok_find [OF ok, of i] by (metis option.inject)
  show "tables_ok (snd (sql_update_row i f s))"
  proof (cases "find (\<lambda>r. rID r = i) (tbl_payouts s)")
    case (Some r)
    have "rows_ok (map (\<lambda>q. if rID q = i then f q else q) (tbl_payouts s))"
      if "row_checks (f r)"
        "\<not> ext_taken (filter (\<lambda>q. rID q \<noteq> i) (tbl_payouts s)) (rExternalID (f r))"
      using that one [OF Some] ok by (intro rows_ok_update id) (auto simp: tables_ok_def)
    then show ?thesis
      using ok Some by (simp add: sql_update_row_def tables_ok_def)
  qed (simp add: sql_update_row_def ok)
next
  show "evolves s (snd (sql_update_row i f s))"
    by (auto simp: sql_update_row_def split: option.split intro: evolves_update assms)
next
  show "fst (sql_update_row i f s) = Inl e \<Longrightarrow> same_tables s (snd (sql_update_row i f s))"
    by (auto simp: sql_update_row_def split: option.splits if_splits)
qed

interpretation create_stmt: db_statement "sql_createPayout E arg"
  for E :: "'d pg_env" and arg :: q_create_params
proof unfold_locales
  fix s :: "'d pg" and e
  obtain u d1 where u: "pg_uuid E (pg_world s) = (u, d1)" by (cases "pg_uuid E (pg_world s)")
  obtain t d2 where t: "pg_now E d1 = (t, d2)" by (cases "pg_now E d1")
  note def = sql_createPayout_def u t prod.case Let_def
  show "tables_ok s \<Longrightarrow> tables_ok (snd (sql_createPayout E arg s))"
    by (simp add: def tables_ok_def rows_ok_append)
  show "evolves s (snd (sql_createPayout E arg s))"
    by (auto simp: def evolves_def intro: bexI same_payout_refl)
  show "fst (sql_createPayout E arg s) = Inl e \<Longrightarrow>
      same_tables s (snd (sql_createPayout E arg s))"
    by (auto simp: def same_tables_def split: if_splits)
qed

interpretation get_stmt: db_query "sql_getPayout i" for i :: uuid
  by unfold_locales (simp add: sql_getPayout_def split: option.split)

interpretation find_stmt: db_query "sql_findPayoutByExternalID x" for x :: string
  by unfold_locales (simp add: sql_findPayoutByExternalID_def split: option.split)

interpretation getkey_stmt: db_query "sql_getIdempotencyKey k" for k :: string
  by unfold_locales (simp add: sql_getIdempotencyKey_def split: option.split)

text \<open>The two UPDATE statements are one row update under a change of the server state.\<close>

lemma row_update_statement:
  assumes "\<And>r. same_payout r (f r)"
  shows "tables_ok s \<Longrightarrow> tables_ok (snd (sql_update_row i f (s\<lparr>pg_world := d\<rparr>)))"
    and "evolves s (snd (sql_update_row i f (s\<lparr>pg_world := d\<rparr>)))"
    and "fst (sql_update_row i f (s\<lparr>pg_world := d\<rparr>)) = Inl e \<Longrightarrow>
      same_tables s (snd (sql_update_row i f (s\<lparr>pg_world := d\<rparr>)))"
proof -
  note st = sql_update_row_statement [of f, OF assms]
  show "tables_ok s \<Longrightarrow> tables_ok (snd (sql_update_row i f (s\<lparr>pg_world := d\<rparr>)))"
    by (rule st(1)) (simp add: same_tables_ok [OF same_tables_world])
  show "evolves s (snd (sql_update_row i f (s\<lparr>pg_world := d\<rparr>)))"
    by (rule evolves_trans [OF same_tables_evolves [OF same_tables_world] st(2)])
  show "fst (sql_update_row i f (s\<lparr>pg_world := d\<rparr>)) = Inl e \<Longrightarrow>
      same_tables s (snd (sql_update_row i f (s\<lparr>pg_world := d\<rparr>)))"
    by (rule same_tables_trans [OF same_tables_world st(3)])
qed

interpretation update_stmt: db_statement "sql_updatePayoutState E arg"
  for E :: "'d pg_env" and arg :: q_update_params
  by unfold_locales (auto simp: sql_updatePayoutState_def same_payout_def split: prod.split
      intro!: row_update_statement dest: row_update_statement(3) [rotated])

interpretation cancel_stmt: db_statement "sql_cancelPayoutIfCancelable E i states"
  for E :: "'d pg_env" and i :: uuid and states :: "string list"
  by unfold_locales (auto simp: sql_cancelPayoutIfCancelable_def same_payout_def Let_def
      same_tables_ok [OF same_tables_world] intro: same_tables_evolves
      split: prod.split prod.splits option.split option.splits if_splits
      intro!: row_update_statement dest: row_update_statement(3) [rotated])

interpretation trykey_stmt: db_statement "sql_tryInsertIdempotencyKey E k h p"
  for E :: "'d pg_env" and k h :: string and p :: uuid
proof unfold_locales
  fix s :: "'d pg" and e
  obtain t d where t: "pg_now E (pg_world s) = (t, d)" by (cases "pg_now E (pg_world s)")
  note def = sql_tryInsertIdempotencyKey_def t prod.case Let_def
  show "tables_ok s \<Longrightarrow> tables_ok (snd (sql_tryInsertIdempotencyKey E k h p s))"
    by (auto simp: def tables_ok_def)
  show "evolves s (snd (sql_tryInsertIdempotencyKey E k h p s))"
    by (auto simp: def evolves_def intro: bexI same_payout_refl)
  show "fst (sql_tryInsertIdempotencyKey E k h p s) = Inl e \<Longrightarrow>
      same_tables s (snd (sql_tryInsertIdempotencyKey E k h p s))"
    by (auto simp: def same_tables_def split: if_splits)
qed

section \<open>What else the statements leave alone\<close>

text \<open>Statements on one table do not touch the other.\<close>

lemma sql_update_row_keys: "tbl_keys (snd (sql_update_row i f s)) = tbl_keys s"
  by (simp add: sql_update_row_def split: option.split)

lemma payout_stmts_keep_keys [db_frame]:
  "tbl_keys (snd (sql_createPayout E arg s)) = tbl_keys s"
  "tbl_keys (snd (sql_updatePayoutState E uarg s)) = tbl_keys s"
  "tbl_keys (snd (sql_cancelPayoutIfCancelable E i states s)) = tbl_keys s"
  by (simp_all add: sql_createPayout_def sql_updatePayoutState_def
      sql_cancelPayoutIfCancelable_def sql_update_row_keys Let_def
      split: prod.split option.split)

lemma trykey_keeps_payouts [db_frame]:
  "tbl_payouts (snd (sql_tryInsertIdempotencyKey E k h p s)) = tbl_payouts s"
  by (simp add: sql_tryInsertIdempotencyKey_def Let_def split: prod.split)

lemma round_trip_keeps:
  assumes "\<And>s. f (snd (stmt s)) = f s" and "\<And>s d. f (s\<lparr>pg_world := d\<rparr>) = f s"
  shows "f (snd (round_trip E stmt s)) = f s"
  using assms by (auto simp: round_trip_def Let_def split: prod.split delivery.split)

end
