(* ===== verification/PayoutRepo.thy ===== *)
theory PayoutRepo
  imports SqlcLaws
begin

text \<open>
  \<open>services/orchestrator/internal/persistence/postgres\<close>: the repositories over the queries
  (\<open>payout_repo.go\<close>) and the transaction runner (\<open>tx.go\<close>); then the interface
  \<open>domain.PayoutRepository\<close> as a locale over an abstract store of payouts, with
  \<open>PayoutRepo\<close> as its interpretation.
\<close>

section \<open>Conversion\<close>

definition toDomainPayout :: "payout_row \<Rightarrow> payout" where
  "toDomainPayout r = \<lparr>pID = rID r, pState = rState r, pAmountCents = rAmountCents r,
     pCurrency = rCurrency r, pRail = rRail r,
     pProvider = (case rProvider r of None \<Rightarrow> [] | Some p \<Rightarrow> p),
     pExternalID = rExternalID r, pCreatedAt = rCreatedAt r, pUpdatedAt = rUpdatedAt r\<rparr>"

definition toDomainIdempotencyKey :: "key_row \<Rightarrow> idempotency_key" where
  "toDomainIdempotencyKey k = \<lparr>kKey = ikKey k, kRequestHash = ikRequestHash k,
     kPayoutID = ikPayoutID k, kCreatedAt = ikCreatedAt k\<rparr>"

text \<open>The empty provider becomes NULL.\<close>

definition provider_param :: "provider \<Rightarrow> string option" where
  "provider_param p = (if p \<noteq> [] then Some p else None)"

section \<open>PayoutRepo\<close>

definition PayoutRepo_CreatePayout ::
    "'d pg_env \<Rightarrow> create_payout_params \<Rightarrow> 'd pg \<Rightarrow> payout result \<times> 'd pg" where
  "PayoutRepo_CreatePayout E params s =
     (case Queries_CreatePayout E
         \<lparr>qcState = cpState params, qcAmountCents = cpAmountCents params,
          qcCurrency = cpCurrency params, qcRail = cpRail params,
          qcProvider = provider_param (cpProvider params), qcExternalID = cpExternalID params\<rparr> s of
        (Inl err, s') \<Rightarrow> (Inl err, s')
      | (Inr row, s') \<Rightarrow> (Inr (toDomainPayout row), s'))"

text \<open>Four methods end the same way: \<open>pgx.ErrNoRows\<close> becomes \<open>ErrNotFound\<close>.\<close>

definition row_or_not_found :: "payout_row result \<times> 'd pg \<Rightarrow> payout result \<times> 'd pg" where
  "row_or_not_found rs =
     (case rs of
        (Inl err, s') \<Rightarrow>
          if errors_Is err ErrNoRows then (Inl ErrNotFound, s') else (Inl err, s')
      | (Inr row, s') \<Rightarrow> (Inr (toDomainPayout row), s'))"

definition PayoutRepo_GetPayout ::
    "'d pg_env \<Rightarrow> uuid \<Rightarrow> 'd pg \<Rightarrow> payout result \<times> 'd pg" where
  "PayoutRepo_GetPayout E i s = row_or_not_found (Queries_GetPayout E i s)"

definition PayoutRepo_UpdatePayoutState ::
    "'d pg_env \<Rightarrow> uuid \<Rightarrow> update_payout_params \<Rightarrow> 'd pg \<Rightarrow> payout result \<times> 'd pg" where
  "PayoutRepo_UpdatePayoutState E i params s =
     row_or_not_found (Queries_UpdatePayoutState E
       \<lparr>quState = upState params, quExternalID = upExternalID params,
        quProvider = provider_param (upProvider params), quID = i\<rparr> s)"

definition PayoutRepo_CancelPayout ::
    "'d pg_env \<Rightarrow> uuid \<Rightarrow> payout_state list \<Rightarrow> 'd pg \<Rightarrow> payout result \<times> 'd pg" where
  "PayoutRepo_CancelPayout E i states s =
     row_or_not_found (Queries_CancelPayoutIfCancelable E i states s)"

definition PayoutRepo_FindByExternalID ::
    "'d pg_env \<Rightarrow> string \<Rightarrow> 'd pg \<Rightarrow> payout result \<times> 'd pg" where
  "PayoutRepo_FindByExternalID E x s = row_or_not_found (Queries_FindPayoutByExternalID E x s)"

section \<open>IdempotencyRepo\<close>

text \<open>The second component of the answer is Go's \<open>inserted\<close>.\<close>

definition IdempotencyRepo_TryInsertIdempotencyKey ::
    "'d pg_env \<Rightarrow> string \<Rightarrow> string \<Rightarrow> uuid \<Rightarrow> 'd pg \<Rightarrow>
     (idempotency_key \<times> bool) result \<times> 'd pg" where
  "IdempotencyRepo_TryInsertIdempotencyKey E key hash pid s =
     (case Queries_TryInsertIdempotencyKey E key hash pid s of
        (Inl err, s1) \<Rightarrow>
          if errors_Is err ErrNoRows
          then (case Queries_GetIdempotencyKey E key s1 of
                  (Inl getErr, s2) \<Rightarrow> (Inl getErr, s2)
                | (Inr existing, s2) \<Rightarrow> (Inr (toDomainIdempotencyKey existing, False), s2))
          else (Inl err, s1)
      | (Inr row, s1) \<Rightarrow> (Inr (toDomainIdempotencyKey row, True), s1))"

definition IdempotencyRepo_GetIdempotencyKey ::
    "'d pg_env \<Rightarrow> string \<Rightarrow> 'd pg \<Rightarrow> idempotency_key result \<times> 'd pg" where
  "IdempotencyRepo_GetIdempotencyKey E key s =
     (case Queries_GetIdempotencyKey E key s of
        (Inl err, s') \<Rightarrow>
          if errors_Is err ErrNoRows then (Inl ErrNotFound, s') else (Inl err, s')
      | (Inr row, s') \<Rightarrow> (Inr (toDomainIdempotencyKey row), s'))"

section \<open>RunInTx\<close>

text \<open>
  Rolling back restores the tables as the transaction found them; what the server's clock, sequence
  of random ids and connection went through is not undone.
\<close>

definition rollback :: "'d pg \<Rightarrow> 'd pg \<Rightarrow> 'd pg" where
  "rollback s0 s = s\<lparr>tbl_payouts := tbl_payouts s0, tbl_keys := tbl_keys s0\<rparr>"

text \<open>
  The closure \<open>fn\<close> returns an error or nil and writes variables of its caller: \<open>fn\<close> here maps
  the tables to (error option, captured variables) and the new tables, and \<open>r0\<close> is what the
  captured variables hold when \<open>fn\<close> never runs. A commit whose answer is lost has taken effect,
  one that fails before has not. The isolation level is serializable: no other transaction is
  interleaved, and what the server refuses on that account is a failed round trip.
\<close>

definition RunInTx ::
    "'d pg_env \<Rightarrow> ('d pg \<Rightarrow> (go_error option \<times> 'r) \<times> 'd pg) \<Rightarrow> 'r \<Rightarrow> 'd pg \<Rightarrow>
     (go_error option \<times> 'r) \<times> 'd pg" where
  "RunInTx E fn r0 s =
     (case pg_net E (pg_world s) of (begin, d0) \<Rightarrow>
        let s0 = s\<lparr>pg_world := d0\<rparr> in
        (case begin of
           LostBefore c m \<Rightarrow> ((Some (ErrWrap ''begin tx'' (PgError c m)), r0), s0)
         | LostAfter c m \<Rightarrow> ((Some (ErrWrap ''begin tx'' (PgError c m)), r0), s0)
         | Delivered \<Rightarrow>
             (case fn s0 of ((err, r), s1) \<Rightarrow>
              case pg_net E (pg_world s1) of (end, d1) \<Rightarrow>
                let s2 = s1\<lparr>pg_world := d1\<rparr> in
                (case err of
                   Some e \<Rightarrow> ((Some e, r), rollback s0 s2)
                 | None \<Rightarrow>
                     (case end of
                        Delivered \<Rightarrow> ((None, r), s2)
                      | LostBefore c m \<Rightarrow>
                          ((Some (ErrWrap ''commit tx'' (PgError c m)), r), rollback s0 s2)
                      | LostAfter c m \<Rightarrow>
                          ((Some (ErrWrap ''commit tx'' (PgError c m)), r), s2))))))"

section \<open>The interface domain.PayoutRepository\<close>

text \<open>
  What a caller of the interface relies on, over an abstract store of payouts: an answer tells the
  truth about the store, an update or a cancellation that is answered changes exactly one payout and
  only the columns it names, and \<open>ErrNotFound\<close> means what it says.
\<close>

locale payout_repository =
  fixes ok :: "'s \<Rightarrow> bool"
    and store :: "'s \<Rightarrow> uuid \<Rightarrow> payout option"
    and create :: "create_payout_params \<Rightarrow> 's \<Rightarrow> payout result \<times> 's"
    and get :: "uuid \<Rightarrow> 's \<Rightarrow> payout result \<times> 's"
    and update :: "uuid \<Rightarrow> update_payout_params \<Rightarrow> 's \<Rightarrow> payout result \<times> 's"
    and cancel :: "uuid \<Rightarrow> payout_state list \<Rightarrow> 's \<Rightarrow> payout result \<times> 's"
    and find_ext :: "string \<Rightarrow> 's \<Rightarrow> payout result \<times> 's"
  assumes ok_kept:
      "ok s \<Longrightarrow> ok (snd (create c s))" "ok s \<Longrightarrow> ok (snd (get i s))"
      "ok s \<Longrightarrow> ok (snd (update i u s))" "ok s \<Longrightarrow> ok (snd (cancel i cs s))"
      "ok s \<Longrightarrow> ok (snd (find_ext x s))"
    and store_id: "store s i = Some p \<Longrightarrow> pID p = i"
    and create_answer: "ok s \<Longrightarrow> create c s = (Inr p, s') \<Longrightarrow>
      store s (pID p) = None \<and> store s' = (store s)(pID p \<mapsto> p) \<and>
      pState p = cpState c \<and> pAmountCents p = cpAmountCents c \<and> pCurrency p = cpCurrency c \<and>
      pRail p = cpRail c \<and> pProvider p = cpProvider c \<and> pExternalID p = cpExternalID c"
    and get_answer: "ok s \<Longrightarrow> get i s = (Inr p, s') \<Longrightarrow> store s i = Some p"
    and get_missing: "ok s \<Longrightarrow> get i s = (Inl ErrNotFound, s') \<Longrightarrow> store s i = None"
    and get_keeps: "store (snd (get i s)) = store s"
    and find_answer: "ok s \<Longrightarrow> find_ext x s = (Inr p, s') \<Longrightarrow>
      store s (pID p) = Some p \<and> pExternalID p = Some x"
    and find_missing: "ok s \<Longrightarrow> find_ext x s = (Inl ErrNotFound, s') \<Longrightarrow>
      store s i = Some p \<Longrightarrow> pExternalID p \<noteq> Some x"
    and find_keeps: "store (snd (find_ext x s)) = store s"
    and update_answer: "ok s \<Longrightarrow> update i u s = (Inr p, s') \<Longrightarrow>
      \<exists>q t. store s i = Some q \<and> store s' = (store s)(i \<mapsto> p) \<and>
        p = q\<lparr>pState := upState u, pProvider := upProvider u, pExternalID := upExternalID u,
              pUpdatedAt := t\<rparr>"
    and cancel_answer: "ok s \<Longrightarrow> cancel i cs s = (Inr p, s') \<Longrightarrow>
      \<exists>q t. store s i = Some q \<and> pState q \<in> set cs \<and> store s' = (store s)(i \<mapsto> p) \<and>
        p = q\<lparr>pState := PayoutStateCanceled, pUpdatedAt := t\<rparr>"
begin

text \<open>Read your own writes.\<close>

lemma update_then_get:
  assumes "ok s" and u: "update i u s = (Inr p, s1)" and g: "get i s1 = (res, s2)"
  shows "res \<noteq> Inl ErrNotFound" and "res = Inr q \<Longrightarrow> q = p"
proof -
  have ok1: "ok s1" using ok_kept(3) [OF assms(1), of i u] u by simp
  have st: "store s1 i = Some p" using update_answer [OF assms(1) u] by auto
  show "res \<noteq> Inl ErrNotFound" using get_missing [OF ok1, of i s2] g st by auto
  show "q = p" if "res = Inr q" using get_answer [OF ok1, of i q s2] g st that by simp
qed

text \<open>A payout is canceled at most once, unless canceled payouts count as cancelable.\<close>

lemma cancel_once:
  assumes "ok s" and c: "cancel i cs s = (Inr p, s1)" and "PayoutStateCanceled \<notin> set cs"
  shows "fst (cancel i cs s1) \<noteq> Inr q"
proof
  assume "fst (cancel i cs s1) = Inr q"
  then obtain s2 where c2: "cancel i cs s1 = (Inr q, s2)" by (cases "cancel i cs s1") auto
  have "ok s1" using ok_kept(4) [OF assms(1), of i cs] c by simp
  from cancel_answer [OF this c2] cancel_answer [OF assms(1) c] assms(3) show False by auto
qed

text \<open>An answered write touches no other payout.\<close>

lemma write_frame:
  assumes "ok s" and "i \<noteq> j"
  shows "update i u s = (Inr p, s') \<Longrightarrow> store s' j = store s j"
    and "cancel i cs s = (Inr p, s') \<Longrightarrow> store s' j = store s j"
  using update_answer [OF assms(1), of i u p s'] cancel_answer [OF assms(1), of i cs p s'] assms(2)
  by auto

end

section \<open>PayoutRepo implements it\<close>

definition store_of :: "'d pg \<Rightarrow> uuid \<Rightarrow> payout option" where
  "store_of s i = map_option toDomainPayout (find (\<lambda>r. rID r = i) (tbl_payouts s))"

lemma store_of_world [simp]: "store_of (s\<lparr>pg_world := d\<rparr>) = store_of s"
  by (simp add: store_of_def fun_eq_iff)

lemma same_tables_store: "same_tables s s' \<Longrightarrow> store_of s' = store_of s"
  by (simp add: store_of_def same_tables_def fun_eq_iff)

lemma toDomainPayout_simps [simp]:
  "pID (toDomainPayout r) = rID r" "pState (toDomainPayout r) = rState r"
  "pAmountCents (toDomainPayout r) = rAmountCents r" "pCurrency (toDomainPayout r) = rCurrency r"
  "pRail (toDomainPayout r) = rRail r" "pExternalID (toDomainPayout r) = rExternalID r"
  "pProvider (toDomainPayout r) = (case rProvider r of None \<Rightarrow> [] | Some p \<Rightarrow> p)"
  by (simp_all add: toDomainPayout_def)

lemma provider_param_inverse [simp]:
  "(case provider_param p of None \<Rightarrow> [] | Some q \<Rightarrow> q) = p"
  by (simp add: provider_param_def)

lemma store_of_find:
  "find (\<lambda>r. rID r = i) (tbl_payouts s) = Some r \<Longrightarrow> store_of s i = Some (toDomainPayout r)"
  by (simp add: store_of_def)

lemma store_of_id: "store_of s i = Some p \<Longrightarrow> pID p = i"
  by (auto simp: store_of_def find_Some_iff)

lemma row_or_not_found_Inr:
  "row_or_not_found rs = (Inr p, s') \<longleftrightarrow> (\<exists>row. rs = (Inr row, s') \<and> p = toDomainPayout row)"
  by (auto simp: row_or_not_found_def split: prod.splits sum.splits if_splits)

lemma row_or_not_found_missing:
  "row_or_not_found rs = (Inl ErrNotFound, s') \<Longrightarrow>
   \<exists>e. rs = (Inl e, s') \<and> (errors_Is e ErrNoRows \<or> e = ErrNotFound)"
  by (auto simp: row_or_not_found_def split: prod.splits sum.splits if_splits)

lemma snd_row_or_not_found [simp]: "snd (row_or_not_found rs) = snd rs"
  by (simp add: row_or_not_found_def split: prod.split sum.split)

lemma snd_PayoutRepo:
  "snd (PayoutRepo_GetPayout E i s) = snd (round_trip E (sql_getPayout i) s)"
  "snd (PayoutRepo_FindByExternalID E x s) = snd (round_trip E (sql_findPayoutByExternalID x) s)"
  "snd (PayoutRepo_CancelPayout E i cs s) =
     snd (round_trip E (sql_cancelPayoutIfCancelable E i cs) s)"
  "snd (PayoutRepo_UpdatePayoutState E i u s) =
     snd (round_trip E (sql_updatePayoutState E
       \<lparr>quState = upState u, quExternalID = upExternalID u,
        quProvider = provider_param (upProvider u), quID = i\<rparr>) s)"
  "snd (PayoutRepo_CreatePayout E c s) =
     snd (round_trip E (sql_createPayout E
         \<lparr>qcState = cpState c, qcAmountCents = cpAmountCents c,
          qcCurrency = cpCurrency c, qcRail = cpRail c,
          qcProvider = provider_param (cpProvider c), qcExternalID = cpExternalID c\<rparr>) s)"
  by (simp_all add: PayoutRepo_GetPayout_def PayoutRepo_FindByExternalID_def
      PayoutRepo_CancelPayout_def PayoutRepo_UpdatePayoutState_def PayoutRepo_CreatePayout_def
      Queries_GetPayout_def Queries_FindPayoutByExternalID_def
      Queries_CancelPayoutIfCancelable_def Queries_UpdatePayoutState_def Queries_CreatePayout_def
      split: prod.split sum.split)

text \<open>Every method is a step of the database; the reading ones leave the tables as they are.\<close>

lemma PayoutRepo_db_le:
  "db_le s (snd (PayoutRepo_CreatePayout E c s))"
  "db_le s (snd (PayoutRepo_GetPayout E i s))"
  "db_le s (snd (PayoutRepo_UpdatePayoutState E i u s))"
  "db_le s (snd (PayoutRepo_CancelPayout E i cs s))"
  "db_le s (snd (PayoutRepo_FindByExternalID E x s))"
  unfolding snd_PayoutRepo
  by (rule create_stmt.round_trip_db_le get_stmt.round_trip_db_le update_stmt.round_trip_db_le
      cancel_stmt.round_trip_db_le find_stmt.round_trip_db_le)+

lemma PayoutRepo_reads:
  "same_tables s (snd (PayoutRepo_GetPayout E i s))"
  "same_tables s (snd (PayoutRepo_FindByExternalID E x s))"
  unfolding snd_PayoutRepo by (rule get_stmt.round_trip_same find_stmt.round_trip_same)+

lemma PayoutRepo_keys [db_frame]:
  "tbl_keys (snd (PayoutRepo_CreatePayout E c s)) = tbl_keys s"
  "tbl_keys (snd (PayoutRepo_UpdatePayoutState E i u s)) = tbl_keys s"
  "tbl_keys (snd (PayoutRepo_CancelPayout E i cs s)) = tbl_keys s"
  unfolding snd_PayoutRepo by (rule round_trip_keeps, simp add: db_frame, simp)+

text \<open>An update that succeeds replaces the row with that id and no other.\<close>

lemma sql_update_row_answer:
  assumes "sql_update_row i f s = (Inr r', s')" and f: "\<And>r. rID (f r) = rID r"
  obtains r where "find (\<lambda>r. rID r = i) (tbl_payouts s) = Some r" and "r' = f r"
    and "store_of s' = (store_of s)(i \<mapsto> toDomainPayout r')"
proof -
  from assms(1) obtain r where r: "find (\<lambda>r. rID r = i) (tbl_payouts s) = Some r" "r' = f r"
    and s': "s' = s\<lparr>tbl_payouts := map (\<lambda>q. if rID q = i then f q else q) (tbl_payouts s)\<rparr>"
    by (auto simp: sql_update_row_def split: option.splits if_splits)
  have hit: "rID r = i" using r(1) by (auto simp: find_Some_iff)
  have "store_of s' j = ((store_of s)(i \<mapsto> toDomainPayout r')) j" for j
  proof (cases "j = i")
    case True
    then show ?thesis using r hit by (simp add: store_of_def s' find_map_if_key f)
  next
    case False
    have "map_option (\<lambda>q. if rID q = i then f q else q) (find (\<lambda>r. rID r = j) (tbl_payouts s))
        = find (\<lambda>r. rID r = j) (tbl_payouts s)"
      using False
      by (cases "find (\<lambda>r. rID r = j) (tbl_payouts s)") (auto dest: find_key [of rID])
    then show ?thesis using False by (simp add: store_of_def s' find_map_if_key f)
  qed
  then show thesis using that r by blast
qed

text \<open>The answers of the five methods, in terms of the store.\<close>

lemma repo_create_answer:
  assumes "PayoutRepo_CreatePayout E c s = (Inr p, s')"
  shows "store_of s (pID p) = None" and "store_of s' = (store_of s)(pID p \<mapsto> p)"
    and "pState p = cpState c \<and> pAmountCents p = cpAmountCents c \<and> pCurrency p = cpCurrency c \<and>
      pRail p = cpRail c \<and> pProvider p = cpProvider c \<and> pExternalID p = cpExternalID c"
proof -
  let ?arg = "\<lparr>qcState = cpState c, qcAmountCents = cpAmountCents c, qcCurrency = cpCurrency c,
      qcRail = cpRail c, qcProvider = provider_param (cpProvider c), qcExternalID = cpExternalID c\<rparr>"
  from assms obtain row where rt: "round_trip E (sql_createPayout E ?arg) s = (Inr row, s')"
    and p: "p = toDomainPayout row"
    by (auto simp: PayoutRepo_CreatePayout_def Queries_CreatePayout_def
        split: prod.splits sum.splits)
  from rt obtain d where "sql_createPayout E ?arg (s\<lparr>pg_world := d\<rparr>) = (Inr row, s')"
    by (rule create_stmt.round_trip_answer)
  then have new: "find (\<lambda>r. rID r = rID row) (tbl_payouts s) = None"
    and tbl: "tbl_payouts s' = tbl_payouts s @ [row]"
    and cols: "rState row = cpState c" "rAmountCents row = cpAmountCents c"
      "rCurrency row = cpCurrency c" "rRail row = cpRail c"
      "rProvider row = provider_param (cpProvider c)" "rExternalID row = cpExternalID c"
    by (auto simp: sql_createPayout_def Let_def find_None_iff split: prod.splits if_splits)
  show "store_of s (pID p) = None" using new by (simp add: store_of_def p)
  show "store_of s' = (store_of s)(pID p \<mapsto> p)"
    using new by (auto simp: store_of_def tbl p find_append_one fun_eq_iff split: option.split)
  show "pState p = cpState c \<and> pAmountCents p = cpAmountCents c \<and> pCurrency p = cpCurrency c \<and>
      pRail p = cpRail c \<and> pProvider p = cpProvider c \<and> pExternalID p = cpExternalID c"
    using cols by (simp add: p)
qed

lemma repo_get_answer: "PayoutRepo_GetPayout E i s = (Inr p, s') \<Longrightarrow> store_of s i = Some p"
  unfolding PayoutRepo_GetPayout_def Queries_GetPayout_def row_or_not_found_Inr
  by (auto elim!: get_stmt.round_trip_answer simp: sql_getPayout_def store_of_def
      split: option.splits)

lemma repo_get_missing:
  assumes "PayoutRepo_GetPayout E i s = (Inl ErrNotFound, s')"
  shows "store_of s i = None"
proof -
  from assms obtain e where "round_trip E (sql_getPayout i) s = (Inl e, s')"
    and e: "errors_Is e ErrNoRows \<or> e = ErrNotFound"
    unfolding PayoutRepo_GetPayout_def Queries_GetPayout_def
    by (blast dest: row_or_not_found_missing)
  then obtain d where "sql_getPayout i (s\<lparr>pg_world := d\<rparr>) = (Inl e, s')"
    by (rule_tac get_stmt.round_trip_error) auto
  then show ?thesis by (auto simp: sql_getPayout_def store_of_def split: option.splits)
qed

lemma repo_find_answer:
  assumes "tables_ok s" and "PayoutRepo_FindByExternalID E x s = (Inr p, s')"
  shows "store_of s (pID p) = Some p \<and> pExternalID p = Some x"
proof -
  from assms(2) obtain row d where
    "sql_findPayoutByExternalID x (s\<lparr>pg_world := d\<rparr>) = (Inr row, s')" and p: "p = toDomainPayout row"
    unfolding PayoutRepo_FindByExternalID_def Queries_FindPayoutByExternalID_def row_or_not_found_Inr
    by (auto elim!: find_stmt.round_trip_answer)
  then have "row \<in> set (tbl_payouts s)" "rExternalID row = Some x"
    by (auto simp: sql_findPayoutByExternalID_def split: option.splits
        dest: find_key [of rExternalID])
  then show ?thesis
    using tables_ok_find [OF assms(1), of "rID row" row] by (simp add: store_of_def p)
qed

lemma repo_find_missing:
  assumes "PayoutRepo_FindByExternalID E x s = (Inl ErrNotFound, s')" and "store_of s i = Some p"
  shows "pExternalID p \<noteq> Some x"
proof -
  from assms(1) obtain e where "round_trip E (sql_findPayoutByExternalID x) s = (Inl e, s')"
    and e: "errors_Is e ErrNoRows \<or> e = ErrNotFound"
    unfolding PayoutRepo_FindByExternalID_def Queries_FindPayoutByExternalID_def
    by (blast dest: row_or_not_found_missing)
  then obtain d where "sql_findPayoutByExternalID x (s\<lparr>pg_world := d\<rparr>) = (Inl e, s')"
    by (rule_tac find_stmt.round_trip_error) auto
  then have "find (\<lambda>r. rExternalID r = Some x) (tbl_payouts s) = None"
    by (auto simp: sql_findPayoutByExternalID_def split: option.splits)
  then show ?thesis
    using assms(2) by (auto simp: find_None_iff store_of_def dest: find_key [of rID])
qed

lemma repo_update_answer:
  assumes "PayoutRepo_UpdatePayoutState E i u s = (Inr p, s')"
  obtains q t where "store_of s i = Some q" and "store_of s' = (store_of s)(i \<mapsto> p)"
    and "p = q\<lparr>pState := upState u, pProvider := upProvider u, pExternalID := upExternalID u,
              pUpdatedAt := t\<rparr>"
proof -
  from assms obtain row d where "sql_updatePayoutState E
      \<lparr>quState = upState u, quExternalID = upExternalID u,
       quProvider = provider_param (upProvider u), quID = i\<rparr> (s\<lparr>pg_world := d\<rparr>) = (Inr row, s')"
    and p: "p = toDomainPayout row"
    unfolding PayoutRepo_UpdatePayoutState_def Queries_UpdatePayoutState_def row_or_not_found_Inr
    by (auto elim!: update_stmt.round_trip_answer)
  then obtain t d' where "sql_update_row i
      (\<lambda>r. r\<lparr>rState := upState u, rExternalID := upExternalID u,
             rProvider := provider_param (upProvider u), rUpdatedAt := t\<rparr>)
      (s\<lparr>pg_world := d'\<rparr>) = (Inr row, s')"
    by (auto simp: sql_updatePayoutState_def split: prod.splits)
  then show thesis
    by (rule sql_update_row_answer)
      (auto simp: p toDomainPayout_def dest: store_of_find intro!: that [of _ t])
qed

lemma repo_cancel_answer:
  assumes "PayoutRepo_CancelPayout E i cs s = (Inr p, s')"
  obtains q t where "store_of s i = Some q" and "pState q \<in> set cs"
    and "store_of s' = (store_of s)(i \<mapsto> p)"
    and "p = q\<lparr>pState := PayoutStateCanceled, pUpdatedAt := t\<rparr>"
proof -
  from assms obtain row d where
    "sql_cancelPayoutIfCancelable E i cs (s\<lparr>pg_world := d\<rparr>) = (Inr row, s')"
    and p: "p = toDomainPayout row"
    unfolding PayoutRepo_CancelPayout_def Queries_CancelPayoutIfCancelable_def row_or_not_found_Inr
    by (auto elim!: cancel_stmt.round_trip_answer)
  then obtain r t d' where r: "find (\<lambda>r. rID r = i) (tbl_payouts s) = Some r" "rState r \<in> set cs"
    and "sql_update_row i (\<lambda>r. r\<lparr>rState := ''canceled'', rUpdatedAt := t\<rparr>) (s\<lparr>pg_world := d'\<rparr>)
       = (Inr row, s')"
    by (auto simp: sql_cancelPayoutIfCancelable_def Let_def
        split: prod.splits option.splits if_splits)
  from this(3) show thesis
    by (rule sql_update_row_answer)
      (use r in \<open>auto simp: p toDomainPayout_def dest: store_of_find intro!: that [of _ t]\<close>)
qed

interpretation repo: payout_repository tables_ok store_of "PayoutRepo_CreatePayout E"
    "PayoutRepo_GetPayout E" "PayoutRepo_UpdatePayoutState E" "PayoutRepo_CancelPayout E"
    "PayoutRepo_FindByExternalID E" for E :: "'d pg_env"
proof unfold_locales
  fix s s' :: "'d pg" and c i u cs x p
  show "tables_ok s \<Longrightarrow> tables_ok (snd (PayoutRepo_CreatePayout E c s))"
    "tables_ok s \<Longrightarrow> tables_ok (snd (PayoutRepo_GetPayout E i s))"
    "tables_ok s \<Longrightarrow> tables_ok (snd (PayoutRepo_UpdatePayoutState E i u s))"
    "tables_ok s \<Longrightarrow> tables_ok (snd (PayoutRepo_CancelPayout E i cs s))"
    "tables_ok s \<Longrightarrow> tables_ok (snd (PayoutRepo_FindByExternalID E x s))"
    using PayoutRepo_db_le unfolding db_le_def by blast+
  show "PayoutRepo_UpdatePayoutState E i u s = (Inr p, s') \<Longrightarrow>
      \<exists>q t. store_of s i = Some q \<and> store_of s' = (store_of s)(i \<mapsto> p) \<and>
        p = q\<lparr>pState := upState u, pProvider := upProvider u, pExternalID := upExternalID u,
              pUpdatedAt := t\<rparr>"
    by (erule repo_update_answer) blast
  show "PayoutRepo_CancelPayout E i cs s = (Inr p, s') \<Longrightarrow>
      \<exists>q t. store_of s i = Some q \<and> pState q \<in> set cs \<and> store_of s' = (store_of s)(i \<mapsto> p) \<and>
        p = q\<lparr>pState := PayoutStateCanceled, pUpdatedAt := t\<rparr>"
    by (erule repo_cancel_answer) blast
qed (simp_all add: store_of_id repo_create_answer repo_get_answer repo_get_missing
      repo_find_answer repo_find_missing same_tables_store [OF PayoutRepo_reads(1)]
      same_tables_store [OF PayoutRepo_reads(2)])

section \<open>Transactions are atomic\<close>

lemma RunInTx_committed:
  assumes "RunInTx E fn r0 s = ((None, r), s')"
  obtains d s1 where "fn (s\<lparr>pg_world := d\<rparr>) = ((None, r), s1)" and "same_tables s1 s'"
  using assms by (auto simp: RunInTx_def Let_def rollback_def
      split: prod.splits delivery.splits option.splits)

lemma RunInTx_fn_error:
  assumes "RunInTx E fn r0 s = ((Some e, r), s')"
    and "\<And>c m. e \<noteq> ErrWrap ''begin tx'' (PgError c m)" "\<And>c m. e \<noteq> ErrWrap ''commit tx'' (PgError c m)"
  obtains d s1 where "fn (s\<lparr>pg_world := d\<rparr>) = ((Some e, r), s1)" and "same_tables s s'"
  using assms by (auto simp: RunInTx_def Let_def rollback_def same_tables_def
      split: prod.splits delivery.splits option.splits)

lemma RunInTx_outcome:
  "let out = RunInTx E fn r0 s in
    (same_tables s (snd out) \<and> (\<exists>e. fst (fst out) = Some e)) \<or>
    (\<exists>d r s1. fn (s\<lparr>pg_world := d\<rparr>) = ((None, r), s1) \<and> same_tables s1 (snd out) \<and>
       (fst out = (None, r) \<or>
        (\<exists>c m. fst out = (Some (ErrWrap ''commit tx'' (PgError c m)), r))))"
proof -
  obtain net d0 where b0: "pg_net E (pg_world s) = (net, d0)" by (cases "pg_net E (pg_world s)")
  obtain err r s1 where fn: "fn (s\<lparr>pg_world := d0\<rparr>) = ((err, r), s1)"
    by (metis prod.collapse)
  obtain net' d1 where b1: "pg_net E (pg_world s1) = (net', d1)"
    by (cases "pg_net E (pg_world s1)")
  note run = RunInTx_def b0 fn b1 prod.case Let_def rollback_def same_tables_def
  show ?thesis
  proof (cases net)
    case net: Delivered
    show ?thesis
    proof (cases err)
      case None
      with fn have "\<exists>d. fn (s\<lparr>pg_world := d\<rparr>) = ((None, r), s1)" by blast
      then show ?thesis
        using net None by (cases net') (fastforce simp: run)+
    qed (use net in \<open>simp add: run\<close>)
  qed (simp_all add: run)
qed

text \<open>
  C11: \<open>RunInTx\<close> is all or nothing. Whatever the closure and the server do, the tables afterwards
  are those before the transaction or those the closure left when it ended without an error; if the
  closure returned an error, or the transaction could not begin, they are those before; and if
  \<open>RunInTx\<close> returns nil they are those the closure left.
\<close>

theorem RunInTx_atomic:
  "let out = RunInTx E fn r0 s in
    (same_tables s (snd out) \<and> (\<exists>e. fst (fst out) = Some e)) \<or>
    (\<exists>d r s1. fn (s\<lparr>pg_world := d\<rparr>) = ((None, r), s1) \<and> same_tables s1 (snd out) \<and>
       (fst out = (None, r) \<or>
        (\<exists>c m. fst out = (Some (ErrWrap ''commit tx'' (PgError c m)), r))))"
  by (rule RunInTx_outcome)

end
