(* ===== verification/PayoutService.thy ===== *)
theory PayoutService
  imports Orchestrator PayoutRepo
begin

text \<open>
  \<open>services/orchestrator/internal/grpc/payout_service.go\<close>: the four handlers of the orchestrator's
  gRPC service over the repository, the transaction runner and the provider orchestrator. The state
  is the database and the orchestrator's state; logging has no effect on either and is left out.
\<close>

section \<open>Server, requests, responses\<close>

text \<open>The UUID package's two functions are parameters: parsing fails or gives an id.\<close>

record ('c, 'p, 'd) service_env =
  sePg :: "'d pg_env"
  seRails :: "('c, 'p) rails_env"
  seParse :: "string \<Rightarrow> uuid option"
  seString :: "uuid \<Rightarrow> string"

text \<open>\<open>s.orchestrator\<close> may be nil.\<close>

type_synonym 'c payout_server = "'c orchestrator option"

record ('p, 'd) service_state =
  ssPg :: "'d pg"
  ssOrch :: "'p orch_state"

record create_request =
  crIdempotencyKey :: string
  crRequestHash :: string
  crAmount :: int
  crCurrency :: string
  crRail :: string

record create_response =
  caPayoutId :: string
  caStatus :: string

record get_response =
  gaPayoutId :: string
  gaStatus :: string
  gaAmount :: int
  gaCurrency :: string
  gaProvider :: string
  gaRail :: string
  gaExternalId :: string

record tx_result =
  txNewPayout :: payout
  txExistingKey :: idempotency_key
  txInserted :: bool

definition zero_tx_result :: tx_result where
  "zero_tx_result = \<lparr>txNewPayout = zero_payout, txExistingKey = zero_key, txInserted = False\<rparr>"

section \<open>Sending after the payout is stored\<close>

definition sendPayoutWithOrchestrator ::
    "('c, 'p, 'd) service_env \<Rightarrow> 'c payout_server \<Rightarrow> payout \<Rightarrow> ('p, 'd) service_state \<Rightarrow>
     payout \<times> ('p, 'd) service_state" where
  "sendPayoutWithOrchestrator V srv payout s =
     (case srv of
        None \<Rightarrow>
          (case PayoutRepo_UpdatePayoutState (sePg V) (pID payout)
              \<lparr>upState = PayoutStateFailed, upExternalID = None, upProvider = []\<rparr> (ssPg s) of
             (Inl updateErr, db) \<Rightarrow> (zero_payout, s\<lparr>ssPg := db\<rparr>)
           | (Inr updated, db) \<Rightarrow> (updated, s\<lparr>ssPg := db\<rparr>))
      | Some orc \<Rightarrow>
          (case SendPayoutWithFallback (seRails V) orc payout (ssOrch s) of (result, o1) \<Rightarrow>
             let s1 = s\<lparr>ssOrch := o1\<rparr> in
             if srSuccess result
             then (case PayoutRepo_UpdatePayoutState (sePg V) (pID payout)
                     \<lparr>upState = PayoutStateSent, upExternalID = Some (srExternalID result),
                      upProvider = srUsedProvider result\<rparr> (ssPg s1) of
                     (Inl err, db) \<Rightarrow> (payout, s1\<lparr>ssPg := db\<rparr>)
                   | (Inr updated, db) \<Rightarrow> (updated, s1\<lparr>ssPg := db\<rparr>))
             else
               let lastProvider = (if srTriedProviders result \<noteq> [] then last (srTriedProviders result)
                                   else [])
               in (case PayoutRepo_UpdatePayoutState (sePg V) (pID payout)
                      \<lparr>upState = PayoutStateFailed, upExternalID = None,
                       upProvider = lastProvider\<rparr> (ssPg s1) of
                     (Inl err, db) \<Rightarrow> (payout, s1\<lparr>ssPg := db\<rparr>)
                   | (Inr updated, db) \<Rightarrow> (updated, s1\<lparr>ssPg := db\<rparr>))))"

section \<open>CreatePayout\<close>

text \<open>
  The closure given to \<open>RunInTx\<close>; it assigns the captured \<open>result\<close> once both statements have been
  answered.
\<close>

definition create_tx ::
    "'d pg_env \<Rightarrow> create_request \<Rightarrow> 'd pg \<Rightarrow> (go_error option \<times> tx_result) \<times> 'd pg" where
  "create_tx E req db =
     (case PayoutRepo_CreatePayout E
         \<lparr>cpState = PayoutStateCreated, cpAmountCents = crAmount req, cpCurrency = crCurrency req,
          cpRail = crRail req, cpProvider = [], cpExternalID = None\<rparr> db of
        (Inl err, db1) \<Rightarrow> ((Some err, zero_tx_result), db1)
      | (Inr payout, db1) \<Rightarrow>
          (case IdempotencyRepo_TryInsertIdempotencyKey E (crIdempotencyKey req) (crRequestHash req)
                 (pID payout) db1 of
             (Inl err, db2) \<Rightarrow> ((Some err, zero_tx_result), db2)
           | (Inr (key, inserted), db2) \<Rightarrow>
               ((if inserted then None else Some ErrIdempotencyKeyExists,
                \<lparr>txNewPayout = payout, txExistingKey = key, txInserted = inserted\<rparr>), db2)))"

definition Service_CreatePayout ::
    "('c, 'p, 'd) service_env \<Rightarrow> 'c payout_server \<Rightarrow> create_request \<Rightarrow> ('p, 'd) service_state \<Rightarrow>
     create_response result \<times> ('p, 'd) service_state" where
  "Service_CreatePayout V srv req s =
     (if crIdempotencyKey req = []
      then (Inl (StatusError GrpcInvalidArgument ''idempotency_key is required''), s)
      else if crRequestHash req = []
      then (Inl (StatusError GrpcInvalidArgument ''request_hash is required''), s)
      else
        (case RunInTx (sePg V) (create_tx (sePg V) req) zero_tx_result (ssPg s) of
           ((txErr, result), db1) \<Rightarrow>
             let s1 = s\<lparr>ssPg := db1\<rparr> in
             (case txErr of
                None \<Rightarrow>
                  (case sendPayoutWithOrchestrator V srv (txNewPayout result) s1 of (payout, s2) \<Rightarrow>
                     (Inr \<lparr>caPayoutId = seString V (pID payout), caStatus = pState payout\<rparr>, s2))
              | Some e \<Rightarrow>
                  if errors_Is e ErrIdempotencyKeyExists
                  then
                    if kRequestHash (txExistingKey result) \<noteq> crRequestHash req
                    then (Inl (StatusError GrpcAlreadyExists CodeIdempotencyConflict), s1)
                    else
                      (case PayoutRepo_GetPayout (sePg V) (kPayoutID (txExistingKey result)) db1 of
                         (Inl err, db2) \<Rightarrow>
                           (Inl (StatusError GrpcInternal (''fetch existing payout: '' @ err_text err)),
                            s1\<lparr>ssPg := db2\<rparr>)
                       | (Inr existing, db2) \<Rightarrow>
                           (Inr \<lparr>caPayoutId = seString V (pID existing), caStatus = pState existing\<rparr>,
                            s1\<lparr>ssPg := db2\<rparr>))
                  else (Inl (StatusError GrpcInternal (''create payout: '' @ err_text e)), s1))))"

section \<open>GetPayout\<close>

definition Service_GetPayout ::
    "('c, 'p, 'd) service_env \<Rightarrow> string \<Rightarrow> ('p, 'd) service_state \<Rightarrow>
     get_response result \<times> ('p, 'd) service_state" where
  "Service_GetPayout V payout_id s =
     (if payout_id = []
      then (Inl (StatusError GrpcInvalidArgument ''payout_id is required''), s)
      else
        (case seParse V payout_id of
           None \<Rightarrow> (Inl (StatusError GrpcInvalidArgument CodeInvalidUUID), s)
         | Some i \<Rightarrow>
             (case PayoutRepo_GetPayout (sePg V) i (ssPg s) of
                (Inl err, db) \<Rightarrow>
                  (Inl (if errors_Is err ErrNotFound then StatusError GrpcNotFound CodeNotFound
                        else StatusError GrpcInternal (''get payout: '' @ err_text err)),
                   s\<lparr>ssPg := db\<rparr>)
              | (Inr payout, db) \<Rightarrow>
                  (Inr \<lparr>gaPayoutId = seString V (pID payout), gaStatus = pState payout,
                        gaAmount = pAmountCents payout, gaCurrency = pCurrency payout,
                        gaProvider = pProvider payout, gaRail = pRail payout,
                        gaExternalId = (case pExternalID payout of None \<Rightarrow> [] | Some x \<Rightarrow> x)\<rparr>,
                   s\<lparr>ssPg := db\<rparr>))))"

section \<open>CancelPayout\<close>

definition cancelableStates :: "payout_state list" where
  "cancelableStates =
     [PayoutStateCreated, PayoutStateQueued, PayoutStateSent, PayoutStatePending]"

text \<open>A failed cancellation at the provider is logged and otherwise ignored.\<close>

definition Service_CancelPayout ::
    "('c, 'p, 'd) service_env \<Rightarrow> 'c payout_server \<Rightarrow> string \<Rightarrow> ('p, 'd) service_state \<Rightarrow>
     bool result \<times> ('p, 'd) service_state" where
  "Service_CancelPayout V srv payout_id s =
     (if payout_id = []
      then (Inl (StatusError GrpcInvalidArgument ''payout_id is required''), s)
      else
        (case seParse V payout_id of
           None \<Rightarrow> (Inl (StatusError GrpcInvalidArgument CodeInvalidUUID), s)
         | Some i \<Rightarrow>
             (case PayoutRepo_GetPayout (sePg V) i (ssPg s) of
                (Inl err, db) \<Rightarrow>
                  (Inl (if errors_Is err ErrNotFound then StatusError GrpcNotFound CodeNotFound
                        else StatusError GrpcInternal (''get payout: '' @ err_text err)),
                   s\<lparr>ssPg := db\<rparr>)
              | (Inr payout, db) \<Rightarrow>
                  if pState payout \<notin> set cancelableStates
                  then (Inl (StatusError GrpcFailedPrecondition
                          (CodeInvalidState @ '': payout cannot be canceled in state '' @
                           go_quote (pState payout))), s\<lparr>ssPg := db\<rparr>)
                  else
                    let o1 = (case srv of
                                None \<Rightarrow> ssOrch s
                              | Some orc \<Rightarrow>
                                  if pProvider payout \<noteq> []
                                  then snd (Orchestrator_CancelPayout (seRails V) orc payout (ssOrch s))
                                  else ssOrch s)
                    in (case PayoutRepo_CancelPayout (sePg V) i cancelableStates db of
                          (Inl err, db2) \<Rightarrow>
                            (Inl (StatusError GrpcInternal (''cancel payout: '' @ err_text err)),
                             \<lparr>ssPg = db2, ssOrch = o1\<rparr>)
                        | (Inr _, db2) \<Rightarrow> (Inr True, \<lparr>ssPg = db2, ssOrch = o1\<rparr>)))))"

section \<open>ApplyProviderUpdate\<close>

definition mapProviderStatusToState :: "string \<Rightarrow> payout_state result" where
  "mapProviderStatusToState providerStatus =
     (if providerStatus = ''payout_succeeded'' then Inr PayoutStateCompleted
      else if providerStatus = ''payout_failed'' then Inr PayoutStateFailed
      else if providerStatus = ''payout_canceled'' then Inr PayoutStateCanceled
      else Inl (ErrText (''unknown provider status: '' @ providerStatus)))"

definition findPayoutByExternalIDOrID ::
    "('c, 'p, 'd) service_env \<Rightarrow> string \<Rightarrow> 'd pg \<Rightarrow> payout result \<times> 'd pg" where
  "findPayoutByExternalIDOrID V ref db =
     (case PayoutRepo_FindByExternalID (sePg V) ref db of
        (Inr payout, db1) \<Rightarrow> (Inr payout, db1)
      | (Inl err, db1) \<Rightarrow>
          (case seParse V ref of
             None \<Rightarrow> (Inl (StatusError GrpcNotFound (''payout '' @ ref @ '' not found'')), db1)
           | Some i \<Rightarrow>
               (case PayoutRepo_GetPayout (sePg V) i db1 of
                  (Inl err, db2) \<Rightarrow>
                    (Inl (if errors_Is err ErrNotFound
                          then StatusError GrpcNotFound (''payout '' @ ref @ '' not found'')
                          else StatusError GrpcInternal (''get payout: '' @ err_text err)), db2)
                | (Inr payout, db2) \<Rightarrow> (Inr payout, db2))))"

definition Service_ApplyProviderUpdate ::
    "('c, 'p, 'd) service_env \<Rightarrow> string \<Rightarrow> string \<Rightarrow> ('p, 'd) service_state \<Rightarrow>
     bool result \<times> ('p, 'd) service_state" where
  "Service_ApplyProviderUpdate V payout_id provider_status s =
     (if payout_id = []
      then (Inl (StatusError GrpcInvalidArgument ''payout_id is required''), s)
      else
        (case findPayoutByExternalIDOrID V payout_id (ssPg s) of
           (Inl err, db1) \<Rightarrow> (Inl err, s\<lparr>ssPg := db1\<rparr>)
         | (Inr payout, db1) \<Rightarrow>
             (case mapProviderStatusToState provider_status of
                Inl err \<Rightarrow>
                  (Inl (StatusError GrpcInvalidArgument (''unknown provider status: '' @ provider_status)),
                   s\<lparr>ssPg := db1\<rparr>)
              | Inr newState \<Rightarrow>
                  (case PayoutRepo_UpdatePayoutState (sePg V) (pID payout)
                      \<lparr>upState = newState, upExternalID = pExternalID payout,
                       upProvider = pProvider payout\<rparr> db1 of
                     (Inl err, db2) \<Rightarrow>
                       (Inl (StatusError GrpcInternal (''update payout state: '' @ err_text err)),
                        s\<lparr>ssPg := db2\<rparr>)
                   | (Inr updated, db2) \<Rightarrow> (Inr True, s\<lparr>ssPg := db2\<rparr>)))))"

end
