(* ===== verification/ServiceLaws.thy ===== *)
theory ServiceLaws
  imports PayoutService
begin

text \<open>
  What the handlers of \<open>payout_service.go\<close> do to the database, on any connection and on a reliable
  one: each is a step of the database, the transaction of CreatePayout ends in one of four ways, and
  the repository answers in full where no round trip is lost.
\<close>

section \<open>What a round trip on a reliable connection does\<close>

definition reliable :: "'d pg_env \<Rightarrow> bool" where
  "reliable E \<longleftrightarrow> (\<forall>d. fst (pg_net E d) = Delivered)"

lemma round_trip_reliable:
  "reliable E \<Longrightarrow> round_trip E stmt s = stmt (s\<lparr>pg_world := snd (pg_net E (pg_world s))\<rparr>)"
proof -
  assume "reliable E"
  then obtain d where "pg_net E (pg_world s) = (Delivered, d)"
    by (metis reliable_def prod.collapse)
  then show ?thesis by (simp add: round_trip_def Let_def)
qed

section \<open>Every handler is a step of the database\<close>

lemma RunInTx_cases:
  obtains (failed) e r where "fst (RunInTx E fn r0 s) = (Some e, r)"
      and "same_tables s (snd (RunInTx E fn r0 s))"
  | (committed) d r s1 err where "fn (s\<lparr>pg_world := d\<rparr>) = ((None, r), s1)"
      and "same_tables s1 (snd (RunInTx E fn r0 s))"
      and "fst (RunInTx E fn r0 s) = (err, r)"
      and "err = None \<or> (\<exists>c m. err = Some (ErrWrap ''commit tx'' (PgError c m)))"
proof -
  obtain err r where out: "fst (RunInTx E fn r0 s) = (err, r)" by (metis prod.collapse)
  show thesis
    using RunInTx_outcome [of E fn r0 s] out failed [of _ r] committed [of _ r _ err]
    by (auto simp: Let_def)
qed

lemma trykey_db_le: "db_le s (snd (IdempotencyRepo_TryInsertIdempotencyKey E k h p s))"
proof -
  obtain r1 s1 where t: "round_trip E (sql_tryInsertIdempotencyKey E k h p) s = (r1, s1)"
    by (cases "round_trip E (sql_tryInsertIdempotencyKey E k h p) s")
  obtain r2 s2 where g: "round_trip E (sql_getIdempotencyKey k) s1 = (r2, s2)"
    by (cases "round_trip E (sql_getIdempotencyKey k) s1")
  have "db_le s (snd (round_trip E (sql_tryInsertIdempotencyKey E k h p) s))"
    by (rule trykey_stmt.round_trip_db_le)
  then have "db_le s s1" using t by simp
  moreover have "db_le s1 (snd (round_trip E (sql_getIdempotencyKey k) s1))"
    by (rule getkey_stmt.round_trip_db_le)
  then have "db_le s1 s2" using g by simp
  ultimately have "db_le s s1" "db_le s s2" by (auto intro: db_le_trans)
  then show ?thesis
    by (auto simp: IdempotencyRepo_TryInsertIdempotencyKey_def Queries_TryInsertIdempotencyKey_def
        Queries_GetIdempotencyKey_def t g split: sum.split intro: db_le_trans)
qed

lemma create_tx_db_le: "db_le db (snd (create_tx E req db))"
proof -
  let ?c = "\<lparr>cpState = PayoutStateCreated, cpAmountCents = crAmount req, cpCurrency = crCurrency req,
      cpRail = crRail req, cpProvider = [], cpExternalID = None\<rparr>"
  obtain r1 db1 where c: "PayoutRepo_CreatePayout E ?c db = (r1, db1)"
    by (cases "PayoutRepo_CreatePayout E ?c db")
  have 1: "db_le db db1" using PayoutRepo_db_le(1) [of db E ?c] c by simp
  show ?thesis
  proof (cases r1)
    case (Inr p)
    obtain r2 db2 where t: "IdempotencyRepo_TryInsertIdempotencyKey E (crIdempotencyKey req)
        (crRequestHash req) (pID p) db1 = (r2, db2)"
      by (cases "IdempotencyRepo_TryInsertIdempotencyKey E (crIdempotencyKey req)
        (crRequestHash req) (pID p) db1")
    have "db_le db1 db2" using trykey_db_le [of db1] t by (metis snd_conv)
    with 1 have "db_le db db2" by (rule db_le_trans)
    then show ?thesis by (simp add: create_tx_def c Inr t split: sum.split prod.split)
  qed (use 1 in \<open>simp add: create_tx_def c\<close>)
qed

lemma RunInTx_create_db_le: "db_le db (snd (RunInTx E (create_tx E req) r0 db))"
proof (cases rule: RunInTx_cases [of E "create_tx E req" r0 db])
  case (committed d r s1 err)
  have "db_le db (db\<lparr>pg_world := d\<rparr>)" by (rule same_tables_db_le) simp
  also have "db_le (db\<lparr>pg_world := d\<rparr>) s1"
    using create_tx_db_le [of "db\<lparr>pg_world := d\<rparr>" E req] committed(1) by simp
  also have "db_le s1 (snd (RunInTx E (create_tx E req) r0 db))"
    using committed(2) by (rule same_tables_db_le)
  finally show ?thesis .
qed (rule same_tables_db_le)

text \<open>
  Sending ends with one update of the payout: what it writes, what is reported where it is not
  answered, and the orchestrator's state by then.
\<close>

definition send_outcome ::
    "('c, 'p, 'd) service_env \<Rightarrow> 'c payout_server \<Rightarrow> payout \<Rightarrow> 'p orch_state \<Rightarrow>
     update_payout_params \<times> payout \<times> 'p orch_state" where
  "send_outcome V srv payout o0 =
     (case srv of
        None \<Rightarrow> (\<lparr>upState = PayoutStateFailed, upExternalID = None, upProvider = []\<rparr>, zero_payout, o0)
      | Some orc \<Rightarrow>
          (case SendPayoutWithFallback (seRails V) orc payout o0 of (result, o1) \<Rightarrow>
             (if srSuccess result
              then \<lparr>upState = PayoutStateSent, upExternalID = Some (srExternalID result),
                    upProvider = srUsedProvider result\<rparr>
              else \<lparr>upState = PayoutStateFailed, upExternalID = None,
                    upProvider = (if srTriedProviders result \<noteq> [] then last (srTriedProviders result)
                                  else [])\<rparr>, payout, o1)))"

lemma sendPayout_outcome:
  assumes "send_outcome V srv payout (ssOrch s) = (u, dflt, o1)"
    and "PayoutRepo_UpdatePayoutState (sePg V) (pID payout) u (ssPg s) = (res, db)"
  shows "sendPayoutWithOrchestrator V srv payout s =
     (case res of Inl err \<Rightarrow> dflt | Inr updated \<Rightarrow> updated, \<lparr>ssPg = db, ssOrch = o1\<rparr>)"
proof (cases srv)
  case None
  with assms show ?thesis
    by (cases res) (auto simp: sendPayoutWithOrchestrator_def send_outcome_def)
next
  case (Some orc)
  obtain result o2 where sent: "SendPayoutWithFallback (seRails V) orc payout (ssOrch s) = (result, o2)"
    by (cases "SendPayoutWithFallback (seRails V) orc payout (ssOrch s)")
  with assms Some show ?thesis
    by (cases res)
      (auto simp: sendPayoutWithOrchestrator_def send_outcome_def Let_def split: if_splits)
qed

lemma sendPayout_cases:
  obtains u dflt o1 res db where "send_outcome V srv payout (ssOrch s) = (u, dflt, o1)"
    and "PayoutRepo_UpdatePayoutState (sePg V) (pID payout) u (ssPg s) = (res, db)"
    and "sendPayoutWithOrchestrator V srv payout s =
      (case res of Inl err \<Rightarrow> dflt | Inr updated \<Rightarrow> updated, \<lparr>ssPg = db, ssOrch = o1\<rparr>)"
  by (metis prod.collapse sendPayout_outcome)

lemma sendPayout_db_le: "db_le (ssPg s) (ssPg (snd (sendPayoutWithOrchestrator V srv payout s)))"
proof (cases rule: sendPayout_cases [of V srv payout s])
  case (1 u dflt o1 res db)
  then show ?thesis
    using PayoutRepo_db_le(3) [of "ssPg s" "sePg V" "pID payout" u] by simp
qed

lemma Service_CreatePayout_db_le:
  "db_le (ssPg s) (ssPg (snd (Service_CreatePayout V srv req s)))"
proof -
  obtain e r db1 where t: "RunInTx (sePg V) (create_tx (sePg V) req) zero_tx_result (ssPg s) = ((e, r), db1)"
    by (metis prod.collapse)
  have 1: "db_le (ssPg s) db1"
    using RunInTx_create_db_le [of "ssPg s" "sePg V" req zero_tx_result] t by simp
  have get: "db_le (ssPg s) db2" if "PayoutRepo_GetPayout (sePg V) i db1 = (x, db2)" for i x db2
    using db_le_trans [OF 1 PayoutRepo_db_le(2) [of db1 "sePg V" i]] that by simp
  have send: "db_le (ssPg s) (ssPg s2)"
    if "sendPayoutWithOrchestrator V srv p (s\<lparr>ssPg := db1\<rparr>) = (x, s2)" for p x s2
    using db_le_trans [OF 1, of "ssPg s2"] sendPayout_db_le [of "s\<lparr>ssPg := db1\<rparr>" V srv p] that by simp
  show ?thesis
    using 1 get send
    by (auto simp: Service_CreatePayout_def t Let_def split: option.split prod.split sum.split)
qed

section \<open>The transaction of CreatePayout\<close>

text \<open>An error of the database driver: the server's or the connection's, or that no row came back.\<close>

definition db_error :: "go_error \<Rightarrow> bool" where
  "db_error e \<longleftrightarrow> e = ErrNoRows \<or> (\<exists>c m. e = PgError c m)"

lemma round_trip_db_error:
  assumes "round_trip E stmt s = (Inl e, s')" and "\<And>s e s'. stmt s = (Inl e, s') \<Longrightarrow> db_error e"
  shows "db_error e"
  using assms by (auto simp: round_trip_def Let_def db_error_def split: prod.splits delivery.splits)

lemma create_error:
  assumes "PayoutRepo_CreatePayout E c db = (Inl e, db')"
  shows "db_error e"
  using assms
  by (auto simp: PayoutRepo_CreatePayout_def Queries_CreatePayout_def split: prod.splits sum.splits
      elim!: round_trip_db_error)
    (auto simp: sql_createPayout_def Let_def db_error_def check_violation_def unique_violation_def
      split: prod.splits if_splits)

lemma create_row:
  assumes "PayoutRepo_CreatePayout E c db = (Inr p, db')"
  obtains row where "tbl_payouts db' = tbl_payouts db @ [row]" and "tbl_keys db' = tbl_keys db"
    and "p = toDomainPayout row" and "rID row \<notin> rID ` set (tbl_payouts db)"
proof -
  let ?arg = "\<lparr>qcState = cpState c, qcAmountCents = cpAmountCents c, qcCurrency = cpCurrency c,
      qcRail = cpRail c, qcProvider = provider_param (cpProvider c), qcExternalID = cpExternalID c\<rparr>"
  from assms obtain row where rt: "round_trip E (sql_createPayout E ?arg) db = (Inr row, db')"
    and p: "p = toDomainPayout row"
    by (auto simp: PayoutRepo_CreatePayout_def Queries_CreatePayout_def split: prod.splits sum.splits)
  from rt obtain d where "sql_createPayout E ?arg (db\<lparr>pg_world := d\<rparr>) = (Inr row, db')"
    by (rule create_stmt.round_trip_answer)
  then show thesis
    by (intro that [of row])
      (auto simp: sql_createPayout_def Let_def p split: prod.splits if_splits)
qed

lemma trykey_answer:
  assumes "IdempotencyRepo_TryInsertIdempotencyKey E k h i db = (Inr (key, inserted), db')"
  obtains (inserted) row where "inserted" and "k \<notin> ikKey ` set (tbl_keys db)"
      and "tbl_keys db' = tbl_keys db @ [row]" and "tbl_payouts db' = tbl_payouts db"
      and "ikKey row = k \<and> ikRequestHash row = h \<and> ikPayoutID row = i"
      and "key = toDomainIdempotencyKey row"
  | (existing) row where "\<not> inserted" and "row \<in> set (tbl_keys db)" and "ikKey row = k"
      and "key = toDomainIdempotencyKey row"
proof -
  obtain r1 db1 where t: "round_trip E (sql_tryInsertIdempotencyKey E k h i) db = (r1, db1)"
    by (cases "round_trip E (sql_tryInsertIdempotencyKey E k h i) db")
  note def = IdempotencyRepo_TryInsertIdempotencyKey_def Queries_TryInsertIdempotencyKey_def
    Queries_GetIdempotencyKey_def t
  show thesis
  proof (cases r1)
    case (Inr row)
    with t obtain d where "sql_tryInsertIdempotencyKey E k h i (db\<lparr>pg_world := d\<rparr>) = (Inr row, db1)"
      by (metis trykey_stmt.round_trip_answer)
    then show thesis
      using assms Inr
      by (intro inserted [of row])
        (auto simp: def sql_tryInsertIdempotencyKey_def Let_def split: prod.splits if_splits)
  next
    case (Inl err)
    obtain r2 db2 where g: "round_trip E (sql_getIdempotencyKey k) db1 = (r2, db2)"
      by (cases "round_trip E (sql_getIdempotencyKey k) db1")
    from assms Inl obtain row where e: "errors_Is err ErrNoRows" and r2: "r2 = Inr row"
      and key: "key = toDomainIdempotencyKey row" "\<not> inserted"
      by (auto simp: def g split: if_splits sum.splits)
    have "err \<noteq> PgError c m" for c m using e by auto
    with t Inl obtain d where "sql_tryInsertIdempotencyKey E k h i (db\<lparr>pg_world := d\<rparr>) = (Inl err, db1)"
      by (metis trykey_stmt.round_trip_error)
    then have keys: "tbl_keys db1 = tbl_keys db"
      by (auto simp: sql_tryInsertIdempotencyKey_def Let_def split: prod.splits if_splits)
    from g r2 obtain d' where "sql_getIdempotencyKey k (db1\<lparr>pg_world := d'\<rparr>) = (Inr row, db2)"
      by (metis getkey_stmt.round_trip_answer)
    then have "row \<in> set (tbl_keys db)" "ikKey row = k"
      using keys by (auto simp: sql_getIdempotencyKey_def find_Some_iff split: option.splits)
    with key show thesis by (intro existing)
  qed
qed

lemma trykey_error:
  assumes "IdempotencyRepo_TryInsertIdempotencyKey E k h i db = (Inl e, db')"
  shows "db_error e"
proof -
  obtain r1 db1 where t: "round_trip E (sql_tryInsertIdempotencyKey E k h i) db = (r1, db1)"
    by (cases "round_trip E (sql_tryInsertIdempotencyKey E k h i) db")
  have "db_error err" if "r1 = Inl err" for err
    using t [unfolded that]
    by (rule round_trip_db_error)
      (auto simp: sql_tryInsertIdempotencyKey_def Let_def db_error_def split: prod.splits if_splits)
  moreover have "db_error err" if "round_trip E (sql_getIdempotencyKey k) db1 = (Inl err, db2)" for err db2
    using that
    by (rule round_trip_db_error) (auto simp: sql_getIdempotencyKey_def db_error_def split: option.splits)
  ultimately show ?thesis
    using assms
    by (auto simp: IdempotencyRepo_TryInsertIdempotencyKey_def Queries_TryInsertIdempotencyKey_def
        Queries_GetIdempotencyKey_def t split: sum.splits prod.splits if_splits)
qed

text \<open>How the closure ends: a new payout with its key, a key that exists, or a database error.\<close>

lemma create_tx_cases:
  assumes "create_tx E req db = ((err, r), db')"
  obtains (created) row krow where "err = None" and "txNewPayout r = toDomainPayout row"
      and "tbl_payouts db' = tbl_payouts db @ [row]" and "tbl_keys db' = tbl_keys db @ [krow]"
      and "rID row \<notin> rID ` set (tbl_payouts db)"
      and "crIdempotencyKey req \<notin> ikKey ` set (tbl_keys db)"
      and "ikKey krow = crIdempotencyKey req \<and> ikRequestHash krow = crRequestHash req \<and>
           ikPayoutID krow = rID row"
      and "pState (txNewPayout r) = PayoutStateCreated \<and> pAmountCents (txNewPayout r) = crAmount req \<and>
           pCurrency (txNewPayout r) = crCurrency req \<and> pRail (txNewPayout r) = crRail req \<and>
           pProvider (txNewPayout r) = [] \<and> pExternalID (txNewPayout r) = None"
  | (existing) krow where "err = Some ErrIdempotencyKeyExists" and "krow \<in> set (tbl_keys db)"
      and "ikKey krow = crIdempotencyKey req" and "txExistingKey r = toDomainIdempotencyKey krow"
  | (failed) e where "err = Some e" and "db_error e"
proof -
  let ?c = "\<lparr>cpState = PayoutStateCreated, cpAmountCents = crAmount req, cpCurrency = crCurrency req,
      cpRail = crRail req, cpProvider = [], cpExternalID = None\<rparr>"
  obtain r1 db1 where c: "PayoutRepo_CreatePayout E ?c db = (r1, db1)"
    by (cases "PayoutRepo_CreatePayout E ?c db")
  show thesis
  proof (cases r1)
    case (Inl e)
    then show thesis
      using assms create_error [of E ?c db e db1] failed [of e] by (auto simp: create_tx_def c)
  next
    case (Inr p)
    from c Inr obtain row where row: "tbl_payouts db1 = tbl_payouts db @ [row]"
      "tbl_keys db1 = tbl_keys db" "p = toDomainPayout row" "rID row \<notin> rID ` set (tbl_payouts db)"
      by (metis create_row)
    have fields: "pState p = PayoutStateCreated \<and> pAmountCents p = crAmount req \<and>
        pCurrency p = crCurrency req \<and> pRail p = crRail req \<and> pProvider p = [] \<and> pExternalID p = None"
      using repo_create_answer(3) [of E ?c db p db1] c Inr by simp
    obtain r2 db2 where t: "IdempotencyRepo_TryInsertIdempotencyKey E (crIdempotencyKey req)
        (crRequestHash req) (pID p) db1 = (r2, db2)"
      by (cases "IdempotencyRepo_TryInsertIdempotencyKey E (crIdempotencyKey req)
        (crRequestHash req) (pID p) db1")
    show thesis
    proof (cases r2)
      case (Inl e)
      then show thesis using assms trykey_error [of E _ _ _ db1 e db2] t failed [of e]
        by (auto simp: create_tx_def c Inr)
    next
      case r2: (Inr a)
      obtain key ins where a: "a = (key, ins)" by (cases a)
      have out: "err = (if ins then None else Some ErrIdempotencyKeyExists)" "txNewPayout r = p"
        "txExistingKey r = key" "db' = db2"
        using assms by (auto simp: create_tx_def c Inr t r2 a)
      from t [unfolded r2 a] show thesis
      proof (cases rule: trykey_answer)
        case (inserted krow)
        then show thesis using row fields out by (intro created [of row krow]) auto
      next
        case (existing krow)
        then show thesis using row out that(2) by auto
      qed
    qed
  qed
qed

text \<open>
  How \<open>RunInTx\<close> ends with this closure. The third case covers every failure of the database, the
  lost answer of a commit included, after which the payout and its key exist all the same.
\<close>

lemma RunInTx_create_cases:
  assumes "RunInTx E (create_tx E req) zero_tx_result db = ((err, r), db')"
  obtains (created) row krow where "err = None" and "txNewPayout r = toDomainPayout row"
      and "tbl_payouts db' = tbl_payouts db @ [row]" and "tbl_keys db' = tbl_keys db @ [krow]"
      and "rID row \<notin> rID ` set (tbl_payouts db)"
      and "crIdempotencyKey req \<notin> ikKey ` set (tbl_keys db)"
      and "ikKey krow = crIdempotencyKey req \<and> ikRequestHash krow = crRequestHash req \<and>
           ikPayoutID krow = rID row"
      and "pState (txNewPayout r) = PayoutStateCreated \<and> pAmountCents (txNewPayout r) = crAmount req \<and>
           pCurrency (txNewPayout r) = crCurrency req \<and> pRail (txNewPayout r) = crRail req \<and>
           pProvider (txNewPayout r) = [] \<and> pExternalID (txNewPayout r) = None"
  | (existing) krow where "err = Some ErrIdempotencyKeyExists" and "krow \<in> set (tbl_keys db)"
      and "ikKey krow = crIdempotencyKey req" and "txExistingKey r = toDomainIdempotencyKey krow"
      and "same_tables db db'"
  | (failed) e where "err = Some e" and "\<not> errors_Is e ErrIdempotencyKeyExists"
      and "same_tables db db'"
  | (lost) e row krow where "err = Some e" and "\<not> errors_Is e ErrIdempotencyKeyExists"
      and "tbl_payouts db' = tbl_payouts db @ [row]" and "tbl_keys db' = tbl_keys db @ [krow]"
      and "rID row \<notin> rID ` set (tbl_payouts db)"
      and "crIdempotencyKey req \<notin> ikKey ` set (tbl_keys db)"
      and "ikKey krow = crIdempotencyKey req \<and> ikRequestHash krow = crRequestHash req \<and>
           ikPayoutID krow = rID row"
      and "rState row = PayoutStateCreated"
      and "rAmountCents row = crAmount req \<and> rCurrency row = crCurrency req \<and> rRail row = crRail req"
proof -
  have dbe: "\<not> errors_Is e ErrIdempotencyKeyExists" if "db_error e" for e
    using that by (auto simp: db_error_def)
  obtain net d0 where b0: "pg_net E (pg_world db) = (net, d0)" by (cases "pg_net E (pg_world db)")
  show thesis
  proof (cases net)
    case net: Delivered
    obtain err1 r1 db1 where fn: "create_tx E req (db\<lparr>pg_world := d0\<rparr>) = ((err1, r1), db1)"
      by (metis prod.collapse)
    obtain net1 d1 where b1: "pg_net E (pg_world db1) = (net1, d1)" by (cases "pg_net E (pg_world db1)")
    note run = assms [unfolded RunInTx_def b0 net fn b1 prod.case Let_def delivery.case]
    from fn show thesis
    proof (cases rule: create_tx_cases)
      case c: (created row krow)
      show thesis
      proof (cases net1)
        case Delivered
        then show thesis using run c by (intro created [of row krow]) auto
      next
        case (LostBefore x m)
        then show thesis using run c
          by (intro failed [of "ErrWrap ''commit tx'' (PgError x m)"])
            (auto simp: rollback_def same_tables_def)
      next
        case (LostAfter x m)
        then show thesis using run c
          by (intro lost [of "ErrWrap ''commit tx'' (PgError x m)" row krow]) auto
      qed
    next
      case e: (existing krow)
      then show thesis using run
        by (intro existing [of krow]) (auto simp: rollback_def same_tables_def)
    next
      case f: (failed e)
      then show thesis using run dbe
        by (intro failed [of e]) (auto simp: rollback_def same_tables_def)
    qed
  next
    case (LostBefore x m)
    then show thesis using assms b0
      by (intro failed [of "ErrWrap ''begin tx'' (PgError x m)"])
        (auto simp: RunInTx_def Let_def same_tables_def)
  next
    case (LostAfter x m)
    then show thesis using assms b0
      by (intro failed [of "ErrWrap ''begin tx'' (PgError x m)"])
        (auto simp: RunInTx_def Let_def same_tables_def)
  qed
qed

text \<open>
  The same at the level of the handler, for a request with a key and a hash: it answers for an
  existing key, it fails without having stored or sent anything new, it fails after a commit whose
  answer was lost, or it stores the new payout and sends it.
\<close>

lemma CreatePayout_cases:
  assumes "crIdempotencyKey req \<noteq> []" and "crRequestHash req \<noteq> []"
    and "Service_CreatePayout V srv req s = (res, s')"
  obtains (sent) p0 row krow p db1 where
      "sendPayoutWithOrchestrator V srv (p0) (s\<lparr>ssPg := db1\<rparr>) = (p, s')"
      and "res = Inr \<lparr>caPayoutId = seString V (pID p), caStatus = pState p\<rparr>"
      and "p0 = toDomainPayout row"
      and "tbl_payouts db1 = tbl_payouts (ssPg s) @ [row]" and "tbl_keys db1 = tbl_keys (ssPg s) @ [krow]"
      and "rID row \<notin> rID ` set (tbl_payouts (ssPg s))"
      and "crIdempotencyKey req \<notin> ikKey ` set (tbl_keys (ssPg s))"
      and "ikKey krow = crIdempotencyKey req \<and> ikRequestHash krow = crRequestHash req \<and>
           ikPayoutID krow = rID row"
      and "pState (p0) = PayoutStateCreated \<and> pAmountCents (p0) = crAmount req \<and>
           pCurrency (p0) = crCurrency req \<and> pRail (p0) = crRail req \<and>
           pProvider (p0) = [] \<and> pExternalID (p0) = None"
  | (existing) krow m where "krow \<in> set (tbl_keys (ssPg s))" and "ikKey krow = crIdempotencyKey req"
      and "same_tables (ssPg s) (ssPg s')" and "ssOrch s' = ssOrch s"
      and "if ikRequestHash krow \<noteq> crRequestHash req
           then res = Inl (StatusError GrpcAlreadyExists CodeIdempotencyConflict)
           else res = Inl (StatusError GrpcInternal m) \<or>
             (\<exists>p. store_of (ssPg s) (ikPayoutID krow) = Some p \<and>
                res = Inr \<lparr>caPayoutId = seString V (pID p), caStatus = pState p\<rparr>)"
  | (failed) m where "res = Inl (StatusError GrpcInternal m)"
      and "same_tables (ssPg s) (ssPg s')" and "ssOrch s' = ssOrch s"
  | (lost) row krow m where "res = Inl (StatusError GrpcInternal m)" and "ssOrch s' = ssOrch s"
      and "tbl_payouts (ssPg s') = tbl_payouts (ssPg s) @ [row]"
      and "tbl_keys (ssPg s') = tbl_keys (ssPg s) @ [krow]"
      and "rID row \<notin> rID ` set (tbl_payouts (ssPg s))"
      and "crIdempotencyKey req \<notin> ikKey ` set (tbl_keys (ssPg s))"
      and "ikKey krow = crIdempotencyKey req \<and> ikRequestHash krow = crRequestHash req \<and>
           ikPayoutID krow = rID row"
      and "rState row = PayoutStateCreated"
proof -
  obtain err r db1 where t: "RunInTx (sePg V) (create_tx (sePg V) req) zero_tx_result (ssPg s) = ((err, r), db1)"
    by (metis prod.collapse)
  note run = assms(3) [unfolded Service_CreatePayout_def, simplified assms(1,2) t Let_def prod.case, simplified]
  from t show thesis
  proof (cases rule: RunInTx_create_cases)
    case (created row krow)
    obtain p s2 where send: "sendPayoutWithOrchestrator V srv (txNewPayout r) (s\<lparr>ssPg := db1\<rparr>) = (p, s2)"
      by (metis prod.collapse)
    then have "res = Inr \<lparr>caPayoutId = seString V (pID p), caStatus = pState p\<rparr>" "s2 = s'"
      using run created(1) by auto
    then show thesis
      using send created by (intro sent [of "txNewPayout r" db1 p row krow]) simp_all
  next
    case e: (existing krow)
    show thesis
    proof (cases "ikRequestHash krow = crRequestHash req")
      case False
      then show thesis using run e
        by (intro existing [of krow]) (auto simp: toDomainIdempotencyKey_def)
    next
      case True
      obtain r2 db2 where g: "PayoutRepo_GetPayout (sePg V) (ikPayoutID krow) db1 = (r2, db2)"
        by (cases "PayoutRepo_GetPayout (sePg V) (ikPayoutID krow) db1")
      have st: "store_of db1 = store_of (ssPg s)" using e(5) by (rule same_tables_store)
      have "same_tables db1 db2" using PayoutRepo_reads(1) [of db1 "sePg V" "ikPayoutID krow"] g by simp
      then have same: "same_tables (ssPg s) db2" using e(5) same_tables_trans by blast
      show thesis
      proof (cases r2)
        case (Inl x)
        then show thesis using run e True g same
          by (intro existing [of krow "''fetch existing payout: '' @ err_text x"])
            (auto simp: toDomainIdempotencyKey_def)
      next
        case (Inr p)
        then have "store_of (ssPg s) (ikPayoutID krow) = Some p"
          using repo_get_answer [of "sePg V" "ikPayoutID krow" db1 p db2] g st by simp
        then show thesis using run e True g same Inr
          by (intro existing [of krow]) (auto simp: toDomainIdempotencyKey_def)
      qed
    qed
  next
    case f: (failed e)
    then show thesis using run by (intro failed [of "''create payout: '' @ err_text e"]) auto
  next
    case l: (lost e row krow)
    then show thesis using run by (intro lost [of "''create payout: '' @ err_text e" row krow]) auto
  qed
qed

section \<open>The repository on a reliable connection\<close>

lemma store_row:
  assumes "store_of s i = Some q"
  obtains r where "find (\<lambda>r. rID r = i) (tbl_payouts s) = Some r" and "q = toDomainPayout r"
    and "r \<in> set (tbl_payouts s)" and "rID r = i"
proof -
  from assms obtain r where r: "find (\<lambda>r. rID r = i) (tbl_payouts s) = Some r" "q = toDomainPayout r"
    by (auto simp: store_of_def)
  then show thesis by (intro that [of r]) (auto simp: find_Some_iff)
qed

lemma repo_get_reliable:
  assumes "reliable E"
  obtains s' where "PayoutRepo_GetPayout E i s =
      (case store_of s i of None \<Rightarrow> Inl ErrNotFound | Some p \<Rightarrow> Inr p, s')" and "same_tables s s'"
  by (rule that [of "s\<lparr>pg_world := snd (pg_net E (pg_world s))\<rparr>"])
    (auto simp: PayoutRepo_GetPayout_def Queries_GetPayout_def round_trip_reliable [OF assms]
      sql_getPayout_def row_or_not_found_def store_of_def split: option.split)

lemma repo_find_reliable:
  assumes "reliable E" and "tables_ok s"
  obtains s' where "PayoutRepo_FindByExternalID E x s =
      (case find (\<lambda>r. rExternalID r = Some x) (tbl_payouts s) of
         None \<Rightarrow> Inl ErrNotFound | Some r \<Rightarrow> Inr (toDomainPayout r), s')" and "same_tables s s'"
  by (rule that [of "s\<lparr>pg_world := snd (pg_net E (pg_world s))\<rparr>"])
    (auto simp: PayoutRepo_FindByExternalID_def Queries_FindPayoutByExternalID_def
      round_trip_reliable [OF assms(1)] sql_findPayoutByExternalID_def row_or_not_found_def
      split: option.split)

text \<open>An update the constraints allow is answered.\<close>

lemma repo_update_reliable:
  assumes "reliable E" and ok: "tables_ok s" and q: "store_of s i = Some q"
    and "upState u \<in> set db_states" and "upProvider u = [] \<or> upProvider u \<in> set db_providers"
    and free: "\<And>j p. j \<noteq> i \<Longrightarrow> store_of s j = Some p \<Longrightarrow> upExternalID u \<noteq> None \<Longrightarrow>
      pExternalID p \<noteq> upExternalID u"
  obtains s' t where "PayoutRepo_UpdatePayoutState E i u s = (Inr (q\<lparr>pState := upState u,
      pProvider := upProvider u, pExternalID := upExternalID u, pUpdatedAt := t\<rparr>), s')"
    and "store_of s' = (store_of s)(i \<mapsto> q\<lparr>pState := upState u, pProvider := upProvider u,
      pExternalID := upExternalID u, pUpdatedAt := t\<rparr>)"
proof -
  obtain r where r: "find (\<lambda>r. rID r = i) (tbl_payouts s) = Some r" "r \<in> set (tbl_payouts s)"
    by (rule store_row [OF q])
  obtain t d where now: "pg_now E (snd (pg_net E (pg_world s))) = (t, d)"
    by (cases "pg_now E (snd (pg_net E (pg_world s)))")
  have "row_checks r" using ok r(2) by (simp add: tables_ok_def rows_ok_def)
  then have chk: "row_checks (r\<lparr>rState := upState u, rExternalID := upExternalID u,
      rProvider := provider_param (upProvider u), rUpdatedAt := t\<rparr>)"
    using assms(4,5) by (auto simp: row_checks_def provider_param_def)
  have "upExternalID u \<noteq> None \<Longrightarrow> c \<in> set (tbl_payouts s) \<Longrightarrow> rID c \<noteq> i \<Longrightarrow>
      rExternalID c \<noteq> upExternalID u" for c
    using free [of "rID c" "toDomainPayout c"] tables_ok_find [OF ok, of "rID c" c]
    by (simp add: store_of_def)
  then have ext: "\<not> ext_taken (filter (\<lambda>q. rID q \<noteq> i) (tbl_payouts s)) (upExternalID u)"
    by (auto simp: ext_taken_def image_iff)
  have "\<exists>p s'. PayoutRepo_UpdatePayoutState E i u s = (Inr p, s')"
    using chk ext
    by (simp add: PayoutRepo_UpdatePayoutState_def Queries_UpdatePayoutState_def
        round_trip_reliable [OF assms(1)] sql_updatePayoutState_def now sql_update_row_def r(1)
        row_or_not_found_def)
  then obtain p s' where upd: "PayoutRepo_UpdatePayoutState E i u s = (Inr p, s')" by blast
  from upd show thesis
  proof (rule repo_update_answer)
    fix q' t'
    assume "store_of s i = Some q'" "store_of s' = (store_of s)(i \<mapsto> p)"
      "p = q'\<lparr>pState := upState u, pProvider := upProvider u, pExternalID := upExternalID u,
              pUpdatedAt := t'\<rparr>"
    then show thesis using upd q that by simp
  qed
qed

text \<open>A provider that the CHECK constraint does not list, or an external id that is taken, makes it fail.\<close>

lemma repo_update_rejected:
  assumes "reliable E" and ok: "tables_ok s" and "store_of s i = Some q"
    and bad: "upProvider u \<noteq> [] \<and> upProvider u \<notin> set db_providers \<or>
      (\<exists>j p. j \<noteq> i \<and> store_of s j = Some p \<and> upExternalID u \<noteq> None \<and> pExternalID p = upExternalID u)"
  obtains e s' where "PayoutRepo_UpdatePayoutState E i u s = (Inl e, s')" and "same_tables s s'"
proof -
  obtain r where r: "find (\<lambda>r. rID r = i) (tbl_payouts s) = Some r"
    by (rule store_row [OF assms(3)])
  obtain t d where now: "pg_now E (snd (pg_net E (pg_world s))) = (t, d)"
    by (cases "pg_now E (snd (pg_net E (pg_world s)))")
  let ?row = "r\<lparr>rState := upState u, rExternalID := upExternalID u,
      rProvider := provider_param (upProvider u), rUpdatedAt := t\<rparr>"
  have "ext_taken (filter (\<lambda>q. rID q \<noteq> i) (tbl_payouts s)) (upExternalID u)"
    if "j \<noteq> i" "store_of s j = Some p" "upExternalID u \<noteq> None" "pExternalID p = upExternalID u" for j p
  proof -
    note given = that
    obtain c where "p = toDomainPayout c" "c \<in> set (tbl_payouts s)" "rID c = j"
      by (rule store_row [OF given(2)])
    then show ?thesis using given by (auto simp: ext_taken_def intro!: rev_image_eqI [of c])
  qed
  then have "\<not> row_checks ?row \<or> ext_taken (filter (\<lambda>q. rID q \<noteq> i) (tbl_payouts s)) (upExternalID u)"
    using bad by (auto simp: row_checks_def provider_param_def)
  then show thesis
    by (intro that [of "if \<not> row_checks ?row then check_violation else unique_violation" "s\<lparr>pg_world := d\<rparr>"])
      (auto simp: PayoutRepo_UpdatePayoutState_def Queries_UpdatePayoutState_def
        round_trip_reliable [OF assms(1)] sql_updatePayoutState_def now sql_update_row_def r
        row_or_not_found_def check_violation_def unique_violation_def)
qed

lemma store_valid:
  assumes "tables_ok s" and "store_of s i = Some q"
  shows "pProvider q = [] \<or> pProvider q \<in> set db_providers"
    and "j \<noteq> i \<Longrightarrow> store_of s j = Some p \<Longrightarrow> pExternalID q \<noteq> None \<Longrightarrow> pExternalID p \<noteq> pExternalID q"
proof -
  obtain r where r: "q = toDomainPayout r" "r \<in> set (tbl_payouts s)" "rID r = i"
    by (rule store_row [OF assms(2)])
  then have "row_checks r" using assms(1) by (simp add: tables_ok_def rows_ok_def)
  then show "pProvider q = [] \<or> pProvider q \<in> set db_providers"
    using r by (auto simp: row_checks_def split: option.splits)
  assume "j \<noteq> i" "store_of s j = Some p" "pExternalID q \<noteq> None"
  moreover obtain c where c: "p = toDomainPayout c" "c \<in> set (tbl_payouts s)" "rID c = j"
    by (rule store_row [OF \<open>store_of s j = Some p\<close>])
  ultimately show "pExternalID p \<noteq> pExternalID q"
    using r assms(1) unfolding tables_ok_def rows_ok_def by (metis toDomainPayout_simps(6))
qed

lemma repo_cancel_reliable:
  assumes "reliable E" and ok: "tables_ok s" and q: "store_of s i = Some q" and "pState q \<in> set cs"
  obtains s' t where "PayoutRepo_CancelPayout E i cs s =
      (Inr (q\<lparr>pState := PayoutStateCanceled, pUpdatedAt := t\<rparr>), s')"
    and "store_of s' = (store_of s)(i \<mapsto> q\<lparr>pState := PayoutStateCanceled, pUpdatedAt := t\<rparr>)"
proof -
  obtain r where r: "find (\<lambda>r. rID r = i) (tbl_payouts s) = Some r" "r \<in> set (tbl_payouts s)"
    "q = toDomainPayout r" "rID r = i"
    by (rule store_row [OF q])
  obtain t d where now: "pg_now E (snd (pg_net E (pg_world s))) = (t, d)"
    by (cases "pg_now E (snd (pg_net E (pg_world s)))")
  have "row_checks r" using ok r(2) by (simp add: tables_ok_def rows_ok_def)
  then have chk: "row_checks (r\<lparr>rState := ''canceled'', rUpdatedAt := t\<rparr>)"
    by (simp add: row_checks_def db_states_def)
  have ext: "\<not> ext_taken (filter (\<lambda>q. rID q \<noteq> i) (tbl_payouts s)) (rExternalID r)"
    using ok r(2,4) unfolding tables_ok_def rows_ok_def ext_taken_def by auto
  have "\<exists>p s'. PayoutRepo_CancelPayout E i cs s = (Inr p, s')"
    using chk ext assms(4) r(3)
    by (simp add: PayoutRepo_CancelPayout_def Queries_CancelPayoutIfCancelable_def
        round_trip_reliable [OF assms(1)] sql_cancelPayoutIfCancelable_def now sql_update_row_def r(1)
        row_or_not_found_def Let_def)
  then obtain p s' where upd: "PayoutRepo_CancelPayout E i cs s = (Inr p, s')" by blast
  from upd show thesis
    by (rule repo_cancel_answer) (use upd q that in simp)
qed

end
