(* ===== verification/ServiceProps.thy ===== *)
theory ServiceProps
  imports ServiceLaws
begin

text \<open>
  The properties of the four handlers of \<open>payout_service.go\<close>: idempotency of CreatePayout, its
  behaviour for a new key, and the full behaviour of the other three on a reliable connection.
\<close>

section \<open>A small server to apply the properties to\<close>

definition demo_pg :: "uuid pg_env" where
  "demo_pg = \<lparr>pg_net = (\<lambda>d. (Delivered, d)), pg_uuid = (\<lambda>d. (d, d + 1)), pg_now = (\<lambda>d. (5, d))\<rparr>"

definition demo_service :: "(nat, unit, uuid) service_env" where
  "demo_service = \<lparr>sePg = demo_pg, seRails = demo_rails,
     seParse = (\<lambda>x. if x = ''1'' then Some 1 else None), seString = (\<lambda>u. if u = 1 then ''1'' else ''?'')\<rparr>"

definition demo_row :: payout_row where
  "demo_row = \<lparr>rID = 1, rState = ''sent'', rAmountCents = 100, rCurrency = ''USD'', rRail = ''card'',
     rProvider = Some ''stripe'', rExternalID = Some ''ext-1'', rCreatedAt = 3, rUpdatedAt = 4\<rparr>"

definition demo_key :: key_row where
  "demo_key = \<lparr>ikKey = ''k'', ikRequestHash = ''h'', ikPayoutID = 1, ikCreatedAt = 3\<rparr>"

definition demo_state :: "(unit, uuid) service_state" where
  "demo_state = \<lparr>ssPg = \<lparr>tbl_payouts = [demo_row], tbl_keys = [demo_key], pg_world = 2\<rparr>,
     ssOrch = demo_orch_state\<rparr>"

definition demo_empty :: "(unit, uuid) service_state" where
  "demo_empty = \<lparr>ssPg = \<lparr>tbl_payouts = [], tbl_keys = [], pg_world = 1\<rparr>, ssOrch = demo_orch_state\<rparr>"

definition demo_request :: "string \<Rightarrow> create_request" where
  "demo_request hash = \<lparr>crIdempotencyKey = ''k'', crRequestHash = hash, crAmount = 100,
     crCurrency = ''USD'', crRail = ''card''\<rparr>"

lemma demo_tables_ok: "tables_ok (ssPg demo_state)"
  by (simp add: tables_ok_def rows_ok_def row_checks_def demo_state_def demo_row_def demo_key_def
      db_states_def db_rails_def db_providers_def)

lemma demo_reliable: "reliable (sePg demo_service)"
  by (simp add: reliable_def demo_service_def demo_pg_def)

section \<open>Idempotency of CreatePayout\<close>

text \<open>With distinct keys, the handler answers for the one row that has the key.\<close>

lemma CreatePayout_existing_key:
  assumes "tables_ok (ssPg s)" and krow: "krow \<in> set (tbl_keys (ssPg s))"
    "ikKey krow = crIdempotencyKey req" "crIdempotencyKey req \<noteq> []" "crRequestHash req \<noteq> []"
  obtains res s' m where "Service_CreatePayout V srv req s = (res, s')"
    and "same_tables (ssPg s) (ssPg s')" and "ssOrch s' = ssOrch s"
    and "res = Inl (StatusError GrpcInternal m) \<or>
      (if ikRequestHash krow \<noteq> crRequestHash req
       then res = Inl (StatusError GrpcAlreadyExists CodeIdempotencyConflict)
       else \<exists>p. store_of (ssPg s) (ikPayoutID krow) = Some p \<and>
         res = Inr \<lparr>caPayoutId = seString V (pID p), caStatus = pState p\<rparr>)"
proof -
  obtain res s' where run: "Service_CreatePayout V srv req s = (res, s')" by (metis prod.collapse)
  have taken: "crIdempotencyKey req \<in> ikKey ` set (tbl_keys (ssPg s))" using krow by force
  from krow(3,4) run show thesis
  proof (cases rule: CreatePayout_cases)
    case (existing k m)
    have "k = krow" using existing(1,2) krow(1,2) assms(1)
      by (metis tables_ok_find_key option.inject)
    then show thesis using run existing(3-5) by (intro that [of res s' m]) (auto split: if_splits)
  next
    case (failed m)
    then show thesis using run by (intro that [of res s' m]) simp_all
  qed (use taken in simp_all)
qed

text \<open>
  A replay is harmless. A request whose key is stored with the same hash stores nothing, calls
  no provider and leaves the success counts alone, whatever the connection does; if it is answered,
  the answer is the stored payout's id and current state, and otherwise the error is \<open>Internal\<close>.
\<close>

lemma CreatePayout_replay:
  assumes "tables_ok (ssPg s)" and "krow \<in> set (tbl_keys (ssPg s))"
    and "ikKey krow = crIdempotencyKey req" and "ikRequestHash krow = crRequestHash req"
    and "crIdempotencyKey req \<noteq> []" and "crRequestHash req \<noteq> []"
  shows "let (res, s') = Service_CreatePayout V srv req s in
    same_tables (ssPg s) (ssPg s') \<and> ssOrch s' = ssOrch s \<and>
    (case res of
       Inr a \<Rightarrow> (case store_of (ssPg s) (ikPayoutID krow) of
           None \<Rightarrow> False
         | Some p \<Rightarrow> a = \<lparr>caPayoutId = seString V (pID p), caStatus = pState p\<rparr>)
     | Inl e \<Rightarrow> (case e of StatusError c m \<Rightarrow> c = GrpcInternal | _ \<Rightarrow> False))"
  by (rule CreatePayout_existing_key [OF assms(1-3,5,6), of V srv])
    (simp add: Let_def assms(4), auto)

lemma CreatePayout_replay_witness:
  "let (res, s') = Service_CreatePayout demo_service (Some demo_orchestrator) (demo_request ''h'') demo_state in
    same_tables (ssPg demo_state) (ssPg s') \<and> ssOrch s' = ssOrch demo_state \<and>
    (case res of
       Inr a \<Rightarrow> (case store_of (ssPg demo_state) (ikPayoutID demo_key) of
           None \<Rightarrow> False
         | Some p \<Rightarrow> a = \<lparr>caPayoutId = seString demo_service (pID p), caStatus = pState p\<rparr>)
     | Inl e \<Rightarrow> (case e of StatusError c m \<Rightarrow> c = GrpcInternal | _ \<Rightarrow> False))"
  by (rule CreatePayout_replay [OF demo_tables_ok])
    (simp_all add: demo_state_def demo_request_def demo_key_def)

text \<open>
  A key is never reused for another request. If the stored hash differs, nothing is stored, no
  provider is called, and the answer is the idempotency conflict, or \<open>Internal\<close> where the database
  fails first.
\<close>

lemma CreatePayout_conflict:
  assumes "tables_ok (ssPg s)" and "krow \<in> set (tbl_keys (ssPg s))"
    and "ikKey krow = crIdempotencyKey req" and "ikRequestHash krow \<noteq> crRequestHash req"
    and "crIdempotencyKey req \<noteq> []" and "crRequestHash req \<noteq> []"
  shows "let (res, s') = Service_CreatePayout V srv req s in
    same_tables (ssPg s) (ssPg s') \<and> ssOrch s' = ssOrch s \<and>
    (case res of
       Inr a \<Rightarrow> False
     | Inl e \<Rightarrow> e = StatusError GrpcAlreadyExists CodeIdempotencyConflict \<or>
         (case e of StatusError c m \<Rightarrow> c = GrpcInternal | _ \<Rightarrow> False))"
  by (rule CreatePayout_existing_key [OF assms(1-3,5,6), of V srv])
    (simp add: Let_def assms(4), auto)

lemma CreatePayout_conflict_witness:
  "let (res, s') = Service_CreatePayout demo_service None (demo_request ''other'') demo_state in
    same_tables (ssPg demo_state) (ssPg s') \<and> ssOrch s' = ssOrch demo_state \<and>
    (case res of
       Inr a \<Rightarrow> False
     | Inl e \<Rightarrow> e = StatusError GrpcAlreadyExists CodeIdempotencyConflict \<or>
         (case e of StatusError c m \<Rightarrow> c = GrpcInternal | _ \<Rightarrow> False))"
  by (rule CreatePayout_conflict [OF demo_tables_ok, of demo_key])
    (simp_all add: demo_state_def demo_request_def demo_key_def)

section \<open>GetPayout\<close>

lemma GetPayout_reliable:
  assumes "reliable (sePg V)" and "payout_id \<noteq> []" and "seParse V payout_id = Some i"
  shows "fst (Service_GetPayout V payout_id s) =
      (case store_of (ssPg s) i of
         None \<Rightarrow> Inl (StatusError GrpcNotFound CodeNotFound)
       | Some p \<Rightarrow> Inr \<lparr>gaPayoutId = seString V i, gaStatus = pState p, gaAmount = pAmountCents p,
           gaCurrency = pCurrency p, gaProvider = pProvider p, gaRail = pRail p,
           gaExternalId = (case pExternalID p of None \<Rightarrow> [] | Some x \<Rightarrow> x)\<rparr>) \<and>
    same_tables (ssPg s) (ssPg (snd (Service_GetPayout V payout_id s))) \<and>
    ssOrch (snd (Service_GetPayout V payout_id s)) = ssOrch s"
proof -
  obtain db where "PayoutRepo_GetPayout (sePg V) i (ssPg s) =
      (case store_of (ssPg s) i of None \<Rightarrow> Inl ErrNotFound | Some p \<Rightarrow> Inr p, db)"
    and "same_tables (ssPg s) db"
    by (rule repo_get_reliable [OF assms(1)])
  then show ?thesis
    using assms(2,3)
    by (cases "store_of (ssPg s) i") (simp_all add: Service_GetPayout_def store_of_id)
qed

text \<open>
  \<open>GetPayout\<close> reports the store. On a reliable connection a well-formed id is answered with the
  fields of the stored payout, with \<open>NotFound\<close> exactly if there is none; in no case does it change a
  table or the orchestrator.
\<close>

lemma GetPayout_answers:
  assumes "reliable (sePg V)" and "payout_id \<noteq> []" and "seParse V payout_id = Some i"
  shows "fst (Service_GetPayout V payout_id s) =
      (case store_of (ssPg s) i of
         None \<Rightarrow> Inl (StatusError GrpcNotFound CodeNotFound)
       | Some p \<Rightarrow> Inr \<lparr>gaPayoutId = seString V i, gaStatus = pState p, gaAmount = pAmountCents p,
           gaCurrency = pCurrency p, gaProvider = pProvider p, gaRail = pRail p,
           gaExternalId = (case pExternalID p of None \<Rightarrow> [] | Some x \<Rightarrow> x)\<rparr>) \<and>
    same_tables (ssPg s) (ssPg (snd (Service_GetPayout V payout_id s))) \<and>
    ssOrch (snd (Service_GetPayout V payout_id s)) = ssOrch s"
  by (rule GetPayout_reliable [OF assms])

lemma GetPayout_answers_witness:
  "fst (Service_GetPayout demo_service ''1'' demo_state) =
     Inr \<lparr>gaPayoutId = ''1'', gaStatus = ''sent'', gaAmount = 100, gaCurrency = ''USD'',
       gaProvider = ''stripe'', gaRail = ''card'', gaExternalId = ''ext-1''\<rparr>"
  using GetPayout_answers [OF demo_reliable, of "''1''" 1 demo_state]
  by (simp add: demo_service_def demo_state_def store_of_def demo_row_def toDomainPayout_def)

section \<open>CancelPayout\<close>

lemma CancelPayout_reliable:
  assumes "reliable (sePg V)" and "tables_ok (ssPg s)"
    and "payout_id \<noteq> []" and "seParse V payout_id = Some i"
  shows "let (res, s') = Service_CancelPayout V srv payout_id s in
    case store_of (ssPg s) i of
      None \<Rightarrow> res = Inl (StatusError GrpcNotFound CodeNotFound) \<and>
        same_tables (ssPg s) (ssPg s') \<and> ssOrch s' = ssOrch s
    | Some p \<Rightarrow>
        if pState p \<in> {''created'', ''queued'', ''sent'', ''pending''}
        then res = Inr True \<and>
          (\<exists>t. store_of (ssPg s') = (store_of (ssPg s))(i \<mapsto> p\<lparr>pState := ''canceled'', pUpdatedAt := t\<rparr>)) \<and>
          ssOrch s' = (case srv of
            None \<Rightarrow> ssOrch s
          | Some orc \<Rightarrow> if pProvider p = [] then ssOrch s
              else snd (Orchestrator_CancelPayout (seRails V) orc p (ssOrch s)))
        else res = Inl (StatusError GrpcFailedPrecondition
            (CodeInvalidState @ '': payout cannot be canceled in state '' @ go_quote (pState p))) \<and>
          same_tables (ssPg s) (ssPg s') \<and> ssOrch s' = ssOrch s"
proof -
  obtain db where get: "PayoutRepo_GetPayout (sePg V) i (ssPg s) =
      (case store_of (ssPg s) i of None \<Rightarrow> Inl ErrNotFound | Some p \<Rightarrow> Inr p, db)"
    and same: "same_tables (ssPg s) db"
    by (rule repo_get_reliable [OF assms(1)])
  show ?thesis
  proof (cases "store_of (ssPg s) i")
    case None
    then show ?thesis using get same assms(3,4) by (simp add: Service_CancelPayout_def)
  next
    case (Some p)
    show ?thesis
    proof (cases "pState p \<in> set cancelableStates")
      case False
      then show ?thesis using get same assms(3,4) Some
        by (simp add: Service_CancelPayout_def cancelableStates_def)
    next
      case True
      have ok: "tables_ok db" and st: "store_of db = store_of (ssPg s)"
        using same_tables_ok [OF same] same_tables_store [OF same] assms(2) by auto
      obtain db2 t where "PayoutRepo_CancelPayout (sePg V) i cancelableStates db =
          (Inr (p\<lparr>pState := PayoutStateCanceled, pUpdatedAt := t\<rparr>), db2)"
        and "store_of db2 = (store_of db)(i \<mapsto> p\<lparr>pState := PayoutStateCanceled, pUpdatedAt := t\<rparr>)"
        by (rule repo_cancel_reliable [OF assms(1) ok _ True, of i])
          (use st Some in simp)
      then show ?thesis
        using get assms(3,4) Some True st
        by (cases srv) (auto simp: Service_CancelPayout_def cancelableStates_def Let_def)
    qed
  qed
qed

text \<open>
  C33: \<open>CancelPayout\<close> on a reliable connection, in full. An empty id and an id that is no UUID are
  invalid arguments, and nothing is looked up; an unknown payout is not found. A payout in a cancelable
  state is canceled, whatever its provider answers, and no other payout changes; one in any other state
  is refused without asking the provider. The provider is asked once, about the payout as it was before
  the update, and only if there is an orchestrator and the payout names a provider.
\<close>

theorem CancelPayout_complete:
  assumes "reliable (sePg V)" and "tables_ok (ssPg s)"
  shows "let (res, s') = Service_CancelPayout V srv payout_id s in
    if payout_id = [] then res = Inl (StatusError GrpcInvalidArgument ''payout_id is required'') \<and> s' = s
    else case seParse V payout_id of
      None \<Rightarrow> res = Inl (StatusError GrpcInvalidArgument ''INVALID_UUID'') \<and> s' = s
    | Some i \<Rightarrow>
        (case store_of (ssPg s) i of
           None \<Rightarrow> res = Inl (StatusError GrpcNotFound ''NOT_FOUND'') \<and>
             same_tables (ssPg s) (ssPg s') \<and> ssOrch s' = ssOrch s
         | Some p \<Rightarrow>
             if pState p \<in> {''created'', ''queued'', ''sent'', ''pending''}
             then res = Inr True \<and>
               (\<exists>t. store_of (ssPg s') = (store_of (ssPg s))(i \<mapsto> p\<lparr>pState := ''canceled'', pUpdatedAt := t\<rparr>)) \<and>
               ssOrch s' = (case srv of
                 None \<Rightarrow> ssOrch s
               | Some orc \<Rightarrow> if pProvider p = [] then ssOrch s
                   else snd (Orchestrator_CancelPayout (seRails V) orc p (ssOrch s)))
             else res = Inl (StatusError GrpcFailedPrecondition
                 (''INVALID_STATE: payout cannot be canceled in state '' @ go_quote (pState p))) \<and>
               same_tables (ssPg s) (ssPg s') \<and> ssOrch s' = ssOrch s)"
proof (cases "payout_id = [] \<or> seParse V payout_id = None")
  case True
  then show ?thesis by (auto simp: Service_CancelPayout_def)
next
  case False
  then obtain i where i: "payout_id \<noteq> []" "seParse V payout_id = Some i" by auto
  show ?thesis
    using CancelPayout_reliable [OF assms i, of srv] i by (auto simp: Let_def split: option.splits)
qed

theorem CancelPayout_complete_witness:
  "fst (Service_CancelPayout demo_service (Some demo_orchestrator) ''1'' demo_state) = Inr True"
proof -
  have "store_of (ssPg demo_state) 1 = Some (toDomainPayout demo_row)"
    by (simp add: store_of_def demo_state_def demo_row_def)
  then show ?thesis
    using CancelPayout_complete [OF demo_reliable demo_tables_ok, of "Some demo_orchestrator" "''1''"]
    by (simp add: split_beta Let_def demo_service_def demo_row_def)
qed

section \<open>ApplyProviderUpdate\<close>

lemma ApplyProviderUpdate_answer:
  assumes "reliable (sePg V)" and "tables_ok (ssPg s)" and "ref \<noteq> []"
    and "mapProviderStatusToState status = Inr st"
    and stored: "store_of (ssPg s) i = Some p"
    and target: "pExternalID p = Some ref \<or>
      seParse V ref = Some i \<and> Some ref \<notin> rExternalID ` set (tbl_payouts (ssPg s))"
  shows "let (res, s') = Service_ApplyProviderUpdate V ref status s in
    res = Inr True \<and> ssOrch s' = ssOrch s \<and>
    (\<exists>t. store_of (ssPg s') = (store_of (ssPg s))(i \<mapsto> p\<lparr>pState := st, pUpdatedAt := t\<rparr>))"
proof -
  note E = assms(1) and ok = assms(2)
  obtain db where find: "PayoutRepo_FindByExternalID (sePg V) ref (ssPg s) =
      (case find (\<lambda>r. rExternalID r = Some ref) (tbl_payouts (ssPg s)) of
         None \<Rightarrow> Inl ErrNotFound | Some r \<Rightarrow> Inr (toDomainPayout r), db)"
    and same1: "same_tables (ssPg s) db"
    by (rule repo_find_reliable [OF E ok])
  obtain db2 where get: "PayoutRepo_GetPayout (sePg V) i db =
      (case store_of db i of None \<Rightarrow> Inl ErrNotFound | Some p \<Rightarrow> Inr p, db2)"
    and same2: "same_tables db db2"
    by (rule repo_get_reliable [OF E])
  note sto = same_tables_store [OF same1]
  have found: "\<exists>db3. findPayoutByExternalIDOrID V ref (ssPg s) = (Inr p, db3) \<and> same_tables (ssPg s) db3"
  proof (cases "find (\<lambda>r. rExternalID r = Some ref) (tbl_payouts (ssPg s))")
    case None
    then have none: "Some ref \<notin> rExternalID ` set (tbl_payouts (ssPg s))"
      by (auto simp: find_None_iff image_iff)
    obtain r where "p = toDomainPayout r" "r \<in> set (tbl_payouts (ssPg s))"
      by (rule store_row [OF stored])
    with none have "pExternalID p \<noteq> Some ref" by (auto simp: image_iff)
    with target have "seParse V ref = Some i" by simp
    then show ?thesis
      using None find get sto stored same_tables_trans [OF same1 same2]
      by (simp add: findPayoutByExternalIDOrID_def)
  next
    case (Some r)
    then have r: "r \<in> set (tbl_payouts (ssPg s))" "rExternalID r = Some ref"
      by (auto dest: find_key [of rExternalID])
    then have "pExternalID p = Some ref" using target by (metis image_eqI)
    moreover have "store_of (ssPg s) (rID r) = Some (toDomainPayout r)"
      using r tables_ok_find [OF ok, of "rID r" r] by (simp add: store_of_def)
    ultimately have "p = toDomainPayout r"
      using store_valid(2) [OF ok stored, of "rID r"] stored r(2) by (cases "rID r = i") auto
    then show ?thesis
      using Some find same1 by (simp add: findPayoutByExternalIDOrID_def)
  qed
  then obtain db3 where f: "findPayoutByExternalIDOrID V ref (ssPg s) = (Inr p, db3)"
    and same: "same_tables (ssPg s) db3" by blast
  have ok3: "tables_ok db3" and sto3: "store_of db3 = store_of (ssPg s)"
    using same_tables_ok [OF same] same_tables_store [OF same] ok by auto
  have p3: "store_of db3 i = Some p" using sto3 stored by simp
  have id: "pID p = i" using stored by (rule store_of_id)
  have st: "st \<in> set db_states"
    using assms(4) by (auto simp: mapProviderStatusToState_def db_states_def split: if_splits)
  obtain s' t where upd: "PayoutRepo_UpdatePayoutState (sePg V) i
      \<lparr>upState = st, upExternalID = pExternalID p, upProvider = pProvider p\<rparr> db3 =
      (Inr (p\<lparr>pState := st, pUpdatedAt := t\<rparr>), s')"
    and "store_of s' = (store_of db3)(i \<mapsto> p\<lparr>pState := st, pUpdatedAt := t\<rparr>)"
    by (rule repo_update_reliable [OF E ok3 p3, where u = "\<lparr>upState = st,
            upExternalID = pExternalID p, upProvider = pProvider p\<rparr>"])
      (use st store_valid [OF ok3 p3] in auto)
  then show ?thesis
    using assms(3,4) f id sto3 by (auto simp: Service_ApplyProviderUpdate_def)
qed

text \<open>
  C34: a provider's report sets the state and nothing else. On a reliable connection, if the
  reference is the external id of a payout, or is no payout's external id but a stored payout's own
  id, then that payout takes the reported state, keeps its provider and external id, and no other
  payout changes; no provider is called. The old state does not matter: a canceled or failed payout
  can become completed.
\<close>

theorem ApplyProviderUpdate_effect:
  assumes "reliable (sePg V)" and "tables_ok (ssPg s)" and "ref \<noteq> []"
    and "mapProviderStatusToState status = Inr st"
    and stored: "store_of (ssPg s) i = Some p"
    and target: "pExternalID p = Some ref \<or>
      seParse V ref = Some i \<and> Some ref \<notin> rExternalID ` set (tbl_payouts (ssPg s))"
  shows "let (res, s') = Service_ApplyProviderUpdate V ref status s in
    res = Inr True \<and> ssOrch s' = ssOrch s \<and>
    (\<exists>t. store_of (ssPg s') = (store_of (ssPg s))(i \<mapsto> p\<lparr>pState := st, pUpdatedAt := t\<rparr>))"
  by (rule ApplyProviderUpdate_answer [OF assms])

theorem ApplyProviderUpdate_effect_witness:
  "fst (Service_ApplyProviderUpdate demo_service ''ext-1'' ''payout_succeeded'' demo_state) = Inr True"
proof -
  have "store_of (ssPg demo_state) 1 = Some (toDomainPayout demo_row)"
    by (simp add: store_of_def demo_state_def demo_row_def)
  then show ?thesis
    using ApplyProviderUpdate_effect [OF demo_reliable demo_tables_ok, of "''ext-1''"
        "''payout_succeeded''" "''completed''" 1 "toDomainPayout demo_row"]
    by (simp add: split_beta Let_def demo_row_def mapProviderStatusToState_def)
qed

section \<open>CreatePayout for a new key\<close>

text \<open>The request satisfies the table's constraints and the server's random ids are new.\<close>

definition storable :: "'d pg_env \<Rightarrow> create_request \<Rightarrow> 'd pg \<Rightarrow> bool" where
  "storable E req db \<longleftrightarrow>
     crIdempotencyKey req \<noteq> [] \<and> crRequestHash req \<noteq> [] \<and>
     crIdempotencyKey req \<notin> ikKey ` set (tbl_keys db) \<and>
     0 < crAmount req \<and> crRail req \<in> set db_rails \<and>
     (\<forall>d. fst (pg_uuid E d) \<notin> rID ` set (tbl_payouts db))"

lemma RunInTx_create_reliable:
  assumes "reliable E" and "storable E req db"
  obtains r db' where "RunInTx E (create_tx E req) zero_tx_result db = ((None, r), db')"
proof -
  let ?c = "\<lparr>cpState = PayoutStateCreated, cpAmountCents = crAmount req, cpCurrency = crCurrency req,
      cpRail = crRail req, cpProvider = [], cpExternalID = None\<rparr>"
  obtain d0 where b0: "pg_net E (pg_world db) = (Delivered, d0)"
    using assms(1) by (metis reliable_def prod.collapse)
  let ?db0 = "db\<lparr>pg_world := d0\<rparr>"
  obtain u d1 where u: "pg_uuid E (snd (pg_net E d0)) = (u, d1)" by (metis prod.collapse)
  obtain t d2 where t: "pg_now E d1 = (t, d2)" by (metis prod.collapse)
  have new: "u \<notin> rID ` set (tbl_payouts db)" using assms(2) u unfolding storable_def by (metis fst_conv)
  obtain p db1 where c: "PayoutRepo_CreatePayout E ?c ?db0 = (Inr p, db1)"
    using assms(2) new
    by (simp add: PayoutRepo_CreatePayout_def Queries_CreatePayout_def round_trip_reliable [OF assms(1)]
        sql_createPayout_def u t Let_def storable_def row_checks_def db_states_def provider_param_def
        ext_taken_def)
  have keys: "tbl_keys db1 = tbl_keys db"
    using PayoutRepo_keys(1) [of E ?c ?db0] c by simp
  obtain t' d3 where t': "pg_now E (snd (pg_net E (pg_world db1))) = (t', d3)" by (metis prod.collapse)
  obtain key db2 where k: "IdempotencyRepo_TryInsertIdempotencyKey E (crIdempotencyKey req)
      (crRequestHash req) (pID p) db1 = (Inr (key, True), db2)"
    using assms(2) keys
    by (simp add: IdempotencyRepo_TryInsertIdempotencyKey_def Queries_TryInsertIdempotencyKey_def
        round_trip_reliable [OF assms(1)] sql_tryInsertIdempotencyKey_def t' Let_def storable_def)
  obtain d4 where b1: "pg_net E (pg_world db2) = (Delivered, d4)"
    using assms(1) by (metis reliable_def prod.collapse)
  show thesis
    by (rule that) (simp add: RunInTx_def b0 create_tx_def c k b1 Let_def)
qed

text \<open>
  A storable request on a reliable connection stores the payout and the key and reaches the
  providers; what they leave decides what the last update writes.
\<close>

lemma CreatePayout_stored:
  assumes "reliable (sePg V)" and ok: "tables_ok (ssPg s)" and "storable (sePg V) req (ssPg s)"
  obtains db1 p0 krow p s' where
      "sendPayoutWithOrchestrator V srv p0 (s\<lparr>ssPg := db1\<rparr>) = (p, s')"
    and "Service_CreatePayout V srv req s =
      (Inr \<lparr>caPayoutId = seString V (pID p), caStatus = pState p\<rparr>, s')"
    and "tables_ok db1" and "store_of (ssPg s) (pID p0) = None"
    and "store_of db1 = (store_of (ssPg s))(pID p0 \<mapsto> p0)"
    and "tbl_keys db1 = tbl_keys (ssPg s) @ [krow]"
    and "ikKey krow = crIdempotencyKey req \<and> ikRequestHash krow = crRequestHash req \<and> ikPayoutID krow = pID p0"
    and "pState p0 = PayoutStateCreated \<and> pAmountCents p0 = crAmount req \<and>
      pCurrency p0 = crCurrency req \<and> pRail p0 = crRail req \<and> pProvider p0 = [] \<and> pExternalID p0 = None"
proof -
  obtain r db1 where run: "RunInTx (sePg V) (create_tx (sePg V) req) zero_tx_result (ssPg s) = ((None, r), db1)"
    using RunInTx_create_reliable [OF assms(1,3)] .
  have ok1: "tables_ok db1"
    using RunInTx_create_db_le [of "ssPg s" "sePg V" req zero_tx_result] run ok by (simp add: db_le_def)
  obtain p s' where send: "sendPayoutWithOrchestrator V srv (txNewPayout r) (s\<lparr>ssPg := db1\<rparr>) = (p, s')"
    by (metis prod.collapse)
  from run show thesis
  proof (cases rule: RunInTx_create_cases)
    case (created row krow)
    let ?p0 = "txNewPayout r"
    have new: "find (\<lambda>q. rID q = rID row) (tbl_payouts (ssPg s)) = None"
      using created(5) by (auto simp: find_None_iff image_iff)
    have "store_of db1 = (store_of (ssPg s))(pID ?p0 \<mapsto> ?p0)"
      using new by (auto simp: store_of_def created(2,3) find_append_one fun_eq_iff split: option.split)
    moreover have "store_of (ssPg s) (pID ?p0) = None" using new by (simp add: store_of_def created(2))
    moreover have "Service_CreatePayout V srv req s =
        (Inr \<lparr>caPayoutId = seString V (pID p), caStatus = pState p\<rparr>, s')"
      using assms(3) run send by (simp add: Service_CreatePayout_def storable_def)
    ultimately show thesis using that [OF send _ ok1, of krow] created by simp
  qed simp_all
qed

text \<open>The provider that is recorded, and whether the database takes the outcome.\<close>

definition reported_provider :: "send_payout_result \<Rightarrow> provider" where
  "reported_provider result =
     (if srSuccess result then srUsedProvider result
      else if srTriedProviders result \<noteq> [] then last (srTriedProviders result) else [])"

definition recordable :: "send_payout_result \<Rightarrow> 'd pg \<Rightarrow> bool" where
  "recordable result db \<longleftrightarrow>
     (reported_provider result = [] \<or> reported_provider result \<in> set db_providers) \<and>
     (srSuccess result \<longrightarrow> Some (srExternalID result) \<notin> rExternalID ` set (tbl_payouts db))"

lemma ext_in_store:
  assumes "tables_ok db"
  shows "Some x \<in> rExternalID ` set (tbl_payouts db) \<longleftrightarrow> (\<exists>j p. store_of db j = Some p \<and> pExternalID p = Some x)"
proof
  assume "Some x \<in> rExternalID ` set (tbl_payouts db)"
  then obtain r where "r \<in> set (tbl_payouts db)" "rExternalID r = Some x" by auto
  then show "\<exists>j p. store_of db j = Some p \<and> pExternalID p = Some x"
    using tables_ok_find [OF assms, of "rID r" r]
    by (intro exI [of _ "rID r"] exI [of _ "toDomainPayout r"]) (simp add: store_of_def)
next
  assume "\<exists>j p. store_of db j = Some p \<and> pExternalID p = Some x"
  then obtain j p where p: "store_of db j = Some p" "pExternalID p = Some x" by blast
  obtain r where "p = toDomainPayout r" "r \<in> set (tbl_payouts db)" by (rule store_row [OF p(1)])
  with p(2) show "Some x \<in> rExternalID ` set (tbl_payouts db)" by force
qed

text \<open>Both endings, for the two properties below.\<close>

lemma CreatePayout_sent:
  assumes "reliable (sePg V)" and ok: "tables_ok (ssPg s)" and "storable (sePg V) req (ssPg s)"
  shows "\<exists>p0 p krow. let (res, s') = Service_CreatePayout V (Some orc) req s;
        (result, o1) = SendPayoutWithFallback (seRails V) orc p0 (ssOrch s) in
      pState p0 = ''created'' \<and> pAmountCents p0 = crAmount req \<and> pCurrency p0 = crCurrency req \<and>
      pRail p0 = crRail req \<and> store_of (ssPg s) (pID p0) = None \<and>
      ssOrch s' = o1 \<and>
      res = Inr \<lparr>caPayoutId = seString V (pID p0), caStatus = pState p\<rparr> \<and>
      store_of (ssPg s') = (store_of (ssPg s))(pID p0 \<mapsto> p) \<and>
      tbl_keys (ssPg s') = tbl_keys (ssPg s) @ [krow] \<and>
      ikKey krow = crIdempotencyKey req \<and> ikRequestHash krow = crRequestHash req \<and>
      ikPayoutID krow = pID p0 \<and>
      (if recordable result (ssPg s)
       then \<exists>t. p = p0\<lparr>pState := (if srSuccess result then ''sent'' else ''failed''),
              pProvider := reported_provider result,
              pExternalID := (if srSuccess result then Some (srExternalID result) else None), pUpdatedAt := t\<rparr>
       else p = p0) \<and>
      pProvider p0 = [] \<and> pExternalID p0 = None"
proof -
  note E = assms(1)
  obtain db1 p0 krow p s' where send: "sendPayoutWithOrchestrator V (Some orc) p0 (s\<lparr>ssPg := db1\<rparr>) = (p, s')"
    and run: "Service_CreatePayout V (Some orc) req s =
      (Inr \<lparr>caPayoutId = seString V (pID p), caStatus = pState p\<rparr>, s')"
    and ok1: "tables_ok db1" and new: "store_of (ssPg s) (pID p0) = None"
    and st1: "store_of db1 = (store_of (ssPg s))(pID p0 \<mapsto> p0)"
    and keys: "tbl_keys db1 = tbl_keys (ssPg s) @ [krow]"
      "ikKey krow = crIdempotencyKey req \<and> ikRequestHash krow = crRequestHash req \<and> ikPayoutID krow = pID p0"
    and fields: "pState p0 = PayoutStateCreated \<and> pAmountCents p0 = crAmount req \<and>
      pCurrency p0 = crCurrency req \<and> pRail p0 = crRail req \<and> pProvider p0 = [] \<and> pExternalID p0 = None"
    by (rule CreatePayout_stored [OF assms])
  obtain result o1 where fb: "SendPayoutWithFallback (seRails V) orc p0 (ssOrch s) = (result, o1)"
    by (metis prod.collapse)
  define u where "u = \<lparr>upState = (if srSuccess result then ''sent'' else ''failed''),
      upExternalID = (if srSuccess result then Some (srExternalID result) else None),
      upProvider = reported_provider result\<rparr>"
  have so: "send_outcome V (Some orc) p0 (ssOrch s) = (u, p0, o1)"
    by (simp add: send_outcome_def fb u_def reported_provider_def)
  obtain res db2 where upd: "PayoutRepo_UpdatePayoutState (sePg V) (pID p0) u db1 = (res, db2)"
    by (metis prod.collapse)
  have out: "p = (case res of Inl err \<Rightarrow> p0 | Inr updated \<Rightarrow> updated)" "s' = \<lparr>ssPg = db2, ssOrch = o1\<rparr>"
    using sendPayout_outcome [of V "Some orc" p0 "s\<lparr>ssPg := db1\<rparr>" u p0 o1 res db2] so upd send by auto
  have k2: "tbl_keys db2 = tbl_keys db1" using PayoutRepo_keys(2) [of "sePg V" "pID p0" u db1] upd by simp
  have p1: "store_of db1 (pID p0) = Some p0" using st1 by simp
  have others: "store_of db1 j = store_of (ssPg s) j" if "j \<noteq> pID p0" for j using st1 that by simp
  have "store_of db2 = (store_of (ssPg s))(pID p0 \<mapsto> p) \<and> pID p = pID p0 \<and>
      (if recordable result (ssPg s)
       then \<exists>t. p = p0\<lparr>pState := (if srSuccess result then ''sent'' else ''failed''),
              pProvider := reported_provider result,
              pExternalID := (if srSuccess result then Some (srExternalID result) else None), pUpdatedAt := t\<rparr>
       else p = p0)"
  proof (cases "recordable result (ssPg s)")
    case True
    have "upExternalID u \<noteq> None \<Longrightarrow> pExternalID q \<noteq> upExternalID u"
      if "j \<noteq> pID p0" "store_of db1 j = Some q" for j q
      using True that others [OF that(1)] ext_in_store [OF ok, of "srExternalID result"]
      by (auto simp: recordable_def u_def split: if_splits)
    moreover have "upProvider u = [] \<or> upProvider u \<in> set db_providers" "upState u \<in> set db_states"
      using True by (auto simp: recordable_def u_def db_states_def)
    ultimately obtain db3 t where "PayoutRepo_UpdatePayoutState (sePg V) (pID p0) u db1 =
        (Inr (p0\<lparr>pState := upState u, pProvider := upProvider u, pExternalID := upExternalID u,
          pUpdatedAt := t\<rparr>), db3)"
      and "store_of db3 = (store_of db1)(pID p0 \<mapsto> p0\<lparr>pState := upState u,
          pProvider := upProvider u, pExternalID := upExternalID u, pUpdatedAt := t\<rparr>)"
      using repo_update_reliable [OF E ok1 p1, of u] by metis
    then show ?thesis using True upd out st1 by (auto simp: u_def)
  next
    case False
    then have bad: "upProvider u \<noteq> [] \<and> upProvider u \<notin> set db_providers \<or>
      (\<exists>j q. j \<noteq> pID p0 \<and> store_of db1 j = Some q \<and> upExternalID u \<noteq> None \<and> pExternalID q = upExternalID u)"
    proof (cases "reported_provider result = [] \<or> reported_provider result \<in> set db_providers")
      case True
      with False have succ: "srSuccess result"
        and "Some (srExternalID result) \<in> rExternalID ` set (tbl_payouts (ssPg s))"
        by (auto simp: recordable_def)
      then obtain j q where q: "store_of (ssPg s) j = Some q" "pExternalID q = Some (srExternalID result)"
        using ext_in_store [OF ok] by blast
      then have "j \<noteq> pID p0" using new by auto
      then show ?thesis using q others succ by (auto simp: u_def)
    qed (simp add: u_def)
    obtain e db3 where "PayoutRepo_UpdatePayoutState (sePg V) (pID p0) u db1 = (Inl e, db3)"
      and "same_tables db1 db3"
      by (rule repo_update_rejected [OF E ok1 p1 bad])
    then show ?thesis using False upd out st1 same_tables_store [of db1 db3] by auto
  qed
  then show ?thesis
    using fields new run out(2) k2 keys fb
    by (intro exI [of _ p0] exI [of _ p] exI [of _ krow]) simp
qed


text \<open>
  C9: the happy path. On a reliable connection a storable request for a new key creates one payout
  with the request's amount, currency and rail and one key that names it, sends it through the
  orchestrator exactly once, and answers with its id and stored state. If the database takes the
  outcome, the payout is then sent or failed, with the provider used (or the last one tried) and the
  provider's reference; if it does not, the payout stays created, without either.
\<close>

theorem CreatePayout_new:
  assumes "reliable (sePg V)" and "tables_ok (ssPg s)" and "storable (sePg V) req (ssPg s)"
  shows "\<exists>p0 p krow. let (res, s') = Service_CreatePayout V (Some orc) req s;
        (result, o1) = SendPayoutWithFallback (seRails V) orc p0 (ssOrch s) in
      pState p0 = ''created'' \<and> pAmountCents p0 = crAmount req \<and> pCurrency p0 = crCurrency req \<and>
      pRail p0 = crRail req \<and> store_of (ssPg s) (pID p0) = None \<and>
      ssOrch s' = o1 \<and>
      res = Inr \<lparr>caPayoutId = seString V (pID p0), caStatus = pState p\<rparr> \<and>
      store_of (ssPg s') = (store_of (ssPg s))(pID p0 \<mapsto> p) \<and>
      tbl_keys (ssPg s') = tbl_keys (ssPg s) @ [krow] \<and>
      ikKey krow = crIdempotencyKey req \<and> ikRequestHash krow = crRequestHash req \<and>
      ikPayoutID krow = pID p0 \<and>
      (if recordable result (ssPg s)
       then \<exists>t. p = p0\<lparr>pState := (if srSuccess result then ''sent'' else ''failed''),
              pProvider := reported_provider result,
              pExternalID := (if srSuccess result then Some (srExternalID result) else None), pUpdatedAt := t\<rparr>
       else p = p0) \<and>
      pProvider p0 = [] \<and> pExternalID p0 = None"
  by (rule CreatePayout_sent [OF assms])

definition demo_stripe :: "nat orchestrator" where
  "demo_stripe =
     (let reg = RegisterWithMeta ''card'' 1 \<lparr>mProvider = ''stripe'', mIsActive = True, mWeight = 0\<rparr>
           NewRegistry
      in \<lparr>orRegistry = reg, orRouter = \<lparr>rtRegistry = reg, rtMinSamples = 10\<rparr>,
          orRoutingAlgo = RoutingPriority\<rparr>)"

lemma demo_stripe_sends:
  "pRail p = ''card'' \<Longrightarrow>
   fst (SendPayoutWithFallback demo_rails demo_stripe p demo_orch_state) =
     \<lparr>srExternalID = ''ext-1'', srUsedProvider = ''stripe'', srTriedProviders = [''stripe''],
      srSuccess = True\<rparr>"
  by (simp add: SendPayoutWithFallback_def demo_defs demo_stripe_def SelectProviders_def
      GetProviders_def Let_def empty_result_def)

lemma demo_mock_sends:
  "pRail p = ''card'' \<Longrightarrow>
   fst (SendPayoutWithFallback demo_rails demo_orchestrator p demo_orch_state) =
     \<lparr>srExternalID = ''ext-1'', srUsedProvider = ''mock_card'',
      srTriedProviders = [''stripe'', ''mock_card''], srSuccess = True\<rparr>"
  by (simp add: SendPayoutWithFallback_def demo_defs SelectProviders_def
      GetProviders_def Let_def empty_result_def isRetryable_def)

lemma demo_storable: "storable (sePg demo_service) (demo_request ''h'') (ssPg demo_empty)"
  by (simp add: storable_def demo_request_def demo_empty_def db_rails_def)

lemma demo_empty_ok: "tables_ok (ssPg demo_empty)"
  by (simp add: tables_ok_def rows_ok_def demo_empty_def)

theorem CreatePayout_new_witness:
  "\<exists>i. fst (Service_CreatePayout demo_service (Some demo_stripe) (demo_request ''h'') demo_empty) =
     Inr \<lparr>caPayoutId = i, caStatus = ''sent''\<rparr>"
proof -
  have rails: "seRails demo_service = demo_rails" "ssOrch demo_empty = demo_orch_state"
    by (simp_all add: demo_service_def demo_empty_def)
  from CreatePayout_new [OF demo_reliable demo_empty_ok demo_storable, of demo_stripe]
  show ?thesis
    unfolding Let_def split_beta rails
  proof (elim exE conjE, goal_cases)
    case (1 p0 p krow)
    have "pRail p0 = ''card''" using 1(4) by (simp add: demo_request_def)
    note sent = demo_stripe_sends [OF this]
    have "recordable (fst (SendPayoutWithFallback demo_rails demo_stripe p0 demo_orch_state)) (ssPg demo_empty)"
      unfolding sent by (simp add: recordable_def reported_provider_def db_providers_def demo_empty_def)
    then have "pState p = ''sent''" using 1(13) unfolding sent by auto
    then show ?case using 1(7) by simp
  qed
qed

text \<open>
  A payout that the mock provider took is not recorded as sent. The migrations' CHECK constraint
  lists \<open>stripe\<close> and \<open>crypto_sim\<close> only, so where \<open>mock_card\<close> accepts a payout (here after Stripe timed
  out) the update fails; the handler reports success with the state \<open>created\<close>, and the stored payout
  has neither the provider nor the external id, so that the provider's later webhook finds nothing.
\<close>

lemma mock_card_not_recorded:
  "\<exists>i p s'. Service_CreatePayout demo_service (Some demo_orchestrator) (demo_request ''h'') demo_empty =
       (Inr \<lparr>caPayoutId = seString demo_service i, caStatus = ''created''\<rparr>, s') \<and>
     store_of (ssPg s') i = Some p \<and> pState p = ''created'' \<and> pProvider p = [] \<and> pExternalID p = None \<and>
     srSuccess (fst (SendPayoutWithFallback (seRails demo_service) demo_orchestrator p (ssOrch demo_empty))) \<and>
     ssOrch s' = snd (SendPayoutWithFallback (seRails demo_service) demo_orchestrator p (ssOrch demo_empty))"
proof -
  obtain db1 p0 krow p s' where send: "sendPayoutWithOrchestrator demo_service (Some demo_orchestrator) p0
      (demo_empty\<lparr>ssPg := db1\<rparr>) = (p, s')"
    and run: "Service_CreatePayout demo_service (Some demo_orchestrator) (demo_request ''h'') demo_empty =
      (Inr \<lparr>caPayoutId = seString demo_service (pID p), caStatus = pState p\<rparr>, s')"
    and ok1: "tables_ok db1" and st1: "store_of db1 = (store_of (ssPg demo_empty))(pID p0 \<mapsto> p0)"
    and fields: "pState p0 = PayoutStateCreated" "pRail p0 = ''card''" "pProvider p0 = []" "pExternalID p0 = None"
    by (rule CreatePayout_stored [OF demo_reliable demo_empty_ok demo_storable, where srv = "Some demo_orchestrator"])
      (simp add: demo_request_def)
  have p1: "store_of db1 (pID p0) = Some p0" using st1 by simp
  let ?u = "\<lparr>upState = PayoutStateSent, upExternalID = Some ''ext-1'', upProvider = ''mock_card''\<rparr>"
  obtain e db2 where upd: "PayoutRepo_UpdatePayoutState (sePg demo_service) (pID p0) ?u db1 = (Inl e, db2)"
    and same: "same_tables db1 db2"
    by (rule repo_update_rejected [OF demo_reliable ok1 p1, of ?u]) (simp add: db_providers_def)
  have rails: "seRails demo_service = demo_rails" "ssOrch demo_empty = demo_orch_state"
    by (simp_all add: demo_service_def demo_empty_def)
  obtain o1 where fb: "SendPayoutWithFallback demo_rails demo_orchestrator p0 demo_orch_state =
      (\<lparr>srExternalID = ''ext-1'', srUsedProvider = ''mock_card'',
      srTriedProviders = [''stripe'', ''mock_card''], srSuccess = True\<rparr>, o1)"
    using demo_mock_sends [OF fields(2)] by (metis prod.collapse)
  have "sendPayoutWithOrchestrator demo_service (Some demo_orchestrator) p0 (demo_empty\<lparr>ssPg := db1\<rparr>) =
      (p0, \<lparr>ssPg = db2, ssOrch = o1\<rparr>)"
    by (simp add: sendPayoutWithOrchestrator_def rails fb upd)
  then show ?thesis
    using run send fields fb p1 same_tables_store [OF same]
    by (intro exI [of _ "pID p0"] exI [of _ p0] exI [of _ s']) (auto simp: rails)
qed

end
