(* ===== verification/ServiceRuns.thy ===== *)
theory ServiceRuns
  imports ServiceProps
begin

text \<open>
  Runs of the service: the handlers as steps, in any order, on any connection, with anything happening
  in the outside world in between; the invariant of the tables that every step keeps, and what holds
  over time: idempotency, at most one sending per key, the history of a payout.
\<close>

section \<open>Runs of the service\<close>

datatype event =
    Created create_request "create_response result"
  | Got string "get_response result"
  | Canceled string "bool result"
  | Applied string string "bool result"
  | Elsewhere

text \<open>
  One step: a handler that runs to its end, or something that happens outside, which may change the
  state of the outside world and of the server but not the tables.
\<close>

inductive service_step ::
    "('c, 'p, 'd) service_env \<Rightarrow> 'c payout_server \<Rightarrow> ('p, 'd) service_state \<Rightarrow> event \<Rightarrow>
     ('p, 'd) service_state \<Rightarrow> bool"
  for V :: "('c, 'p, 'd) service_env" and srv :: "'c payout_server" where
  create: "Service_CreatePayout V srv req s = (res, s') \<Longrightarrow> service_step V srv s (Created req res) s'"
| get: "Service_GetPayout V i s = (res, s') \<Longrightarrow> service_step V srv s (Got i res) s'"
| cancel: "Service_CancelPayout V srv i s = (res, s') \<Longrightarrow> service_step V srv s (Canceled i res) s'"
| update: "Service_ApplyProviderUpdate V i st s = (res, s') \<Longrightarrow>
    service_step V srv s (Applied i st res) s'"
| elsewhere: "service_step V srv s Elsewhere
    (s\<lparr>ssPg := (ssPg s)\<lparr>pg_world := d\<rparr>, ssOrch := (ssOrch s)\<lparr>osRails := w\<rparr>\<rparr>)"

inductive_cases create_stepE: "service_step V srv s (Created req res) s'"
inductive_simps service_step_simps:
  "service_step V srv s (Created req res) s'" "service_step V srv s (Got i r) s'"
  "service_step V srv s (Canceled i b) s'" "service_step V srv s (Applied i st b) s'"

inductive service_run ::
    "('c, 'p, 'd) service_env \<Rightarrow> 'c payout_server \<Rightarrow> ('p, 'd) service_state \<Rightarrow>
     (('p, 'd) service_state \<times> event \<times> ('p, 'd) service_state) list \<Rightarrow>
     ('p, 'd) service_state \<Rightarrow> bool"
  for V :: "('c, 'p, 'd) service_env" and srv :: "'c payout_server" where
  stop: "service_run V srv s [] s"
| more: "service_step V srv s e s1 \<Longrightarrow> service_run V srv s1 tr s' \<Longrightarrow>
    service_run V srv s ((s, e, s1) # tr) s'"

section \<open>What a step may do to a payout that exists\<close>

text \<open>The two updates change the rows with one id, or nothing.\<close>

lemma row_update_effect:
  "tbl_payouts (snd (sql_update_row i f s)) = tbl_payouts s \<or>
   tbl_payouts (snd (sql_update_row i f s)) =
     map (\<lambda>q. if rID q = i then f q else q) (tbl_payouts s)"
  by (simp add: sql_update_row_def split: option.split)

lemma round_trip_effect:
  assumes "\<And>d. P (tbl_payouts (snd (stmt (s\<lparr>pg_world := d\<rparr>))))" and "P (tbl_payouts s)"
  shows "P (tbl_payouts (snd (round_trip E stmt s)))"
  using assms by (auto simp: round_trip_def Let_def split: prod.split delivery.split)

lemma update_effect:
  obtains "tbl_payouts (snd (PayoutRepo_UpdatePayoutState E i u s)) = tbl_payouts s"
  | t where "tbl_payouts (snd (PayoutRepo_UpdatePayoutState E i u s)) =
      map (\<lambda>q. if rID q = i
               then q\<lparr>rState := upState u, rExternalID := upExternalID u,
                     rProvider := provider_param (upProvider u), rUpdatedAt := t\<rparr> else q) (tbl_payouts s)"
proof -
  let ?P = "\<lambda>rows. rows = tbl_payouts s \<or> (\<exists>t. rows = map (\<lambda>q. if rID q = i
      then q\<lparr>rState := upState u, rExternalID := upExternalID u,
             rProvider := provider_param (upProvider u), rUpdatedAt := t\<rparr> else q) (tbl_payouts s))"
  let ?arg = "\<lparr>quState = upState u, quExternalID = upExternalID u,
        quProvider = provider_param (upProvider u), quID = i\<rparr>"
  have "?P (tbl_payouts (snd (sql_updatePayoutState E ?arg (s\<lparr>pg_world := d\<rparr>))))" for d
  proof -
    obtain t d' where now: "pg_now E d = (t, d')" by (cases "pg_now E d")
    show ?thesis
      using row_update_effect [of i "\<lambda>q. q\<lparr>rState := upState u, rExternalID := upExternalID u,
          rProvider := provider_param (upProvider u), rUpdatedAt := t\<rparr>" "s\<lparr>pg_world := d'\<rparr>"]
      by (auto simp: sql_updatePayoutState_def now)
  qed
  then have "?P (tbl_payouts (snd (PayoutRepo_UpdatePayoutState E i u s)))"
    unfolding snd_PayoutRepo by (rule round_trip_effect) simp
  then show thesis using that by blast
qed

lemma cancel_effect:
  obtains "tbl_payouts (snd (PayoutRepo_CancelPayout E i cs s)) = tbl_payouts s"
  | t where "tbl_payouts (snd (PayoutRepo_CancelPayout E i cs s)) =
      map (\<lambda>q. if rID q = i then q\<lparr>rState := ''canceled'', rUpdatedAt := t\<rparr> else q) (tbl_payouts s)"
proof -
  let ?P = "\<lambda>rows. rows = tbl_payouts s \<or> (\<exists>t. rows = map (\<lambda>q. if rID q = i
      then q\<lparr>rState := ''canceled'', rUpdatedAt := t\<rparr> else q) (tbl_payouts s))"
  have "?P (tbl_payouts (snd (sql_cancelPayoutIfCancelable E i cs (s\<lparr>pg_world := d\<rparr>))))" for d
  proof -
    obtain t d' where now: "pg_now E d = (t, d')" by (cases "pg_now E d")
    show ?thesis
      using row_update_effect [of i "\<lambda>q. q\<lparr>rState := ''canceled'', rUpdatedAt := t\<rparr>" "s\<lparr>pg_world := d'\<rparr>"]
      by (auto simp: sql_cancelPayoutIfCancelable_def now Let_def split: option.split)
  qed
  then have "?P (tbl_payouts (snd (PayoutRepo_CancelPayout E i cs s)))"
    unfolding snd_PayoutRepo by (rule round_trip_effect) simp
  then show thesis using that by blast
qed

text \<open>
  The rows before and after: the same ids in the same order, each row as it was or moved into one of
  the given states.
\<close>

definition moved :: "payout_state set \<Rightarrow> payout_row list \<Rightarrow> payout_row list \<Rightarrow> bool" where
  "moved S = list_all2 (\<lambda>q r. rID r = rID q \<and> (rState r = rState q \<or> rState r \<in> S))"

lemma moved_refl [simp]: "moved S rows rows"
  by (simp add: moved_def list_all2_refl)

lemma moved_map:
  "(\<And>q. rID (f q) = rID q \<and> rState (f q) \<in> S) \<Longrightarrow> moved S rows (map (\<lambda>q. if rID q = i then f q else q) rows)"
  by (auto simp: moved_def list_all2_conv_all_nth)

lemma moved_ids: "moved S rows rows' \<Longrightarrow> map rID rows' = map rID rows"
  by (auto simp: moved_def list_all2_conv_all_nth intro: nth_equalityI)

lemma update_moved: "upState u \<in> S \<Longrightarrow> moved S (tbl_payouts s) (tbl_payouts (snd (PayoutRepo_UpdatePayoutState E i u s)))"
  by (cases rule: update_effect [of E i u s]) (simp_all add: moved_map)

lemma cancel_moved: "''canceled'' \<in> S \<Longrightarrow> moved S (tbl_payouts s) (tbl_payouts (snd (PayoutRepo_CancelPayout E i cs s)))"
  by (cases rule: cancel_effect [of E i cs s]) (simp_all add: moved_map)

lemma find_ext_same: "findPayoutByExternalIDOrID V ref db = (res, db') \<Longrightarrow> same_tables db db'"
proof -
  assume run: "findPayoutByExternalIDOrID V ref db = (res, db')"
  obtain r1 db1 where f: "PayoutRepo_FindByExternalID (sePg V) ref db = (r1, db1)"
    by (metis prod.collapse)
  have 1: "same_tables db db1" using PayoutRepo_reads(2) [of db "sePg V" ref] f by simp
  have 2: "same_tables db1 (snd (PayoutRepo_GetPayout (sePg V) i db1))" for i
    by (rule PayoutRepo_reads(1))
  show ?thesis
    using run 1 same_tables_trans [OF 1 2]
    by (auto simp: findPayoutByExternalIDOrID_def f split: sum.splits option.splits prod.splits)
      (metis snd_conv)+
qed

lemma GetPayout_step:
  "Service_GetPayout V i s = (res, s') \<Longrightarrow> same_tables (ssPg s) (ssPg s') \<and> ssOrch s' = ssOrch s"
proof -
  assume run: "Service_GetPayout V i s = (res, s')"
  have "same_tables (ssPg s) db" if "PayoutRepo_GetPayout (sePg V) j (ssPg s) = (r, db)" for j r db
    using PayoutRepo_reads(1) [of "ssPg s" "sePg V" j] that by simp
  then show ?thesis
    using run by (auto simp: Service_GetPayout_def split: if_splits option.splits prod.splits sum.splits)
qed

text \<open>The effect of each handler, on any connection.\<close>

lemma CancelPayout_step:
  assumes run: "Service_CancelPayout V srv i s = (res, s')"
  shows "db_le (ssPg s) (ssPg s')" and "tbl_keys (ssPg s') = tbl_keys (ssPg s)"
    and "moved {''canceled''} (tbl_payouts (ssPg s)) (tbl_payouts (ssPg s'))"
proof -
  let ?ok = "\<lambda>db. db_le (ssPg s) db \<and> tbl_keys db = tbl_keys (ssPg s) \<and>
      moved {''canceled''} (tbl_payouts (ssPg s)) (tbl_payouts db)"
  have get: "same_tables (ssPg s) db" if "PayoutRepo_GetPayout (sePg V) j (ssPg s) = (r, db)" for j r db
    using PayoutRepo_reads(1) [of "ssPg s" "sePg V" j] that by simp
  then have ok1: "?ok db" if "PayoutRepo_GetPayout (sePg V) j (ssPg s) = (r, db)" for j r db
    using that by (auto simp: same_tables_def intro: same_tables_db_le)
  have ok2: "?ok db2" if "PayoutRepo_GetPayout (sePg V) j (ssPg s) = (r, db)"
    "PayoutRepo_CancelPayout (sePg V) j cancelableStates db = (r2, db2)" for j r db r2 db2
  proof -
    have "db_le db db2" "tbl_keys db2 = tbl_keys db" "moved {''canceled''} (tbl_payouts db) (tbl_payouts db2)"
      using PayoutRepo_db_le(4) [of db "sePg V" j cancelableStates]
        PayoutRepo_keys(3) [of "sePg V" j cancelableStates db]
        cancel_moved [of "{''canceled''}" db "sePg V" j cancelableStates] that(2) by simp_all
    then show ?thesis
      using get [OF that(1)] db_le_trans [OF same_tables_db_le [OF get [OF that(1)]]]
      by (simp add: same_tables_def)
  qed
  have "?ok (ssPg s')"
  proof (cases "i = []")
    case False
    show ?thesis
    proof (cases "seParse V i")
      case (Some j)
      obtain r db where g: "PayoutRepo_GetPayout (sePg V) j (ssPg s) = (r, db)" by (metis prod.collapse)
      obtain r2 db2 where c: "PayoutRepo_CancelPayout (sePg V) j cancelableStates db = (r2, db2)"
        by (metis prod.collapse)
      show ?thesis
        using run False Some g c ok1 [OF g] ok2 [OF g c]
        by (auto simp: Service_CancelPayout_def Let_def split: sum.splits if_splits)
    qed (use run False in \<open>auto simp: Service_CancelPayout_def\<close>)
  qed (use run in \<open>auto simp: Service_CancelPayout_def\<close>)
  then show "db_le (ssPg s) (ssPg s')" "tbl_keys (ssPg s') = tbl_keys (ssPg s)"
    "moved {''canceled''} (tbl_payouts (ssPg s)) (tbl_payouts (ssPg s'))" by blast+
qed

lemma ApplyProviderUpdate_step:
  assumes run: "Service_ApplyProviderUpdate V ref st s = (res, s')"
  shows "db_le (ssPg s) (ssPg s')" and "tbl_keys (ssPg s') = tbl_keys (ssPg s)"
    and "moved {''completed'', ''failed'', ''canceled''} (tbl_payouts (ssPg s)) (tbl_payouts (ssPg s'))"
    and "ssOrch s' = ssOrch s"
proof -
  let ?S = "{''completed'', ''failed'', ''canceled''}"
  let ?ok = "\<lambda>s'. db_le (ssPg s) (ssPg s') \<and> tbl_keys (ssPg s') = tbl_keys (ssPg s) \<and>
      moved ?S (tbl_payouts (ssPg s)) (tbl_payouts (ssPg s')) \<and> ssOrch s' = ssOrch s"
  obtain r db where f: "findPayoutByExternalIDOrID V ref (ssPg s) = (r, db)" by (metis prod.collapse)
  have same: "same_tables (ssPg s) db" by (rule find_ext_same [OF f])
  then have ok1: "?ok (s\<lparr>ssPg := db\<rparr>)" by (auto simp: same_tables_def intro: same_tables_db_le)
  have "?ok s'"
  proof (cases "ref = []")
    case False
    show ?thesis
    proof (cases r)
      case (Inr p)
      show ?thesis
      proof (cases "mapProviderStatusToState st")
        case (Inr new)
        then have new: "new \<in> ?S" by (auto simp: mapProviderStatusToState_def split: if_splits)
        let ?u = "\<lparr>upState = new, upExternalID = pExternalID p, upProvider = pProvider p\<rparr>"
        obtain r2 db2 where u: "PayoutRepo_UpdatePayoutState (sePg V) (pID p) ?u db = (r2, db2)"
          by (metis prod.collapse)
        have "db_le db db2" "tbl_keys db2 = tbl_keys db" "moved ?S (tbl_payouts db) (tbl_payouts db2)"
          using PayoutRepo_db_le(3) [of db "sePg V" "pID p" ?u] PayoutRepo_keys(2) [of "sePg V" "pID p" ?u db]
            update_moved [of ?u ?S db "sePg V" "pID p"] new u by simp_all
        then have "?ok (s\<lparr>ssPg := db2\<rparr>)"
          using same db_le_trans [OF same_tables_db_le [OF same]] by (simp add: same_tables_def)
        then show ?thesis
          using run False f \<open>r = Inr p\<close> Inr u
          by (auto simp: Service_ApplyProviderUpdate_def split: sum.splits)
      qed (use run False f Inr ok1 in \<open>auto simp: Service_ApplyProviderUpdate_def\<close>)
    qed (use run False f ok1 in \<open>auto simp: Service_ApplyProviderUpdate_def\<close>)
  qed (use run in \<open>auto simp: Service_ApplyProviderUpdate_def\<close>)
  then show "db_le (ssPg s) (ssPg s')" "tbl_keys (ssPg s') = tbl_keys (ssPg s)"
    "moved ?S (tbl_payouts (ssPg s)) (tbl_payouts (ssPg s'))" "ssOrch s' = ssOrch s" by blast+
qed

text \<open>
  CreatePayout adds one row and one key that names it, or leaves the tables and the orchestrator as
  they are.
\<close>

lemma CreatePayout_step:
  assumes run: "Service_CreatePayout V srv req s = (res, s')"
  obtains (same) "same_tables (ssPg s) (ssPg s')" and "ssOrch s' = ssOrch s"
  | (new) row krow where "tbl_payouts (ssPg s') = tbl_payouts (ssPg s) @ [row]"
      and "tbl_keys (ssPg s') = tbl_keys (ssPg s) @ [krow]"
      and "rID row \<notin> rID ` set (tbl_payouts (ssPg s))"
      and "crIdempotencyKey req \<notin> ikKey ` set (tbl_keys (ssPg s))"
      and "ikKey krow = crIdempotencyKey req" and "ikRequestHash krow = crRequestHash req"
      and "ikPayoutID krow = rID row"
      and "rState row \<in> {''created'', ''sent'', ''failed''}"
      and "\<And>a. res = Inr a \<Longrightarrow> srv \<noteq> None \<Longrightarrow> caPayoutId a = seString V (rID row)"
proof (cases "crIdempotencyKey req = [] \<or> crRequestHash req = []")
  case True
  then show thesis using run same by (auto simp: Service_CreatePayout_def split: if_splits)
next
  case False
  then have "crIdempotencyKey req \<noteq> []" "crRequestHash req \<noteq> []" by auto
  from this run show thesis
  proof (cases rule: CreatePayout_cases)
    case (sent p0 row krow p db1)
    obtain u dflt o1 r2 db2 where so: "send_outcome V srv p0 (ssOrch s) = (u, dflt, o1)"
      and upd: "PayoutRepo_UpdatePayoutState (sePg V) (pID p0) u db1 = (r2, db2)"
      and out: "sendPayoutWithOrchestrator V srv p0 (s\<lparr>ssPg := db1\<rparr>) =
        (case r2 of Inl err \<Rightarrow> dflt | Inr updated \<Rightarrow> updated, \<lparr>ssPg = db2, ssOrch = o1\<rparr>)"
      by (rule sendPayout_cases [of V srv p0 "s\<lparr>ssPg := db1\<rparr>"]) auto
    have u: "upState u \<in> {''sent'', ''failed''}"
      using so by (auto simp: send_outcome_def split: option.splits prod.splits if_splits)
    have id: "pID p0 = rID row" by (simp add: sent(3))
    have others: "q \<in> set (tbl_payouts (ssPg s)) \<Longrightarrow> rID q \<noteq> rID row" for q using sent(6) by (metis image_eqI)
    have "\<exists>row'. tbl_payouts db2 = tbl_payouts (ssPg s) @ [row'] \<and> rID row' = rID row \<and>
        rState row' \<in> {''created'', ''sent'', ''failed''}"
    proof (cases rule: update_effect [of "sePg V" "pID p0" u db1])
      case 1
      then show ?thesis using upd sent(3,4,9) by simp
    next
      case (2 t)
      let ?f = "\<lambda>q. q\<lparr>rState := upState u, rExternalID := upExternalID u,
                     rProvider := provider_param (upProvider u), rUpdatedAt := t\<rparr>"
      have "map (\<lambda>q. if rID q = rID row then ?f q else q) (tbl_payouts (ssPg s)) = tbl_payouts (ssPg s)"
        using others by (intro map_idI) auto
      then have "tbl_payouts db2 = tbl_payouts (ssPg s) @ [?f row]"
        using 2 upd sent(4) id by simp
      then show ?thesis using u by auto
    qed
    then obtain row' where row': "tbl_payouts db2 = tbl_payouts (ssPg s) @ [row']"
      "rID row' = rID row" "rState row' \<in> {''created'', ''sent'', ''failed''}" by blast
    have keys: "tbl_keys db2 = tbl_keys db1"
      using PayoutRepo_keys(2) [of "sePg V" "pID p0" u db1] upd by simp
    have ans: "pID p = rID row" if "srv \<noteq> None"
    proof (cases r2)
      case (Inl e)
      have "dflt = p0" using so that by (auto simp: send_outcome_def split: option.splits prod.splits)
      then show ?thesis using out sent(1) Inl id by simp
    next
      case (Inr q)
      then have "store_of db2 (pID p0) = Some q"
        using upd by (metis fun_upd_same repo_update_answer)
      then show ?thesis using out sent(1) Inr id store_of_id by fastforce
    qed
    show thesis
      using row' keys out sent ans by (intro new [of row' krow]) auto
  next
    case (existing krow m)
    then show thesis using same by blast
  next
    case (failed m)
    then show thesis using same by blast
  next
    case (lost row krow m)
    then show thesis
      by (intro new [of row krow]) auto
  qed
qed

section \<open>The invariant of the tables\<close>

text \<open>
  Keys and payouts correspond: beside the constraints, every payout is named by exactly one
  idempotency key and every key names a payout. No foreign key enforces this.
\<close>

definition service_inv :: "'d pg \<Rightarrow> bool" where
  "service_inv db \<longleftrightarrow>
     tables_ok db \<and> mset (map ikPayoutID (tbl_keys db)) = mset (map rID (tbl_payouts db)) \<and>
     (\<forall>r \<in> set (tbl_payouts db). rState r \<in> {''created'', ''sent'', ''failed'', ''canceled'', ''completed''})"

text \<open>The states that one step may put an existing payout into.\<close>

abbreviation ending_states :: "payout_state set" where
  "ending_states \<equiv> {''completed'', ''failed'', ''canceled''}"

lemma moved_mono: "moved S rows rows' \<Longrightarrow> S \<subseteq> T \<Longrightarrow> moved T rows rows'"
  unfolding moved_def by (erule list_all2_mono) auto

lemma moved_states:
  "moved S rows rows' \<Longrightarrow> r \<in> set rows' \<Longrightarrow> rState r \<in> S \<or> rState r \<in> rState ` set rows"
  by (auto simp: moved_def list_all2_conv_all_nth in_set_conv_nth) (metis image_eqI nth_mem)

text \<open>All that a step does: it adds a payout with its key, or it moves payouts into ending states.\<close>

lemma service_step_effect:
  assumes "service_step V srv s e s'"
  obtains (moved) "db_le (ssPg s) (ssPg s')" and "tbl_keys (ssPg s') = tbl_keys (ssPg s)"
      and "moved ending_states (tbl_payouts (ssPg s)) (tbl_payouts (ssPg s'))"
      and "\<And>req res. e = Created req res \<Longrightarrow> ssOrch s' = ssOrch s"
  | (new) req res row krow where "e = Created req res" and "db_le (ssPg s) (ssPg s')"
      and "tbl_payouts (ssPg s') = tbl_payouts (ssPg s) @ [row]"
      and "tbl_keys (ssPg s') = tbl_keys (ssPg s) @ [krow]"
      and "crIdempotencyKey req \<notin> ikKey ` set (tbl_keys (ssPg s))"
      and "ikKey krow = crIdempotencyKey req" and "ikPayoutID krow = rID row"
      and "rState row \<in> {''created'', ''sent'', ''failed''}"
  using assms
proof cases
  case (create req res)
  have le: "db_le (ssPg s) (ssPg s')"
    using Service_CreatePayout_db_le [of s V srv req] create by simp
  from create(2) show thesis
  proof (cases rule: CreatePayout_step)
    case same
    then show thesis using le moved by (simp add: same_tables_def)
  next
    case (new row krow)
    then show thesis using le create(1) by (intro that(2)) auto
  qed
next
  case (get i res)
  then show thesis using GetPayout_step [OF get(2)] moved
    by (simp add: same_tables_def same_tables_db_le)
next
  case (cancel i res)
  note step = CancelPayout_step [OF cancel(2)]
  show thesis using cancel(1) step(1,2) moved_mono [OF step(3), of ending_states] moved by simp
next
  case (update i st res)
  then show thesis using ApplyProviderUpdate_step [OF update(2)] moved by simp
next
  case (elsewhere d w)
  then show thesis by (intro moved) (simp_all add: same_tables_db_le)
qed

lemma service_inv_step:
  assumes "service_step V srv s e s'" and inv: "service_inv (ssPg s)"
  shows "service_inv (ssPg s')"
  using assms(1)
proof (cases rule: service_step_effect)
  case moved
  have "rState r \<in> {''created'', ''sent'', ''failed'', ''canceled'', ''completed''}"
    if "r \<in> set (tbl_payouts (ssPg s'))" for r
    using moved_states [OF moved(3) that]
  proof
    assume "rState r \<in> rState ` set (tbl_payouts (ssPg s))"
    then obtain q where q: "q \<in> set (tbl_payouts (ssPg s))" "rState r = rState q" by (rule imageE)
    then show ?thesis using inv by (simp only: q(2) service_inv_def)
  qed auto
  moreover have "tables_ok (ssPg s')" using moved(1) inv by (simp add: db_le_def service_inv_def)
  moreover have "mset (map ikPayoutID (tbl_keys (ssPg s'))) = mset (map rID (tbl_payouts (ssPg s')))"
    using inv moved_ids [OF moved(3)] moved(2) unfolding service_inv_def by presburger
  ultimately show ?thesis unfolding service_inv_def by blast
next
  case (new req res row krow)
  then show ?thesis using inv by (auto simp: service_inv_def db_le_def)
qed

lemma service_run_inv:
  "service_run V srv s tr s' \<Longrightarrow> service_inv (ssPg s) \<Longrightarrow> service_inv (ssPg s')"
  by (induction rule: service_run.induct) (auto intro: service_inv_step)

lemma service_step_db_le: "service_step V srv s e s' \<Longrightarrow> db_le (ssPg s) (ssPg s')"
  by (erule service_step_effect)

lemma service_run_db_le: "service_run V srv s tr s' \<Longrightarrow> db_le (ssPg s) (ssPg s')"
  by (induction rule: service_run.induct) (auto intro: db_le_trans service_step_db_le)

text \<open>
  The invariant of the service. In every state that requests, provider reports and failing
  connections can reach from empty tables, the constraints hold, keys and payouts correspond one to
  one, and every payout is created, sent, failed, canceled or completed: \<open>queued\<close>, \<open>pending\<close>,
  \<open>processing\<close> and \<open>succeeded\<close> are never written.
\<close>

lemma service_invariant:
  assumes "service_run V srv s tr s'" and "tbl_payouts (ssPg s) = []" and "tbl_keys (ssPg s) = []"
  shows "service_inv (ssPg s')"
proof (rule service_run_inv [OF assms(1)])
  show "service_inv (ssPg s)"
    using assms(2,3) by (simp add: service_inv_def tables_ok_def rows_ok_def)
qed

lemma service_invariant_witness:
  "service_inv (ssPg (snd (Service_CreatePayout demo_service (Some demo_stripe) (demo_request ''h'') demo_empty)))"
proof -
  obtain res s' where c: "Service_CreatePayout demo_service (Some demo_stripe) (demo_request ''h'') demo_empty = (res, s')"
    by (metis prod.collapse)
  have "service_run demo_service (Some demo_stripe) demo_empty
      [(demo_empty, Created (demo_request ''h'') res, s')] s'"
    by (intro service_run.intros service_step.create c)
  from service_invariant [OF this] c show ?thesis by (simp add: demo_empty_def)
qed

section \<open>Idempotency over time\<close>

text \<open>
  C2: the answer to a key is for good. Once a request has been answered with a payout id, then after
  any run of the service, a request with the same key and hash stores nothing and calls no provider,
  and if it is answered at all the payout id is the same.
\<close>

theorem CreatePayout_once:
  assumes "service_inv (ssPg s0)"
    and first: "Service_CreatePayout V (Some orc) req s0 = (Inr a, s1)"
    and run: "service_run V (Some orc) s1 tr s2"
    and "crIdempotencyKey req' = crIdempotencyKey req" and "crRequestHash req' = crRequestHash req"
  shows "let (res, s3) = Service_CreatePayout V (Some orc) req' s2 in
    same_tables (ssPg s2) (ssPg s3) \<and> ssOrch s3 = ssOrch s2 \<and>
    (case res of Inr a' \<Rightarrow> caPayoutId a' = caPayoutId a | Inl e \<Rightarrow> True)"
proof -
  have nonempty: "crIdempotencyKey req \<noteq> []" "crRequestHash req \<noteq> []"
    using first by (auto simp: Service_CreatePayout_def split: if_splits)
  have inv1: "service_inv (ssPg s1)"
    using assms(1) by (rule service_inv_step [OF service_step.create [OF first]])
  have inv2: "service_inv (ssPg s2)" using run inv1 by (rule service_run_inv)
  have "\<exists>krow \<in> set (tbl_keys (ssPg s1)). ikKey krow = crIdempotencyKey req \<and>
      ikRequestHash krow = crRequestHash req \<and> caPayoutId a = seString V (ikPayoutID krow)"
    using first
  proof (cases rule: CreatePayout_step)
    case same
    from nonempty first show ?thesis
    proof (cases rule: CreatePayout_cases)
      case (existing krow m)
      then show ?thesis by (auto simp: same_tables_def store_of_id split: if_splits)
    next
      case (sent p0 row krow p db1)
      have "length (tbl_keys (ssPg s1)) = Suc (length (tbl_keys (ssPg s0)))"
        using sendPayout_cases [of V "Some orc" p0 "s0\<lparr>ssPg := db1\<rparr>"] sent(1,5)
        by (metis PayoutRepo_keys(2) length_append_singleton service_state.select_convs(1)
            service_state.simps(3) snd_conv service_state.update_convs(1) service_state.surjective)
      then show ?thesis using same by (simp add: same_tables_def)
    qed simp_all
  next
    case (new row krow)
    then show ?thesis using new(9) [of a] by (intro bexI [of _ krow]) auto
  qed
  then obtain krow where krow: "krow \<in> set (tbl_keys (ssPg s1))" "ikKey krow = crIdempotencyKey req'"
    "ikRequestHash krow = crRequestHash req'" "caPayoutId a = seString V (ikPayoutID krow)"
    using assms(4,5) by auto
  have "krow \<in> set (tbl_keys (ssPg s2))"
    using service_run_db_le [OF run] krow(1) by (auto simp: db_le_def evolves_def)
  moreover have "tables_ok (ssPg s2)" using inv2 by (simp add: service_inv_def)
  ultimately show ?thesis
    by (rule_tac CreatePayout_existing_key [of s2 krow req' V "Some orc"])
      (use krow nonempty assms(4,5) in \<open>auto simp: store_of_id\<close>)
qed


definition demo_answered :: "(unit, uuid) service_state" where
  "demo_answered = snd (Service_CreatePayout demo_service (Some demo_stripe) (demo_request ''h'') demo_state)"

text \<open>What evaluates the handler on a concrete state.\<close>

lemmas service_evaluation = PayoutRepo_CreatePayout_def
  Queries_CreatePayout_def round_trip_def sql_createPayout_def row_checks_def db_states_def
  db_rails_def provider_param_def ext_taken_def IdempotencyRepo_TryInsertIdempotencyKey_def
  Queries_TryInsertIdempotencyKey_def sql_tryInsertIdempotencyKey_def
  Queries_GetIdempotencyKey_def sql_getIdempotencyKey_def rollback_def PayoutRepo_GetPayout_def
  Queries_GetPayout_def sql_getPayout_def row_or_not_found_def toDomainPayout_def
  toDomainIdempotencyKey_def Let_def

lemma demo_replay:
  "fst (Service_CreatePayout demo_service (Some demo_stripe) (demo_request ''h'') demo_state) =
     Inr \<lparr>caPayoutId = ''1'', caStatus = ''sent''\<rparr>"
  by (simp add: Service_CreatePayout_def RunInTx_def create_tx_def demo_service_def demo_pg_def
      demo_request_def demo_state_def demo_row_def demo_key_def service_evaluation)

theorem CreatePayout_once_witness:
  "let (res, s3) = Service_CreatePayout demo_service (Some demo_stripe) (demo_request ''h'') demo_answered in
    same_tables (ssPg demo_answered) (ssPg s3) \<and> ssOrch s3 = ssOrch demo_answered \<and>
    (case res of Inr a' \<Rightarrow> caPayoutId a' = ''1'' | Inl e \<Rightarrow> True)"
proof -
  have "service_inv (ssPg demo_state)"
    using demo_tables_ok by (simp add: service_inv_def demo_state_def demo_row_def demo_key_def)
  moreover have "Service_CreatePayout demo_service (Some demo_stripe) (demo_request ''h'') demo_state =
      (Inr \<lparr>caPayoutId = ''1'', caStatus = ''sent''\<rparr>, demo_answered)"
    by (simp add: prod_eq_iff demo_answered_def demo_replay)
  ultimately show ?thesis
    using CreatePayout_once [OF _ _ service_run.stop, of demo_state demo_service demo_stripe
        "demo_request ''h''" "\<lparr>caPayoutId = ''1'', caStatus = ''sent''\<rparr>" demo_answered "demo_request ''h''"]
    by (simp add: split_beta split: sum.splits)
qed

section \<open>At most one sending per key\<close>

definition sends :: "string \<Rightarrow> ('p, 'd) service_state \<times> event \<times> ('p, 'd) service_state \<Rightarrow> bool" where
  "sends k x \<longleftrightarrow> (case x of (s, e, s') \<Rightarrow>
     (case e of Created req res \<Rightarrow> crIdempotencyKey req = k \<and> ssOrch s' \<noteq> ssOrch s | _ \<Rightarrow> False))"

lemma sends_new:
  assumes "service_step V srv s e s'" and "sends k (s, e, s')"
  shows "k \<notin> ikKey ` set (tbl_keys (ssPg s)) \<and> k \<in> ikKey ` set (tbl_keys (ssPg s'))"
  using assms(1)
proof (cases rule: service_step_effect)
  case moved
  then show ?thesis using assms(2) by (auto simp: sends_def split: event.splits)
next
  case (new req res row krow)
  then show ?thesis using assms(2) by (auto simp: sends_def)
qed

lemma keys_kept:
  assumes "service_step V srv s e s'" shows "ikKey ` set (tbl_keys (ssPg s)) \<subseteq> ikKey ` set (tbl_keys (ssPg s'))"
  using service_step_db_le [OF assms] by (auto simp: db_le_def evolves_def)

lemma sends_bound:
  "service_run V srv s tr s' \<Longrightarrow>
   length (filter (sends k) tr) \<le> (if k \<in> ikKey ` set (tbl_keys (ssPg s)) then 0 else 1)"
proof (induction rule: service_run.induct)
  case (more s e s1 tr s')
  then show ?case
    using sends_new [OF more.hyps(1), of k] keys_kept [OF more.hyps(1)] by (auto split: if_splits)
qed simp

text \<open>
  A payout is not sent twice. In any run, whatever is retried and whichever answers are lost, at
  most one of the requests with a given idempotency key reaches the providers.
\<close>

lemma sent_at_most_once:
  assumes "service_run V srv s tr s'"
  shows "length (filter (sends k) tr) \<le> 1"
  using sends_bound [OF assms, of k] by (auto split: if_splits)

lemma sent_at_most_once_witness:
  "length (filter (sends ''k'')
     [(demo_empty, Created (demo_request ''h'')
         (fst (Service_CreatePayout demo_service (Some demo_stripe) (demo_request ''h'') demo_empty)),
       snd (Service_CreatePayout demo_service (Some demo_stripe) (demo_request ''h'') demo_empty))]) \<le> 1"
proof (rule sent_at_most_once)
  show "service_run demo_service (Some demo_stripe) demo_empty
      [(demo_empty, Created (demo_request ''h'')
         (fst (Service_CreatePayout demo_service (Some demo_stripe) (demo_request ''h'') demo_empty)),
       snd (Service_CreatePayout demo_service (Some demo_stripe) (demo_request ''h'') demo_empty))]
      (snd (Service_CreatePayout demo_service (Some demo_stripe) (demo_request ''h'') demo_empty))"
    by (intro service_run.intros service_step.create) simp
qed

text \<open>
  C38: but it may never be sent. If the answer to the commit is lost, the request fails although the
  payout and its key are stored; no provider has been asked, and none is by any later request with
  the key: the retries are answered from the stored payout, which stays where it is.
\<close>

theorem lost_commit_never_sent:
  assumes first: "Service_CreatePayout V srv req s0 = (Inl e, s1)"
    and "crIdempotencyKey req \<notin> ikKey ` set (tbl_keys (ssPg s0))"
    and "crIdempotencyKey req \<in> ikKey ` set (tbl_keys (ssPg s1))"
    and run: "service_run V srv s1 tr s2"
  shows "ssOrch s1 = ssOrch s0 \<and> filter (sends (crIdempotencyKey req)) tr = [] \<and>
    (\<exists>i p. store_of (ssPg s0) i = None \<and> store_of (ssPg s1) i = Some p \<and> pState p = ''created'')"
proof -
  have nonempty: "crIdempotencyKey req \<noteq> []" "crRequestHash req \<noteq> []"
    using first assms(2,3) by (auto simp: Service_CreatePayout_def split: if_splits)
  have none: "filter (sends (crIdempotencyKey req)) tr = []"
    using sends_bound [OF run, of "crIdempotencyKey req"] assms(3) by simp
  from nonempty first show ?thesis
  proof (cases rule: CreatePayout_cases)
    case (lost row krow m)
    have new: "find (\<lambda>r. rID r = rID row) (tbl_payouts (ssPg s0)) = None"
      using lost(5) by (auto simp: find_None_iff image_iff)
    then have "store_of (ssPg s0) (rID row) = None"
      "store_of (ssPg s1) (rID row) = Some (toDomainPayout row)"
      by (simp_all add: store_of_def lost(3) find_append_one)
    then show ?thesis using none lost(2,8) by (metis toDomainPayout_simps(2))
  qed (use assms(2,3) in \<open>auto simp: same_tables_def\<close>)
qed

definition demo_lossy :: "(nat, unit, nat) service_env" where
  "demo_lossy = \<lparr>sePg = \<lparr>pg_net = (\<lambda>d. (if d = 4 then LostAfter ''08006'' ''connection lost'' else Delivered, d + 1)),
       pg_uuid = (\<lambda>d. (7, d + 1)), pg_now = (\<lambda>d. (5, d))\<rparr>,
     seRails = demo_rails, seParse = (\<lambda>x. None), seString = (\<lambda>u. ''7'')\<rparr>"

definition demo_lossy_start :: "(unit, nat) service_state" where
  "demo_lossy_start = \<lparr>ssPg = \<lparr>tbl_payouts = [], tbl_keys = [], pg_world = 0\<rparr>, ssOrch = demo_orch_state\<rparr>"

lemma demo_lost_commit:
  "\<exists>e. Service_CreatePayout demo_lossy (Some demo_stripe) (demo_request ''h'') demo_lossy_start =
     (Inl e, \<lparr>ssPg = \<lparr>tbl_payouts = [\<lparr>rID = 7, rState = ''created'', rAmountCents = 100,
          rCurrency = ''USD'', rRail = ''card'', rProvider = None, rExternalID = None,
          rCreatedAt = 5, rUpdatedAt = 5\<rparr>],
        tbl_keys = [\<lparr>ikKey = ''k'', ikRequestHash = ''h'', ikPayoutID = 7, ikCreatedAt = 5\<rparr>],
        pg_world = 5\<rparr>, ssOrch = demo_orch_state\<rparr>)"
  by (simp add: Service_CreatePayout_def RunInTx_def create_tx_def demo_lossy_def demo_request_def
      demo_lossy_start_def service_evaluation)

theorem lost_commit_never_sent_witness:
  "ssOrch (snd (Service_CreatePayout demo_lossy (Some demo_stripe) (demo_request ''h'') demo_lossy_start)) =
     demo_orch_state"
proof -
  obtain e s1 where c: "Service_CreatePayout demo_lossy (Some demo_stripe) (demo_request ''h'') demo_lossy_start = (Inl e, s1)"
    and k: "''k'' \<in> ikKey ` set (tbl_keys (ssPg s1))"
    using demo_lost_commit by force
  have "crIdempotencyKey (demo_request ''h'') = ''k''" by (simp add: demo_request_def)
  moreover have "tbl_keys (ssPg demo_lossy_start) = []" "ssOrch demo_lossy_start = demo_orch_state"
    by (simp_all add: demo_lossy_start_def)
  ultimately show ?thesis
    using lost_commit_never_sent [OF c _ _ service_run.stop] k c by simp
qed

section \<open>What a run keeps\<close>

text \<open>What a payout keeps, while its state may change into one of \<open>S\<close>.\<close>

definition kept :: "payout_state set \<Rightarrow> payout \<Rightarrow> payout \<Rightarrow> bool" where
  "kept S p p' \<longleftrightarrow> pID p' = pID p \<and> pAmountCents p' = pAmountCents p \<and> pCurrency p' = pCurrency p \<and>
     pRail p' = pRail p \<and> pCreatedAt p' = pCreatedAt p \<and> pState p' \<in> insert (pState p) S"

lemma kept_trans: "kept S p q \<Longrightarrow> kept S q r \<Longrightarrow> kept S p r"
  by (auto simp: kept_def)

lemma kept_refl [simp]: "kept S p p"
  by (simp add: kept_def)

definition store_kept :: "payout_state set \<Rightarrow> 'd pg \<Rightarrow> 'd pg \<Rightarrow> bool" where
  "store_kept S db db' \<longleftrightarrow> (\<forall>i p. store_of db i = Some p \<longrightarrow> (\<exists>p'. store_of db' i = Some p' \<and> kept S p p'))"

lemma store_kept_refl [simp]: "store_kept S db db"
  by (auto simp: store_kept_def intro: kept_refl)

lemma store_kept_trans: "store_kept S a b \<Longrightarrow> store_kept S b c \<Longrightarrow> store_kept S a c"
  unfolding store_kept_def by (meson kept_trans)

lemma store_kept_new: "tbl_payouts db' = tbl_payouts db @ [row] \<Longrightarrow> store_kept S db db'"
  by (auto simp: store_kept_def store_of_def find_append_one split: option.splits intro!: kept_refl)

lemma store_kept_moved:
  assumes "tables_ok db" and "db_le db db'" and "moved S (tbl_payouts db) (tbl_payouts db')"
  shows "store_kept S db db'"
  unfolding store_kept_def
proof (intro allI impI)
  fix i p assume "store_of db i = Some p"
  then obtain r where r: "find (\<lambda>r. rID r = i) (tbl_payouts db) = Some r" "p = toDomainPayout r" "rID r = i"
    by (rule store_row)
  have ok: "tables_ok db'" and ev: "evolves db db'" using assms(1,2) by (simp_all add: db_le_def)
  obtain r' where r': "find (\<lambda>r. rID r = i) (tbl_payouts db') = Some r'" "same_payout r r'"
    using evolves_find [OF ev ok r(1)] .
  then have "r' \<in> set (tbl_payouts db')" "rID r' = i" using tables_ok_find [OF ok] by auto
  then obtain n where n: "n < length (tbl_payouts db)" "rID (tbl_payouts db ! n) = i"
    "rState r' = rState (tbl_payouts db ! n) \<or> rState r' \<in> S"
    using assms(3) by (auto simp: moved_def list_all2_conv_all_nth in_set_conv_nth)
  then have q: "tbl_payouts db ! n = r" using r(1) tables_ok_find [OF assms(1), of i "tbl_payouts db ! n"] by simp
  then have "kept S p (toDomainPayout r')"
    using n(3) q r' r(2) by (auto simp: kept_def same_payout_def toDomainPayout_def)
  then show "\<exists>p'. store_of db' i = Some p' \<and> kept S p p'" using r'(1) by (simp add: store_of_def)
qed

lemma payouts_kept:
  assumes "service_run V srv s tr s'" and "service_inv (ssPg s)"
  shows "store_kept ending_states (ssPg s) (ssPg s')"
  using assms
proof (induction rule: service_run.induct)
  case (more s e s1 tr s')
  have "store_kept ending_states (ssPg s) (ssPg s1)"
    using more.hyps(1)
  proof (cases rule: service_step_effect)
    case moved
    then show ?thesis using more.prems service_step_db_le [OF more.hyps(1)] by (intro store_kept_moved) (simp_all add: service_inv_def)
  qed (rule store_kept_new)
  then show ?case using more.IH service_inv_step [OF more.hyps(1) more.prems] by (auto intro: store_kept_trans)
qed simp

text \<open>
  What was agreed stays. Over any run no payout and no key disappears, and a payout keeps its
  id, amount, currency, rail and creation time; if it is not new, its state at the end is the one at
  the beginning, or completed, failed or canceled.
\<close>

lemma payout_history:
  assumes "service_run V srv s tr s'" and "service_inv (ssPg s)"
    and "store_of (ssPg s) i = Some p"
  shows "\<exists>p'. store_of (ssPg s') i = Some p' \<and> pAmountCents p' = pAmountCents p \<and>
    pCurrency p' = pCurrency p \<and> pRail p' = pRail p \<and> pCreatedAt p' = pCreatedAt p \<and>
    pState p' \<in> {pState p, ''completed'', ''failed'', ''canceled''}"
  using payouts_kept [OF assms(1,2)] assms(3) unfolding store_kept_def kept_def by fastforce

lemma payout_history_witness:
  "\<exists>p'. store_of (ssPg demo_state) 1 = Some p' \<and> pAmountCents p' = 100"
proof -
  have "service_inv (ssPg demo_state)"
    using demo_tables_ok by (simp add: service_inv_def demo_state_def demo_row_def demo_key_def)
  moreover have "store_of (ssPg demo_state) 1 = Some (toDomainPayout demo_row)"
    by (simp add: store_of_def demo_state_def demo_row_def)
  ultimately show ?thesis
    using payout_history [OF service_run.stop, of demo_state 1 "toDomainPayout demo_row"]
    by (auto simp: demo_row_def)
qed

end
