(* ===== verification/Redis.thy ===== *)
theory Redis
  imports GoErrors
begin

text \<open>
  The key space of the Redis server as far as the program's commands go: SETNX, EXPIRE, HMGET and
  HMSET on string keys with an expiry. The server itself is not under \<open>src/\<close>; the fate of each
  round trip and the server's clock (milliseconds) are parameters, functions on an abstract state.
\<close>

section \<open>State\<close>

datatype redis_value = RString string | RHash "string \<Rightarrow> string option"

record 'w redis =
  rd_keys :: "string \<Rightarrow> (redis_value \<times> int option) option"
  rd_world :: 'w

record 'w redis_env =
  rd_net :: "'w \<Rightarrow> delivery \<times> 'w"
  rd_now :: "'w \<Rightarrow> int \<times> 'w"

text \<open>A key is gone once its expiry time has come.\<close>

definition live :: "int \<Rightarrow> (redis_value \<times> int option) option \<Rightarrow> redis_value option" where
  "live t e = (case e of
     None \<Rightarrow> None
   | Some (v, None) \<Rightarrow> Some v
   | Some (v, Some limit) \<Rightarrow> if t < limit then Some v else None)"

definition wrong_type :: go_error where
  "wrong_type = ErrText ''WRONGTYPE Operation against a key holding the wrong kind of value''"

section \<open>Commands\<close>

text \<open>A command runs at the server's present time; its answer may be lost.\<close>

definition redis_do ::
    "'w redis_env \<Rightarrow> (int \<Rightarrow> 'w redis \<Rightarrow> 'a result \<times> 'w redis) \<Rightarrow> 'w redis \<Rightarrow> 'a result \<times> 'w redis" where
  "redis_do E cmd s =
     (case rd_net E (rd_world s) of (net, w) \<Rightarrow>
      case rd_now E w of (t, w') \<Rightarrow>
        let s1 = s\<lparr>rd_world := w'\<rparr> in
        (case net of
           Delivered \<Rightarrow> cmd t s1
         | LostBefore c m \<Rightarrow> (Inl (ErrText m), s1)
         | LostAfter c m \<Rightarrow> (Inl (ErrText m), snd (cmd t s1))))"

definition redis_setnx :: "string \<Rightarrow> string \<Rightarrow> int \<Rightarrow> 'w redis \<Rightarrow> bool result \<times> 'w redis" where
  "redis_setnx k v t s =
     (case live t (rd_keys s k) of
        Some _ \<Rightarrow> (Inr False, s)
      | None \<Rightarrow> (Inr True, s\<lparr>rd_keys := (rd_keys s)(k \<mapsto> (RString v, None))\<rparr>))"

definition redis_expire :: "string \<Rightarrow> int \<Rightarrow> int \<Rightarrow> 'w redis \<Rightarrow> bool result \<times> 'w redis" where
  "redis_expire k seconds t s =
     (case live t (rd_keys s k) of
        None \<Rightarrow> (Inr False, s)
      | Some v \<Rightarrow> (Inr True, s\<lparr>rd_keys := (rd_keys s)(k \<mapsto> (v, Some (t + 1000 * seconds)))\<rparr>))"

text \<open>HMGET answers one value per field, nil where the field or the key is missing.\<close>

definition redis_hmget ::
    "string \<Rightarrow> string list \<Rightarrow> int \<Rightarrow> 'w redis \<Rightarrow> string option list result \<times> 'w redis" where
  "redis_hmget k fs t s =
     (case live t (rd_keys s k) of
        None \<Rightarrow> (Inr (map (\<lambda>_. None) fs), s)
      | Some (RHash h) \<Rightarrow> (Inr (map h fs), s)
      | Some (RString _) \<Rightarrow> (Inl wrong_type, s))"

text \<open>HMSET keeps the expiry of a key that is there.\<close>

definition redis_hmset ::
    "string \<Rightarrow> (string \<times> string) list \<Rightarrow> int \<Rightarrow> 'w redis \<Rightarrow> unit result \<times> 'w redis" where
  "redis_hmset k kvs t s =
     (case live t (rd_keys s k) of
        Some (RString _) \<Rightarrow> (Inl wrong_type, s)
      | Some (RHash h) \<Rightarrow>
          (Inr (), s\<lparr>rd_keys := (rd_keys s)(k \<mapsto> (RHash (h ++ map_of (rev kvs)),
             case rd_keys s k of Some (_, e) \<Rightarrow> e | None \<Rightarrow> None))\<rparr>)
      | None \<Rightarrow> (Inr (), s\<lparr>rd_keys := (rd_keys s)(k \<mapsto> (RHash (map_of (rev kvs)), None))\<rparr>))"

section \<open>What the commands leave alone\<close>

lemma redis_do_cases:
  obtains (answered) t w where "redis_do E cmd s = cmd t (s\<lparr>rd_world := w\<rparr>)"
  | (lost) m w where "redis_do E cmd s = (Inl (ErrText m), s\<lparr>rd_world := w\<rparr>)"
  | (silent) m t w where "redis_do E cmd s = (Inl (ErrText m), snd (cmd t (s\<lparr>rd_world := w\<rparr>)))"
proof -
  obtain net w where n: "rd_net E (rd_world s) = (net, w)" by (cases "rd_net E (rd_world s)")
  obtain t w' where t: "rd_now E w = (t, w')" by (cases "rd_now E w")
  show thesis
    by (cases net) (use n t in \<open>auto simp: redis_do_def Let_def intro: that\<close>)
qed

lemma redis_frame:
  assumes "j \<noteq> k"
  shows "rd_keys (snd (redis_setnx k v t s)) j = rd_keys s j"
    and "rd_keys (snd (redis_expire k n t s)) j = rd_keys s j"
    and "rd_keys (snd (redis_hmset k kvs t s)) j = rd_keys s j"
  using assms
  by (auto simp: redis_setnx_def redis_expire_def redis_hmset_def split: option.split redis_value.split)

end
