(* ===== verification/Json.thy ===== *)
theory Json
  imports Prelude
begin

text \<open>
  JSON values as \<open>encoding/json\<close> sees them: a number is the text of its literal, since Go decides by
  the text whether it fits an integer; an object lists its members in their order.
\<close>

datatype json =
    JNull | JBool bool | JNumber string | JString string | JArray "json list"
  | JObject "(string \<times> json) list"

section \<open>Integers\<close>

text \<open>\<open>strconv.ParseInt(lit, 10, 64)\<close>: an optional sign, digits only, in the range of \<open>int64\<close>.\<close>

definition is_digit :: "char \<Rightarrow> bool" where
  "is_digit c \<longleftrightarrow> 48 \<le> (of_char c :: nat) \<and> (of_char c :: nat) \<le> 57"

definition digits_value :: "string \<Rightarrow> int" where
  "digits_value ds = foldl (\<lambda>n c. 10 * n + (of_char c - 48)) 0 ds"

definition split_sign :: "string \<Rightarrow> bool \<times> string" where
  "split_sign lit = (case lit of
     [] \<Rightarrow> (False, [])
   | c # cs \<Rightarrow> if c = CHR ''-'' then (True, cs) else if c = CHR ''+'' then (False, cs) else (False, lit))"

text \<open>The value with which \<open>ParseInt\<close> returns, and whether it returns without an error.\<close>

definition ParseInt :: "string \<Rightarrow> int \<times> bool" where
  "ParseInt lit =
     (let (neg, ds) = split_sign lit;
          n = (if neg then - digits_value ds else digits_value ds)
      in if ds = [] \<or> \<not> list_all is_digit ds then (0, False)
         else if n < - (2 ^ 63) then (- (2 ^ 63), False)
         else if 2 ^ 63 \<le> n then (2 ^ 63 - 1, False)
         else (n, True))"

definition ParseInt64 :: "string \<Rightarrow> int option" where
  "ParseInt64 lit = (case ParseInt lit of (n, ok) \<Rightarrow> if ok then Some n else None)"

text \<open>\<open>%d\<close> and \<open>strconv.FormatInt(i, 10)\<close>.\<close>

fun nat_text :: "nat \<Rightarrow> string" where
  "nat_text n = (if n < 10 then [hex_digit n] else nat_text (n div 10) @ [hex_digit (n mod 10)])"

declare nat_text.simps [simp del]

definition int_text :: "int \<Rightarrow> string" where
  "int_text i = (if i < 0 then CHR ''-'' # nat_text (nat (- i)) else nat_text (nat i))"

lemma digits_value_append: "digits_value (xs @ [c]) = 10 * digits_value xs + (of_char c - 48)"
  by (simp add: digits_value_def)

lemma digits_value_text: "digits_value (nat_text n) = int n \<and> list_all is_digit (nat_text n) \<and> nat_text n \<noteq> []"
proof (induction n rule: nat_text.induct)
  case (1 n)
  have d: "d < 10 \<Longrightarrow> of_char (hex_digit d) = (48 + int d) \<and> is_digit (hex_digit d)" for d
  proof -
    assume "d < 10"
    then have "of_char (hex_digit d) = 48 + d" by (simp add: hex_digit_def)
    then show ?thesis
      using of_nat_of_char [of "hex_digit d", where 'a = int] \<open>d < 10\<close> by (simp add: is_digit_def)
  qed
  show ?case
  proof (cases "n < 10")
    case True
    then show ?thesis using d [of n] by (simp add: nat_text.simps [of n] digits_value_def)
  next
    case False
    then show ?thesis
      using 1 d [of "n mod 10"] by (simp add: nat_text.simps [of n] digits_value_append) presburger
  qed
qed

lemma split_sign_digits: "list_all is_digit ds \<Longrightarrow> ds \<noteq> [] \<Longrightarrow> split_sign ds = (False, ds)"
  by (cases ds) (auto simp: split_sign_def is_digit_def)

text \<open>What is written is read back.\<close>

lemma ParseInt_text: "- (2 ^ 63) \<le> i \<Longrightarrow> i < 2 ^ 63 \<Longrightarrow> ParseInt (int_text i) = (i, True)"
  using digits_value_text [of "nat i"] digits_value_text [of "nat (- i)"]
  by (auto simp: ParseInt_def int_text_def split_sign_def [of "_ # _"] split_sign_digits)

section \<open>Field names\<close>

text \<open>
  A member goes to the field with its name, else to the field whose name is equal up to the case of
  ASCII letters. (Go also folds two letters beyond ASCII, to \<open>k\<close> and \<open>s\<close>, which none of the
  names here contains.)
\<close>

definition to_lower :: "char \<Rightarrow> char" where
  "to_lower c = (if 65 \<le> (of_char c :: nat) \<and> (of_char c :: nat) \<le> 90 then char_of ((of_char c :: nat) + 32) else c)"

definition field_of :: "string list \<Rightarrow> string \<Rightarrow> string option" where
  "field_of names k =
     (if k \<in> set names then Some k
      else find (\<lambda>n. map to_lower n = map to_lower k) names)"

end
