(* ===== verification/Webhook.thy ===== *)
theory Webhook
  imports Redis GoFloat Json
begin

text \<open>
  The webhook service: \<open>services/webhook/internal/stripeadapter/parser.go\<close> (Stripe events to provider
  events), \<open>dedup/dedup.go\<close> (deduplication by event id in Redis), \<open>http/stripe_handler.go\<close> (the
  handler) and \<open>domain/event.go\<close>. The Stripe SDK's signature check and event decoding, and the gRPC
  call to the orchestrator, are parameters.
\<close>

section \<open>Events (domain/event.go and the SDK's event)\<close>

text \<open>
  The fields of \<open>stripe.Event\<close> that are read. \<open>Data\<close> is a pointer and \<open>Data.Object\<close> a map, both of
  which may be nil.
\<close>

record stripe_event =
  seID :: string
  seType :: string
  seCreated :: int
  seData :: "(string \<times> json) list option option"

abbreviation EventTypePayoutSucceeded :: string where "EventTypePayoutSucceeded \<equiv> ''payout_succeeded''"
abbreviation EventTypePayoutFailed :: string where "EventTypePayoutFailed \<equiv> ''payout_failed''"
abbreviation EventTypePayoutCanceled :: string where "EventTypePayoutCanceled \<equiv> ''payout_canceled''"
abbreviation EventStatusReceived :: string where "EventStatusReceived \<equiv> ''received''"
abbreviation EventStatusProcessed :: string where "EventStatusProcessed \<equiv> ''processed''"

record provider_event =
  peProvider :: string
  peExternalID :: string
  peEventID :: string
  peType :: string
  peStatus :: string
  peOccurredAt :: go_time
  peErrorCode :: string
  peErrorMessage :: string

definition ProviderEvent_IsProcessed :: "provider_event \<Rightarrow> bool" where
  "ProviderEvent_IsProcessed e \<longleftrightarrow> peStatus e = EventStatusProcessed"

definition ProviderEvent_IsFailure :: "provider_event \<Rightarrow> bool" where
  "ProviderEvent_IsFailure e \<longleftrightarrow> peType e = EventTypePayoutFailed"

section \<open>Parsing\<close>

definition mapEventType :: "string \<Rightarrow> string result" where
  "mapEventType t =
     (if t = ''payment_intent.succeeded'' then Inr EventTypePayoutSucceeded
      else if t = ''payment_intent.payment_failed'' then Inr EventTypePayoutFailed
      else if t = ''payment_intent.canceled'' then Inr EventTypePayoutCanceled
      else Inl (ErrText (''unsupported event type: '' @ t)))"

definition extractExternalID :: "stripe_event \<Rightarrow> string result" where
  "extractExternalID ev =
     (case seData ev of
        Some (Some obj) \<Rightarrow>
          (case map_of obj ''id'' of
             Some (JString i) \<Rightarrow>
               if i = [] then Inl (ErrText ''event data.object.id is missing or not a string'') else Inr i
           | _ \<Rightarrow> Inl (ErrText ''event data.object.id is missing or not a string''))
      | _ \<Rightarrow> Inl (ErrText ''event data.object is nil''))"

definition extractErrorDetails :: "stripe_event \<Rightarrow> provider_event \<Rightarrow> provider_event" where
  "extractErrorDetails ev pe =
     (case seData ev of
        Some (Some obj) \<Rightarrow>
          (case map_of obj ''last_payment_error'' of
             Some (JObject e) \<Rightarrow>
               (let pe1 = (case map_of e ''code'' of Some (JString c) \<Rightarrow> pe\<lparr>peErrorCode := c\<rparr> | _ \<Rightarrow> pe)
                in case map_of e ''message'' of Some (JString m) \<Rightarrow> pe1\<lparr>peErrorMessage := m\<rparr> | _ \<Rightarrow> pe1)
           | _ \<Rightarrow> pe)
      | _ \<Rightarrow> pe)"

text \<open>\<open>time.Unix(sec, 0)\<close> is counted in nanoseconds.\<close>

definition EventParser_Parse :: "stripe_event \<Rightarrow> provider_event result" where
  "EventParser_Parse ev =
     (case extractExternalID ev of
        Inl err \<Rightarrow> Inl (ErrWrap ''extract external ID'' err)
      | Inr externalID \<Rightarrow>
          (case mapEventType (seType ev) of
             Inl err \<Rightarrow> Inl (ErrWrap (''map event type '' @ go_quote (seType ev)) err)
           | Inr eventType \<Rightarrow>
               (let pe = \<lparr>peProvider = ''stripe'', peExternalID = externalID, peEventID = seID ev,
                          peType = eventType, peStatus = EventStatusReceived,
                          peOccurredAt = seCreated ev * 10 ^ 9, peErrorCode = [], peErrorMessage = []\<rparr>
                in Inr (if eventType = EventTypePayoutFailed then extractErrorDetails ev pe else pe))))"

definition SupportedEventTypes :: "string list" where
  "SupportedEventTypes =
     [''payment_intent.succeeded'', ''payment_intent.payment_failed'', ''payment_intent.canceled'']"

section \<open>Deduplication\<close>

definition dedup_key :: "string \<Rightarrow> string" where
  "dedup_key eventID = ''webhook:event:'' @ eventID"

text \<open>Durations are in nanoseconds; a zero TTL means the default of 24 hours.\<close>

definition DefaultTTL :: int where
  "DefaultTTL = 24 * 3600 * 10 ^ 9"

definition dedup_NewService :: "int \<Rightarrow> int" where
  "dedup_NewService ttl = (if ttl = 0 then DefaultTTL else ttl)"

text \<open>\<open>int64(d.Seconds())\<close>: the seconds and the rest are added as \<open>float64\<close>, then truncated.\<close>

definition whole_seconds :: "int \<Rightarrow> int" where
  "whole_seconds d =
     (let q = \<bar>d\<bar> div 10 ^ 9; r = \<bar>d\<bar> mod 10 ^ 9
      in sgn d * \<lfloor>fadd (float64_of_int q) (fdiv (float64_of_int r) (float64_of_int (10 ^ 9)))\<rfloor>)"

text \<open>\<open>IsProcessed\<close>: true for an event id that was seen; the answer to EXPIRE is not looked at.\<close>

definition IsProcessed :: "'w redis_env \<Rightarrow> int \<Rightarrow> string \<Rightarrow> 'w redis \<Rightarrow> bool result \<times> 'w redis" where
  "IsProcessed E ttl eventID s =
     (let key = dedup_key eventID in
      case redis_do E (redis_setnx key ''1'') s of
        (Inl err, s1) \<Rightarrow> (Inl (ErrWrap ''redis SETNX'' err), s1)
      | (Inr result, s1) \<Rightarrow>
          if \<not> result then (Inr True, s1)
          else (Inr False, snd (redis_do E (redis_expire key (whole_seconds ttl)) s1)))"

section \<open>The handler\<close>

record http_request =
  hqMethod :: string
  hqBody :: "string option"
  hqSignature :: string

text \<open>A response: the status code and the message of the JSON body (\<open>None\<close> for \<open>{status: ok}\<close>).\<close>

record http_response =
  hrStatus :: nat
  hrError :: "string option"

definition writeOK :: http_response where
  "writeOK = \<lparr>hrStatus = 200, hrError = None\<rparr>"

definition http_error :: "nat \<Rightarrow> string \<Rightarrow> http_response" where
  "http_error code message = \<lparr>hrStatus = code, hrError = Some message\<rparr>"

record update_request =
  urPayoutId :: string
  urProviderStatus :: string
  urProviderReference :: string

text \<open>
  The parameters: \<open>stripe.ConstructEvent\<close> (payload, signature, secret) and the orchestrator's
  \<open>ApplyProviderUpdate\<close> as the gRPC client offers it, on a state \<open>'o\<close> of the other side.
\<close>

record ('w, 'o) webhook_env =
  weRedis :: "'w redis_env"
  weConstructEvent :: "string \<Rightarrow> string \<Rightarrow> string \<Rightarrow> stripe_event result"
  weApplyProviderUpdate :: "update_request \<Rightarrow> 'o \<Rightarrow> bool result \<times> 'o"

record webhook_handler =
  whSecret :: string
  whTTL :: int

record ('w, 'o) webhook_state =
  wsRedis :: "'w redis"
  wsOrch :: 'o

definition forwardToOrchestrator ::
    "('w, 'o) webhook_env \<Rightarrow> provider_event \<Rightarrow> 'o \<Rightarrow> go_error option \<times> 'o" where
  "forwardToOrchestrator V event o1 =
     (case weApplyProviderUpdate V
         \<lparr>urPayoutId = peExternalID event, urProviderStatus = peType event,
          urProviderReference = peEventID event\<rparr> o1 of
        (Inl err, o2) \<Rightarrow> (Some (ErrWrap ''apply provider update'' err), o2)
      | (Inr _, o2) \<Rightarrow> (None, o2))"

definition Webhook_ServeHTTP ::
    "('w, 'o) webhook_env \<Rightarrow> webhook_handler \<Rightarrow> http_request \<Rightarrow> ('w, 'o) webhook_state \<Rightarrow>
     http_response \<times> ('w, 'o) webhook_state" where
  "Webhook_ServeHTTP V h r s =
     (if hqMethod r \<noteq> ''POST'' then (http_error 405 ''method not allowed'', s)
      else case hqBody r of
        None \<Rightarrow> (http_error 400 ''failed to read body'', s)
      | Some payload \<Rightarrow>
          if hqSignature r = [] then (http_error 400 ''missing stripe signature'', s)
          else (case weConstructEvent V payload (hqSignature r) (whSecret h) of
            Inl err \<Rightarrow> (http_error 400 ''invalid signature'', s)
          | Inr event \<Rightarrow>
              (case EventParser_Parse event of
                 Inl err \<Rightarrow> (writeOK, s)
               | Inr providerEvent \<Rightarrow>
                   (case IsProcessed (weRedis V) (whTTL h) (peEventID providerEvent) (wsRedis s) of
                      (Inl err, rd) \<Rightarrow> (http_error 500 ''dedup check failed'', s\<lparr>wsRedis := rd\<rparr>)
                    | (Inr isDuplicate, rd) \<Rightarrow>
                        if isDuplicate then (writeOK, s\<lparr>wsRedis := rd\<rparr>)
                        else (case forwardToOrchestrator V providerEvent (wsOrch s) of
                           (Some err, o2) \<Rightarrow> (http_error 500 ''forward failed'', \<lparr>wsRedis = rd, wsOrch = o2\<rparr>)
                         | (None, o2) \<Rightarrow> (writeOK, \<lparr>wsRedis = rd, wsOrch = o2\<rparr>))))))"

end
