(* ===== verification/WebhookFacts.thy ===== *)
theory WebhookFacts
  imports Webhook ServiceProps
begin

text \<open>
  The webhook service's properties: the deduplicator as an interface and Redis as its implementation
  within one TTL, what the handler does with forged, repeated and failing deliveries, and the way of
  a Stripe event to the payout in the orchestrator's store.
\<close>

section \<open>The deduplicator as an interface\<close>

text \<open>
  What the handler relies on: an event that was answered as new is marked, a marked event is never
  answered as new, and marks stay. \<open>ok\<close> says when the laws hold.
\<close>

locale deduplicator =
  fixes ok :: bool
    and is_processed :: "string \<Rightarrow> 's \<Rightarrow> bool result \<times> 's"
    and marked :: "'s \<Rightarrow> string \<Rightarrow> bool"
  assumes new_marks: "ok \<Longrightarrow> is_processed e s = (Inr False, s') \<Longrightarrow> marked s' e"
    and marked_seen: "ok \<Longrightarrow> marked s e \<Longrightarrow> fst (is_processed e s) \<noteq> Inr False"
    and marks_stay: "ok \<Longrightarrow> marked s e \<Longrightarrow> marked (snd (is_processed e' s)) e"
begin

text \<open>How often \<open>e\<close> is answered as new in a sequence of calls.\<close>

primrec news :: "string \<Rightarrow> string list \<Rightarrow> 's \<Rightarrow> nat" where
  "news e [] s = 0"
| "news e (x # xs) s =
     (if x = e \<and> fst (is_processed x s) = Inr False then 1 else 0) + news e xs (snd (is_processed x s))"

lemma news_marked: "ok \<Longrightarrow> marked s e \<Longrightarrow> news e xs s = 0"
  by (induction xs arbitrary: s) (auto dest: marked_seen marks_stay)

lemma news_at_most_once: "ok \<Longrightarrow> news e xs s \<le> 1"
proof (induction xs arbitrary: s)
  case (Cons x xs)
  show ?case
  proof (cases "x = e \<and> fst (is_processed x s) = Inr False")
    case True
    then have "marked (snd (is_processed x s)) e"
      using Cons.prems new_marks [of x s "snd (is_processed x s)"] by (auto simp: prod_eq_iff)
    then show ?thesis using True Cons.prems by (simp add: news_marked)
  next
    case False
    then show ?thesis using Cons.IH [OF Cons.prems] by auto
  qed
qed simp

end

text \<open>
  Redis keeps the laws within one TTL: in a window of the server's clock that is no longer than the
  TTL, a key set in it does not expire in it.
\<close>

definition in_window :: "'w redis_env \<Rightarrow> int \<Rightarrow> int \<Rightarrow> bool" where
  "in_window E ttl t0 \<longleftrightarrow>
     (\<forall>w. t0 \<le> fst (rd_now E w) \<and> fst (rd_now E w) < t0 + 1000 * whole_seconds ttl)"

definition marked_until :: "int \<Rightarrow> int \<Rightarrow> 'w redis \<Rightarrow> string \<Rightarrow> bool" where
  "marked_until ttl t0 s e \<longleftrightarrow>
     (case rd_keys s (dedup_key e) of
        None \<Rightarrow> False
      | Some (v, limit) \<Rightarrow> (case limit of None \<Rightarrow> True | Some l \<Rightarrow> t0 + 1000 * whole_seconds ttl \<le> l))"

lemma redis_do_time:
  assumes "in_window E ttl t0"
  obtains (answered) t w where "redis_do E cmd s = cmd t (s\<lparr>rd_world := w\<rparr>)"
      and "t0 \<le> t" and "t < t0 + 1000 * whole_seconds ttl"
  | (lost) m w where "redis_do E cmd s = (Inl (ErrText m), s\<lparr>rd_world := w\<rparr>)"
  | (silent) m t w where "redis_do E cmd s = (Inl (ErrText m), snd (cmd t (s\<lparr>rd_world := w\<rparr>)))"
      and "t0 \<le> t" and "t < t0 + 1000 * whole_seconds ttl"
proof -
  obtain net w where n: "rd_net E (rd_world s) = (net, w)" by (cases "rd_net E (rd_world s)")
  obtain t w' where t: "rd_now E w = (t, w')" by (cases "rd_now E w")
  have "t0 \<le> t" "t < t0 + 1000 * whole_seconds ttl" using assms t unfolding in_window_def by (metis fst_conv)+
  then show thesis
    by (cases net) (use n t in \<open>auto simp: redis_do_def Let_def intro: that\<close>)
qed

lemma setnx_marked:
  assumes "marked_until ttl t0 s e" and "t < t0 + 1000 * whole_seconds ttl"
  shows "marked_until ttl t0 (snd (redis_setnx k v t s)) e"
    and "redis_setnx (dedup_key e) v t s = (Inr False, s)"
  using assms
  by (auto simp: marked_until_def redis_setnx_def live_def split: option.splits prod.splits)

lemma expire_marked:
  assumes "marked_until ttl t0 s e" and "t0 \<le> t"
  shows "marked_until ttl t0 (snd (redis_expire k (whole_seconds ttl) t s)) e"
  using assms
  by (auto simp: marked_until_def redis_expire_def live_def split: option.splits prod.splits)

lemma marked_world [simp]: "marked_until ttl t0 (s\<lparr>rd_world := w\<rparr>) e = marked_until ttl t0 s e"
  by (simp add: marked_until_def)

lemma setnx_do_marked:
  assumes "in_window E ttl t0" and "marked_until ttl t0 s e"
  shows "marked_until ttl t0 (snd (redis_do E (redis_setnx k v) s)) e"
  by (cases rule: redis_do_time [OF assms(1), of "redis_setnx k v" s])
    (simp_all add: setnx_marked(1) assms(2))

lemma expire_do_marked:
  assumes "in_window E ttl t0" and "marked_until ttl t0 s e"
  shows "marked_until ttl t0 (snd (redis_do E (redis_expire k (whole_seconds ttl)) s)) e"
  by (cases rule: redis_do_time [OF assms(1), of "redis_expire k (whole_seconds ttl)" s])
    (simp_all add: expire_marked assms(2))

lemma setnx_new_marks:
  "redis_setnx (dedup_key e) v t s = (Inr True, s') \<Longrightarrow> marked_until ttl t0 s' e"
  by (auto simp: redis_setnx_def marked_until_def split: option.splits)

interpretation dedup: deduplicator "in_window E ttl t0" "IsProcessed E ttl" "marked_until ttl t0"
  for E :: "'w redis_env" and ttl t0 :: int
proof unfold_locales
  fix s s' :: "'w redis" and e e'
  assume win: "in_window E ttl t0"
  show "marked_until ttl t0 s' e" if new: "IsProcessed E ttl e s = (Inr False, s')"
  proof -
    from new obtain s1 where s1: "redis_do E (redis_setnx (dedup_key e) ''1'') s = (Inr True, s1)"
      and s': "s' = snd (redis_do E (redis_expire (dedup_key e) (whole_seconds ttl)) s1)"
      by (auto simp: IsProcessed_def Let_def split: prod.splits sum.splits if_splits)
    have "marked_until ttl t0 s1 e"
      by (cases rule: redis_do_time [OF win, of "redis_setnx (dedup_key e) ''1''" s])
        (use s1 in \<open>auto intro: setnx_new_marks\<close>)
    then show ?thesis unfolding s' by (rule expire_do_marked [OF win])
  qed
  assume m: "marked_until ttl t0 s e"
  show "fst (IsProcessed E ttl e s) \<noteq> Inr False"
    by (cases rule: redis_do_time [OF win, of "redis_setnx (dedup_key e) ''1''" s])
      (use m in \<open>auto simp: IsProcessed_def Let_def setnx_marked(2)\<close>)
  obtain r s1 where s1: "redis_do E (redis_setnx (dedup_key e') ''1'') s = (r, s1)"
    by (metis prod.collapse)
  have m1: "marked_until ttl t0 s1 e" using setnx_do_marked [OF win m, of "dedup_key e'" "''1''"] s1 by simp
  then show "marked_until ttl t0 (snd (IsProcessed E ttl e' s)) e"
    using expire_do_marked [OF win m1]
    by (auto simp: IsProcessed_def Let_def s1 split: sum.split)
qed

section \<open>The handler\<close>

text \<open>The event a request carries, if it passes every check before the deduplication.\<close>

definition accepted :: "('w, 'o) webhook_env \<Rightarrow> webhook_handler \<Rightarrow> http_request \<Rightarrow> provider_event option" where
  "accepted V h r =
     (if hqMethod r \<noteq> ''POST'' \<or> hqSignature r = [] then None
      else case hqBody r of
        None \<Rightarrow> None
      | Some payload \<Rightarrow>
          (case weConstructEvent V payload (hqSignature r) (whSecret h) of
             Inl _ \<Rightarrow> None
           | Inr event \<Rightarrow> (case EventParser_Parse event of Inl _ \<Rightarrow> None | Inr pe \<Rightarrow> Some pe)))"

lemma ServeHTTP_refused:
  "accepted V h r = None \<Longrightarrow> snd (Webhook_ServeHTTP V h r s) = s"
  by (auto simp: accepted_def Webhook_ServeHTTP_def split: if_splits option.splits sum.splits)

lemma ServeHTTP_accepted:
  "accepted V h r = Some pe \<Longrightarrow> Webhook_ServeHTTP V h r s =
     (case IsProcessed (weRedis V) (whTTL h) (peEventID pe) (wsRedis s) of
        (Inl err, rd) \<Rightarrow> (http_error 500 ''dedup check failed'', s\<lparr>wsRedis := rd\<rparr>)
      | (Inr isDuplicate, rd) \<Rightarrow>
          if isDuplicate then (writeOK, s\<lparr>wsRedis := rd\<rparr>)
          else (case forwardToOrchestrator V pe (wsOrch s) of
             (Some err, o2) \<Rightarrow> (http_error 500 ''forward failed'', \<lparr>wsRedis = rd, wsOrch = o2\<rparr>)
           | (None, o2) \<Rightarrow> (writeOK, \<lparr>wsRedis = rd, wsOrch = o2\<rparr>)))"
  by (auto simp: accepted_def Webhook_ServeHTTP_def split: if_splits option.splits sum.splits)

lemma accepted_checks:
  assumes "accepted V h r = Some pe"
  shows "hqMethod r = ''POST'' \<and> (\<exists>payload ev. hqBody r = Some payload \<and>
      weConstructEvent V payload (hqSignature r) (whSecret h) = Inr ev \<and> EventParser_Parse ev = Inr pe)"
  using assms by (auto simp: accepted_def split: if_splits option.splits sum.splits)

text \<open>
  Nothing happens without a valid signature. If the SDK's check of payload, signature and secret
  fails, the request changes neither Redis nor the orchestrator, and no such request is answered with
  success.
\<close>

lemma unsigned_requests_ignored:
  assumes "\<And>payload. hqBody r = Some payload \<Longrightarrow>
      \<exists>e. weConstructEvent V payload (hqSignature r) (whSecret h) = Inl e"
  shows "snd (Webhook_ServeHTTP V h r s) = s \<and> hrStatus (fst (Webhook_ServeHTTP V h r s)) \<in> {400, 405}"
proof (cases "hqBody r")
  case None
  then show ?thesis by (simp add: Webhook_ServeHTTP_def http_error_def)
next
  case (Some payload)
  with assms obtain e where "weConstructEvent V payload (hqSignature r) (whSecret h) = Inl e" by blast
  with Some show ?thesis by (simp add: Webhook_ServeHTTP_def http_error_def)
qed

text \<open>A run of the handler over requests, and the requests that are forwarded for one event id.\<close>

definition forwards ::
    "('w, 'o) webhook_env \<Rightarrow> webhook_handler \<Rightarrow> string \<Rightarrow> http_request \<Rightarrow> ('w, 'o) webhook_state \<Rightarrow> bool" where
  "forwards V h eid r s \<longleftrightarrow>
     (case accepted V h r of
        None \<Rightarrow> False
      | Some pe \<Rightarrow> peEventID pe = eid \<and>
          fst (IsProcessed (weRedis V) (whTTL h) (peEventID pe) (wsRedis s)) = Inr False)"

primrec forward_count ::
    "('w, 'o) webhook_env \<Rightarrow> webhook_handler \<Rightarrow> string \<Rightarrow> http_request list \<Rightarrow>
     ('w, 'o) webhook_state \<Rightarrow> nat" where
  "forward_count V h eid [] s = 0"
| "forward_count V h eid (r # rs) s =
     (if forwards V h eid r s then 1 else 0) + forward_count V h eid rs (snd (Webhook_ServeHTTP V h r s))"

text \<open>The orchestrator is called by a request exactly where it forwards.\<close>

lemma ServeHTTP_orch:
  "wsOrch (snd (Webhook_ServeHTTP V h r s)) =
     (case accepted V h r of
        None \<Rightarrow> wsOrch s
      | Some pe \<Rightarrow> if forwards V h (peEventID pe) r s then snd (forwardToOrchestrator V pe (wsOrch s))
                   else wsOrch s)"
  by (cases "accepted V h r")
    (auto simp: ServeHTTP_refused ServeHTTP_accepted forwards_def split: prod.split sum.split option.split)

lemma ServeHTTP_redis:
  "wsRedis (snd (Webhook_ServeHTTP V h r s)) =
     (case accepted V h r of
        None \<Rightarrow> wsRedis s
      | Some pe \<Rightarrow> snd (IsProcessed (weRedis V) (whTTL h) (peEventID pe) (wsRedis s)))"
  by (cases "accepted V h r")
    (auto simp: ServeHTTP_refused ServeHTTP_accepted split: prod.split sum.split option.split)

lemma forward_count_news:
  "forward_count V h eid rs s =
     dedup.news (weRedis V) (whTTL h) eid
       (concat (map (\<lambda>r. case accepted V h r of None \<Rightarrow> [] | Some pe \<Rightarrow> [peEventID pe]) rs)) (wsRedis s)"
  by (induction rs arbitrary: s)
    (auto simp: ServeHTTP_redis forwards_def split: option.split)

text \<open>
  An event is forwarded at most once. As long as the Redis server's clock stays within one TTL,
  in any sequence of deliveries, whatever round trips fail, the orchestrator is called at most once
  for one event id.
\<close>

lemma event_forwarded_at_most_once:
  assumes "in_window (weRedis V) (whTTL h) t0"
  shows "forward_count V h eid rs s \<le> 1"
  unfolding forward_count_news by (rule dedup.news_at_most_once [OF assms])

lemma new_event_marked:
  assumes "in_window (weRedis V) (whTTL h) t0" and "accepted V h r = Some pe"
    and "fst (IsProcessed (weRedis V) (whTTL h) (peEventID pe) (wsRedis s)) = Inr False"
  shows "marked_until (whTTL h) t0 (wsRedis (snd (Webhook_ServeHTTP V h r s))) (peEventID pe)"
  using dedup.new_marks [OF assms(1), of "peEventID pe" "wsRedis s"] assms(2,3) ServeHTTP_redis [of V h r s]
  by (auto simp: prod_eq_iff)

lemma marked_event_stops:
  assumes "in_window (weRedis V) (whTTL h) t0" and "accepted V h r = Some pe"
    and "marked_until (whTTL h) t0 (wsRedis s) (peEventID pe)"
  shows "wsOrch (snd (Webhook_ServeHTTP V h r s)) = wsOrch s \<and>
    fst (Webhook_ServeHTTP V h r s) \<in> {writeOK, http_error 500 ''dedup check failed''}"
  using dedup.marked_seen [OF assms(1,3)] assms(2)
  by (auto simp: ServeHTTP_accepted split: prod.splits sum.splits)

text \<open>
  Deliveries one after the other, each with what happens in the orchestrator before it: the state in
  which each is served, and its response. Some of the requests carry one event.
\<close>

fun deliver ::
    "('w, 'o) webhook_env \<Rightarrow> webhook_handler \<Rightarrow> (http_request \<times> ('o \<Rightarrow> 'o)) list \<Rightarrow> ('w, 'o) webhook_state \<Rightarrow>
     (('w, 'o) webhook_state \<times> http_response) list \<times> ('w, 'o) webhook_state" where
  "deliver V h [] s = ([], s)"
| "deliver V h ((r, f) # rs) s =
     (let s0 = s\<lparr>wsOrch := f (wsOrch s)\<rparr>
      in case Webhook_ServeHTTP V h r s0 of (resp, s1) \<Rightarrow> apfst (Cons (s0, resp)) (deliver V h rs s1))"

definition carries_event :: "('w, 'o) webhook_env \<Rightarrow> webhook_handler \<Rightarrow> string \<Rightarrow> http_request \<Rightarrow> bool" where
  "carries_event V h eid r \<longleftrightarrow> (case accepted V h r of None \<Rightarrow> False | Some pe \<Rightarrow> peEventID pe = eid)"

text \<open>The state of the orchestrator if only the others had acted on it.\<close>

definition others_only :: "(http_request \<times> ('o \<Rightarrow> 'o)) list \<Rightarrow> 'o \<Rightarrow> 'o" where
  "others_only rs o0 = fold snd rs o0"

lemma marks_stay_served:
  assumes "in_window (weRedis V) (whTTL h) t0" and "marked_until (whTTL h) t0 (wsRedis s) eid"
  shows "marked_until (whTTL h) t0 (wsRedis (snd (Webhook_ServeHTTP V h r s))) eid"
  using dedup.marks_stay [OF assms] assms(2) by (simp add: ServeHTTP_redis split: option.split)

text \<open>Once an event is marked, no delivery of it within the TTL does anything, whatever else is delivered.\<close>

text \<open>A delivery that carries the event is not forwarded, and answered as a duplicate or with an error of the deduplication.\<close>

definition stopped ::
    "('w, 'o) webhook_env \<Rightarrow> webhook_handler \<Rightarrow> string \<Rightarrow> http_request \<Rightarrow> ('w, 'o) webhook_state \<times> http_response \<Rightarrow> bool" where
  "stopped V h eid r out \<longleftrightarrow>
     \<not> forwards V h eid r (fst out) \<and> snd out \<in> {writeOK, http_error 500 ''dedup check failed''}"

lemma marked_event_stopped:
  assumes "in_window (weRedis V) (whTTL h) t0" and "marked_until (whTTL h) t0 (wsRedis s) eid" and "carries_event V h eid r"
  shows "stopped V h eid r (s, fst (Webhook_ServeHTTP V h r s)) \<and> wsOrch (snd (Webhook_ServeHTTP V h r s)) = wsOrch s"
proof -
  obtain pe where "accepted V h r = Some pe" "peEventID pe = eid"
    using assms(3) by (auto simp: carries_event_def split: option.splits)
  then show ?thesis
    using marked_event_stops [OF assms(1), of r pe s] dedup.marked_seen [OF assms(1,2)] assms(2)
    by (auto simp: stopped_def forwards_def)
qed

lemma marked_event_lost:
  assumes "in_window (weRedis V) (whTTL h) t0" and "marked_until (whTTL h) t0 (wsRedis s) eid"
    and "deliver V h rs s = (outs, s')"
  shows "length outs = length rs \<and>
    (\<forall>i < length rs. carries_event V h eid (fst (rs ! i)) \<longrightarrow> stopped V h eid (fst (rs ! i)) (outs ! i)) \<and>
    (list_all (carries_event V h eid) (map fst rs) \<longrightarrow> wsOrch s' = others_only rs (wsOrch s))"
  using assms(2,3)
proof (induction rs arbitrary: s outs)
  case Nil
  then show ?case by (simp add: others_only_def)
next
  case (Cons rf rs)
  obtain r f where rf: "rf = (r, f)" by (cases rf)
  let ?s = "s\<lparr>wsOrch := f (wsOrch s)\<rparr>"
  obtain resp s1 where h: "Webhook_ServeHTTP V h r ?s = (resp, s1)" by (metis prod.collapse)
  obtain rest where rest: "deliver V h rs s1 = (rest, s')" "outs = (?s, resp) # rest"
    using Cons.prems(2) rf h by (cases "deliver V h rs s1") (auto simp: Let_def)
  have m: "marked_until (whTTL h) t0 (wsRedis ?s) eid" using Cons.prems(1) by simp
  have "marked_until (whTTL h) t0 (wsRedis s1) eid" using marks_stay_served [OF assms(1) m, of r] h by simp
  note IH = Cons.IH [OF this rest(1)]
  have "stopped V h eid r (?s, resp) \<and> wsOrch s1 = f (wsOrch s)" if "carries_event V h eid r"
    using marked_event_stopped [OF assms(1) m that] h by simp
  then show ?case using IH rf rest(2) by (auto simp: nth_Cons others_only_def split: nat.split)
qed

text \<open>
  C20: at most once, and so possibly not at all. If the call to the orchestrator fails, the event is
  marked all the same; then, within the TTL, however often the event is delivered again, among whatever
  other deliveries, no delivery forwards it, and each is either acknowledged as processed or fails in
  the deduplication; redeliveries alone leave the orchestrator as it is.
\<close>

theorem failed_forward_is_lost:
  assumes win: "in_window (weRedis V) (whTTL h) t0"
    and "forwards V h eid r s" and failed: "Webhook_ServeHTTP V h r s = (http_error 500 ''forward failed'', s1)"
    and later: "deliver V h rs s1 = (outs, s2)"
  shows "length outs = length rs \<and>
    (\<forall>i < length rs. carries_event V h eid (fst (rs ! i)) \<longrightarrow> stopped V h eid (fst (rs ! i)) (outs ! i)) \<and>
    (list_all (carries_event V h eid) (map fst rs) \<longrightarrow> wsOrch s2 = others_only rs (wsOrch s1))"
proof -
  obtain pe where pe: "accepted V h r = Some pe" "peEventID pe = eid"
    "fst (IsProcessed (weRedis V) (whTTL h) (peEventID pe) (wsRedis s)) = Inr False"
    using assms(2) by (auto simp: forwards_def split: option.splits)
  have "marked_until (whTTL h) t0 (wsRedis s1) eid"
    using new_event_marked [OF win pe(1,3)] failed pe(2) by simp
  from marked_event_lost [OF win this later] show ?thesis .
qed

section \<open>Together with the orchestrator\<close>

text \<open>
  The gRPC peer: the orchestrator's handler, on a connection that delivers. The request's
  \<open>provider_reference\<close> is not used there.
\<close>

definition orchestrator_peer ::
    "('c, 'p, 'd) service_env \<Rightarrow> update_request \<Rightarrow> ('p, 'd) service_state \<Rightarrow> bool result \<times> ('p, 'd) service_state" where
  "orchestrator_peer U req s = Service_ApplyProviderUpdate U (urPayoutId req) (urProviderStatus req) s"

text \<open>Every status the parser produces is one that the orchestrator understands.\<close>

lemma mapEventType_known:
  "mapEventType t = Inr e \<Longrightarrow> \<exists>st. mapProviderStatusToState e = Inr st"
  by (auto simp: mapEventType_def mapProviderStatusToState_def split: if_splits)

lemma Parse_fields:
  assumes "EventParser_Parse ev = Inr pe"
  shows "extractExternalID ev = Inr (peExternalID pe) \<and> mapEventType (seType ev) = Inr (peType pe) \<and>
    peEventID pe = seID ev"
proof -
  have "peExternalID (extractErrorDetails ev x) = peExternalID x \<and> peType (extractErrorDetails ev x) = peType x \<and>
      peEventID (extractErrorDetails ev x) = peEventID x" for x
    by (auto simp: extractErrorDetails_def Let_def split: option.split json.split)
  then show ?thesis
    using assms by (auto simp: EventParser_Parse_def Let_def split: sum.splits if_splits)
qed

lemma extractExternalID_nonempty: "extractExternalID ev = Inr x \<Longrightarrow> x \<noteq> []"
  by (auto simp: extractExternalID_def split: option.splits json.splits if_splits)

text \<open>The state that an event of a type stands for.\<close>

definition reported_state :: "string \<Rightarrow> payout_state" where
  "reported_state ty = (if ty = ''payout_succeeded'' then ''completed'' else if ty = ''payout_failed'' then ''failed'' else ''canceled'')"

lemma webhook_applies:
  assumes "reliable (sePg U)" and "tables_ok (ssPg (wsOrch s))" and V: "weApplyProviderUpdate V = orchestrator_peer U"
    and acc: "accepted V h r = Some pe"
    and new: "fst (IsProcessed (weRedis V) (whTTL h) (peEventID pe) (wsRedis s)) = Inr False"
    and stored: "store_of (ssPg (wsOrch s)) i = Some p" "pExternalID p = Some (peExternalID pe)"
  obtains s' t where "Webhook_ServeHTTP V h r s = (writeOK, s')" and "ssOrch (wsOrch s') = ssOrch (wsOrch s)"
    and "store_of (ssPg (wsOrch s')) = (store_of (ssPg (wsOrch s)))(i \<mapsto> p\<lparr>pState := reported_state (peType pe), pUpdatedAt := t\<rparr>)"
proof -
  obtain ev where "EventParser_Parse ev = Inr pe" using acc by (auto simp: accepted_def split: if_splits option.splits sum.splits)
  note f = Parse_fields [OF this]
  have ext: "peExternalID pe \<noteq> []" and ty: "mapEventType (seType ev) = Inr (peType pe)"
    using f extractExternalID_nonempty by auto
  obtain st where st: "mapProviderStatusToState (peType pe) = Inr st" using mapEventType_known [OF ty] by blast
  have st_is: "st = reported_state (peType pe)"
    using st by (auto simp: mapProviderStatusToState_def reported_state_def split: if_splits)
  obtain res o2 where run: "Service_ApplyProviderUpdate U (peExternalID pe) (peType pe) (wsOrch s) = (res, o2)"
    by (metis prod.collapse)
  have "res = Inr True \<and> ssOrch o2 = ssOrch (wsOrch s) \<and>
      (\<exists>t. store_of (ssPg o2) = (store_of (ssPg (wsOrch s)))(i \<mapsto> p\<lparr>pState := st, pUpdatedAt := t\<rparr>))"
    using ApplyProviderUpdate_answer [OF assms(1,2) ext st stored(1)] stored(2) run by simp
  moreover obtain rd where "IsProcessed (weRedis V) (whTTL h) (peEventID pe) (wsRedis s) = (Inr False, rd)"
    using new by (metis prod.collapse)
  ultimately show thesis
    using that by (auto simp: ServeHTTP_accepted [OF acc] forwardToOrchestrator_def V orchestrator_peer_def run st_is)
qed

text \<open>
  A Stripe event reaches its payout. A signed, new event of a supported type whose object id is
  the external id of a stored payout is acknowledged, and then that payout has the reported state,
  completed for \<open>payment_intent.succeeded\<close>, failed for \<open>payment_failed\<close>, canceled for \<open>canceled\<close>, and
  nothing else in the orchestrator's store has changed.
\<close>

lemma webhook_end_to_end:
  assumes "reliable (sePg U)" and "tables_ok (ssPg (wsOrch s))"
    and V: "weApplyProviderUpdate V = orchestrator_peer U"
    and req: "hqMethod r = ''POST''" "hqBody r = Some payload" "hqSignature r \<noteq> []"
      "weConstructEvent V payload (hqSignature r) (whSecret h) = Inr ev"
    and ev: "extractExternalID ev = Inr ext" "mapEventType (seType ev) = Inr ty"
    and new: "fst (IsProcessed (weRedis V) (whTTL h) (seID ev) (wsRedis s)) = Inr False"
    and stored: "store_of (ssPg (wsOrch s)) i = Some p" "pExternalID p = Some ext"
  shows "let (resp, s') = Webhook_ServeHTTP V h r s in
    resp = writeOK \<and> ssOrch (wsOrch s') = ssOrch (wsOrch s) \<and>
    (\<exists>t. store_of (ssPg (wsOrch s')) = (store_of (ssPg (wsOrch s)))(i \<mapsto> p\<lparr>pState :=
        reported_state ty, pUpdatedAt := t\<rparr>))"
proof -
  obtain pe where pe: "EventParser_Parse ev = Inr pe"
    using ev by (auto simp: EventParser_Parse_def Let_def)
  have f: "peExternalID pe = ext" "peType pe = ty" "peEventID pe = seID ev"
    using Parse_fields [OF pe] ev by auto
  have acc: "accepted V h r = Some pe" using req pe by (simp add: accepted_def)
  obtain s' t where "Webhook_ServeHTTP V h r s = (writeOK, s')" and "ssOrch (wsOrch s') = ssOrch (wsOrch s)"
    and "store_of (ssPg (wsOrch s')) = (store_of (ssPg (wsOrch s)))(i \<mapsto> p\<lparr>pState := reported_state ty, pUpdatedAt := t\<rparr>)"
    by (rule webhook_applies [OF assms(1,2) V acc, of i p, unfolded f, OF new stored])
  then show ?thesis by (auto simp: Let_def)
qed

section \<open>A small webhook service\<close>

lemma whole_seconds_exact:
  assumes "0 \<le> q" and "q \<le> 2 ^ 53"
  shows "whole_seconds (q * 10 ^ 9) = q"
proof -
  have "rnd64 (of_int q) = of_int q" using assms by (intro f64.rnd_exact) auto
  then show ?thesis
    using assms(1)
    by (simp add: whole_seconds_def Let_def float64_of_int_def fdiv_def fadd_def f64.rnd_zero
        abs_mult sgn_mult) (simp add: sgn_if)
qed

lemma whole_seconds_default: "whole_seconds (dedup_NewService 0) = 86400"
  using whole_seconds_exact [of 86400] by (simp add: dedup_NewService_def DefaultTTL_def)

definition demo_event :: stripe_event where
  "demo_event = \<lparr>seID = ''evt_1'', seType = ''payment_intent.succeeded'', seCreated = 1700000000,
     seData = Some (Some [(''id'', JString ''ext-1'')])\<rparr>"

definition demo_redis :: "unit redis_env" where
  "demo_redis = \<lparr>rd_net = (\<lambda>w. (Delivered, w)), rd_now = (\<lambda>w. (5, w))\<rparr>"

definition demo_webhook ::
    "(update_request \<Rightarrow> 'o \<Rightarrow> bool result \<times> 'o) \<Rightarrow> (unit, 'o) webhook_env" where
  "demo_webhook peer = \<lparr>weRedis = demo_redis,
     weConstructEvent = (\<lambda>payload sig secret. if sig = ''good'' then Inr demo_event else Inl (ErrText ''bad'')),
     weApplyProviderUpdate = peer\<rparr>"

definition demo_handler :: webhook_handler where
  "demo_handler = \<lparr>whSecret = ''whsec'', whTTL = dedup_NewService 0\<rparr>"

definition demo_delivery :: "string \<Rightarrow> http_request" where
  "demo_delivery sig = \<lparr>hqMethod = ''POST'', hqBody = Some ''{}'', hqSignature = sig\<rparr>"

definition demo_webhook_state :: "'o \<Rightarrow> (unit, 'o) webhook_state" where
  "demo_webhook_state o1 = \<lparr>wsRedis = \<lparr>rd_keys = (\<lambda>_. None), rd_world = ()\<rparr>, wsOrch = o1\<rparr>"

definition failing_peer :: "update_request \<Rightarrow> unit \<Rightarrow> bool result \<times> unit" where
  "failing_peer req o1 = (Inl (StatusError GrpcInternal ''unavailable''), o1)"

lemma demo_in_window: "in_window (weRedis (demo_webhook peer)) (whTTL demo_handler) 0"
  by (simp add: in_window_def demo_webhook_def demo_redis_def demo_handler_def whole_seconds_default)

lemma demo_parse:
  "EventParser_Parse demo_event = Inr \<lparr>peProvider = ''stripe'', peExternalID = ''ext-1'',
     peEventID = ''evt_1'', peType = ''payout_succeeded'', peStatus = ''received'',
     peOccurredAt = 1700000000 * 10 ^ 9, peErrorCode = [], peErrorMessage = []\<rparr>"
  by (simp add: EventParser_Parse_def extractExternalID_def mapEventType_def demo_event_def)

lemma demo_accepted:
  "accepted (demo_webhook peer) demo_handler (demo_delivery ''good'') =
     Some \<lparr>peProvider = ''stripe'', peExternalID = ''ext-1'',
     peEventID = ''evt_1'', peType = ''payout_succeeded'', peStatus = ''received'',
     peOccurredAt = 1700000000 * 10 ^ 9, peErrorCode = [], peErrorMessage = []\<rparr>"
  by (simp add: accepted_def demo_delivery_def demo_webhook_def demo_parse)

lemma demo_carries: "carries_event (demo_webhook peer) demo_handler ''evt_1'' (demo_delivery ''good'')"
  by (simp add: carries_event_def demo_accepted)

lemma demo_new:
  "fst (IsProcessed (weRedis (demo_webhook peer)) (whTTL demo_handler) e
     (wsRedis (demo_webhook_state o1))) = Inr False"
  by (simp add: IsProcessed_def redis_do_def demo_webhook_def demo_redis_def demo_webhook_state_def
      redis_setnx_def live_def Let_def)

lemma unsigned_requests_ignored_witness:
  "snd (Webhook_ServeHTTP (demo_webhook failing_peer) demo_handler (demo_delivery ''forged'')
     (demo_webhook_state ())) = demo_webhook_state ()"
proof -
  have "\<exists>e. weConstructEvent (demo_webhook failing_peer) payload (hqSignature (demo_delivery ''forged''))
      (whSecret demo_handler) = Inl e" for payload
    by (simp add: demo_webhook_def demo_delivery_def)
  then show ?thesis
    using unsigned_requests_ignored [of "demo_delivery ''forged''" "demo_webhook failing_peer" demo_handler
        "demo_webhook_state ()"] by blast
qed

lemma event_forwarded_at_most_once_witness:
  "forward_count (demo_webhook failing_peer) demo_handler ''evt_1''
     [demo_delivery ''good'', demo_delivery ''good''] (demo_webhook_state ()) \<le> 1"
  by (rule event_forwarded_at_most_once [OF demo_in_window])

theorem failed_forward_is_lost_witness:
  "let s1 = snd (Webhook_ServeHTTP (demo_webhook failing_peer) demo_handler (demo_delivery ''good'') (demo_webhook_state ()))
   in stopped (demo_webhook failing_peer) demo_handler ''evt_1'' (demo_delivery ''good'')
     (fst (deliver (demo_webhook failing_peer) demo_handler [(demo_delivery ''good'', id), (demo_delivery ''good'', id)] s1) ! 1)"
proof -
  let ?V = "demo_webhook failing_peer" and ?r = "demo_delivery ''good''" and ?s = "demo_webhook_state ()"
  have fwd: "forwards ?V demo_handler ''evt_1'' ?r ?s"
    by (simp add: forwards_def demo_accepted demo_new)
  obtain rd where "IsProcessed (weRedis ?V) (whTTL demo_handler) ''evt_1'' (wsRedis ?s) = (Inr False, rd)"
    using demo_new [of failing_peer "''evt_1''" "()"] by (metis prod.collapse)
  then have "fst (Webhook_ServeHTTP ?V demo_handler ?r ?s) = http_error 500 ''forward failed''"
    by (simp add: ServeHTTP_accepted [OF demo_accepted] forwardToOrchestrator_def)
      (simp add: demo_webhook_def failing_peer_def)
  then have resp: "Webhook_ServeHTTP ?V demo_handler ?r ?s =
      (http_error 500 ''forward failed'', snd (Webhook_ServeHTTP ?V demo_handler ?r ?s))"
    by (simp add: prod_eq_iff)
  obtain outs s2 where d: "deliver ?V demo_handler [(?r, id), (?r, id)] (snd (Webhook_ServeHTTP ?V demo_handler ?r ?s)) = (outs, s2)"
    by (metis prod.collapse)
  show ?thesis
    using failed_forward_is_lost [OF demo_in_window fwd resp d] demo_carries [of failing_peer] by (simp add: d Let_def less_Suc_eq del: deliver.simps)
qed

lemma webhook_end_to_end_witness:
  "fst (Webhook_ServeHTTP (demo_webhook (orchestrator_peer demo_service)) demo_handler
     (demo_delivery ''good'') (demo_webhook_state demo_state)) = writeOK"
proof -
  let ?V = "demo_webhook (orchestrator_peer demo_service)" and ?s = "demo_webhook_state demo_state"
  have stored: "store_of (ssPg (wsOrch ?s)) 1 = Some (toDomainPayout demo_row)"
    "pExternalID (toDomainPayout demo_row) = Some ''ext-1''"
    by (simp_all add: store_of_def demo_state_def demo_row_def demo_webhook_state_def)
  have "tables_ok (ssPg (wsOrch ?s))" using demo_tables_ok by (simp add: demo_webhook_state_def)
  moreover have "weApplyProviderUpdate ?V = orchestrator_peer demo_service"
    "hqMethod (demo_delivery ''good'') = ''POST''" "hqBody (demo_delivery ''good'') = Some ''{}''"
    "hqSignature (demo_delivery ''good'') \<noteq> []"
    "weConstructEvent ?V ''{}'' (hqSignature (demo_delivery ''good'')) (whSecret demo_handler) = Inr demo_event"
    "extractExternalID demo_event = Inr ''ext-1''"
    "mapEventType (seType demo_event) = Inr ''payout_succeeded''"
    by (simp_all add: demo_webhook_def demo_delivery_def extractExternalID_def demo_event_def mapEventType_def)
  moreover have "fst (IsProcessed (weRedis ?V) (whTTL demo_handler) (seID demo_event) (wsRedis ?s)) = Inr False"
    by (rule demo_new)
  ultimately show ?thesis
    using webhook_end_to_end [OF demo_reliable, where V = ?V and s = ?s and r = "demo_delivery ''good''"
        and h = demo_handler and payload = "''{}''" and ev = demo_event and ext = "''ext-1''"
        and ty = "''payout_succeeded''" and i = 1 and p = "toDomainPayout demo_row"] stored
    by (simp add: split_beta Let_def)
qed

end
