(* ===== verification/Api.thy ===== *)
theory Api
  imports PayoutService Json Sha256
begin

text \<open>
  \<open>services/api/internal/http/router.go\<close>: the three payout endpoints of the public API over the
  orchestrator's gRPC client. The client is a parameter (three calls on a state \<open>'o\<close> of the other
  side); the request body is the JSON value that the decoder found first in it.
\<close>

section \<open>gRPC status\<close>

text \<open>\<open>status.FromError\<close>: a status error, or one that wraps it and then carries the whole text.\<close>

fun wrapped_code :: "go_error \<Rightarrow> grpc_code option" where
  "wrapped_code (StatusError c m) = Some c"
| "wrapped_code (ErrWrap m e) = wrapped_code e"
| "wrapped_code (RetryableError b e) = wrapped_code e"
| "wrapped_code e = None"

definition status_FromError :: "go_error \<Rightarrow> (grpc_code \<times> string) option" where
  "status_FromError err =
     (case err of
        StatusError c m \<Rightarrow> Some (c, m)
      | _ \<Rightarrow> (case wrapped_code err of Some c \<Rightarrow> Some (c, err_text err) | None \<Rightarrow> None))"

section \<open>The canonical hash\<close>

definition double_quote :: char where
  "double_quote = char_of (34::nat)"

definition json_name :: "string \<Rightarrow> string" where
  "json_name n = [double_quote] @ n @ [double_quote, CHR '':'']"

text \<open>\<open>fmt.Sprintf\<close> with the format of \<open>canonicalHash\<close>: an object with the three members.\<close>

definition canonical :: "int \<Rightarrow> string \<Rightarrow> string \<Rightarrow> string" where
  "canonical amount currency rail =
     ''{'' @ json_name ''amount'' @ int_text amount @ '','' @ json_name ''currency'' @ go_quote currency @
     '','' @ json_name ''rail'' @ go_quote rail @ ''}''"

definition canonicalHash :: "int \<Rightarrow> string \<Rightarrow> string \<Rightarrow> string" where
  "canonicalHash amount currency rail = hex_text (Sum256 (canonical amount currency rail))"

section \<open>The request body\<close>

record create_body =
  cbAmount :: int
  cbCurrency :: string
  cbRail :: string

text \<open>
  Decoding into the struct: null changes nothing, a member of a known name must have the field's
  type, the last one counts, and after a type error the decoder goes on and reports it at the end.
\<close>

definition decode_member :: "string \<times> json \<Rightarrow> create_body \<times> bool \<Rightarrow> create_body \<times> bool" where
  "decode_member kv st =
     (case st of (b, failed) \<Rightarrow>
      case field_of [''amount'', ''currency'', ''rail''] (fst kv) of
        None \<Rightarrow> st
      | Some f \<Rightarrow>
          if snd kv = JNull then st
          else if f = ''amount''
          then (case snd kv of
                  JNumber lit \<Rightarrow> (case ParseInt64 lit of Some n \<Rightarrow> (b\<lparr>cbAmount := n\<rparr>, failed) | None \<Rightarrow> (b, True))
                | _ \<Rightarrow> (b, True))
          else (case snd kv of
                  JString x \<Rightarrow> (if f = ''currency'' then b\<lparr>cbCurrency := x\<rparr> else b\<lparr>cbRail := x\<rparr>, failed)
                | _ \<Rightarrow> (b, True)))"

definition decode_create_body :: "json \<Rightarrow> create_body option" where
  "decode_create_body v =
     (let zero = \<lparr>cbAmount = 0, cbCurrency = [], cbRail = []\<rparr> in
      case v of
        JNull \<Rightarrow> Some zero
      | JObject kvs \<Rightarrow> (case fold decode_member kvs (zero, False) of (b, failed) \<Rightarrow> if failed then None else Some b)
      | _ \<Rightarrow> None)"

section \<open>Responses\<close>

datatype api_body =
    ErrorBody string string
  | CreatedBody string string
  | PayoutBody string string int string string string string
  | SuccessBody bool

record api_response =
  apStatus :: nat
  apBody :: api_body

definition writeError :: "nat \<Rightarrow> string \<Rightarrow> string \<Rightarrow> api_response" where
  "writeError status code message = \<lparr>apStatus = status, apBody = ErrorBody code message\<rparr>"

section \<open>Handlers\<close>

record 'o payout_client =
  pcCreatePayout :: "create_request \<Rightarrow> 'o \<Rightarrow> create_response result \<times> 'o"
  pcGetPayout :: "string \<Rightarrow> 'o \<Rightarrow> get_response result \<times> 'o"
  pcCancelPayout :: "string \<Rightarrow> 'o \<Rightarrow> bool result \<times> 'o"

text \<open>The arguments are the Idempotency-Key header and the first JSON value of the body, if any.\<close>

definition createPayoutHandler ::
    "'o payout_client \<Rightarrow> string \<Rightarrow> json option \<Rightarrow> 'o \<Rightarrow> api_response \<times> 'o" where
  "createPayoutHandler client idempotencyKey reqBody s =
     (if idempotencyKey = []
      then (writeError 400 CodeInvalidArgument ''Idempotency-Key header is required'', s)
      else case Option.bind reqBody decode_create_body of
        None \<Rightarrow> (writeError 400 CodeInvalidArgument ''invalid request body'', s)
      | Some b \<Rightarrow>
          if cbAmount b \<le> 0 then (writeError 400 CodeInvalidArgument ''amount must be positive'', s)
          else if cbRail b = [] then (writeError 400 CodeInvalidArgument ''rail is required'', s)
          else (case pcCreatePayout client
                  \<lparr>crIdempotencyKey = idempotencyKey,
                   crRequestHash = canonicalHash (cbAmount b) (cbCurrency b) (cbRail b),
                   crAmount = cbAmount b, crCurrency = cbCurrency b, crRail = cbRail b\<rparr> s of
             (Inl err, s') \<Rightarrow>
               (case status_FromError err of
                  Some (GrpcAlreadyExists, m) \<Rightarrow>
                    (writeError 409 CodeIdempotencyConflict ''idempotency key reused with different request'', s')
                | _ \<Rightarrow> (writeError 502 CodeInternal ''upstream error'', s'))
           | (Inr resp, s') \<Rightarrow>
               (\<lparr>apStatus = 202, apBody = CreatedBody (caPayoutId resp) (caStatus resp)\<rparr>, s')))"

definition getPayoutHandler :: "'o payout_client \<Rightarrow> string \<Rightarrow> 'o \<Rightarrow> api_response \<times> 'o" where
  "getPayoutHandler client payout_id s =
     (if payout_id = [] then (writeError 400 CodeInvalidArgument ''payout id is required'', s)
      else case pcGetPayout client payout_id s of
        (Inl err, s') \<Rightarrow>
          (case status_FromError err of
             Some (GrpcNotFound, m) \<Rightarrow> (writeError 404 CodeNotFound ''payout not found'', s')
           | Some (GrpcInvalidArgument, m) \<Rightarrow> (writeError 400 CodeInvalidUUID m, s')
           | _ \<Rightarrow> (writeError 502 CodeInternal ''upstream error'', s'))
      | (Inr resp, s') \<Rightarrow>
          (\<lparr>apStatus = 200, apBody = PayoutBody (gaPayoutId resp) (gaStatus resp) (gaAmount resp)
              (gaCurrency resp) (gaRail resp) (gaProvider resp) (gaExternalId resp)\<rparr>, s'))"

definition cancelPayoutHandler :: "'o payout_client \<Rightarrow> string \<Rightarrow> 'o \<Rightarrow> api_response \<times> 'o" where
  "cancelPayoutHandler client payout_id s =
     (if payout_id = [] then (writeError 400 CodeInvalidArgument ''payout id is required'', s)
      else case pcCancelPayout client payout_id s of
        (Inl err, s') \<Rightarrow>
          (case status_FromError err of
             Some (GrpcNotFound, m) \<Rightarrow> (writeError 404 CodeNotFound ''payout not found'', s')
           | Some (GrpcInvalidArgument, m) \<Rightarrow> (writeError 400 CodeInvalidUUID m, s')
           | Some (GrpcFailedPrecondition, m) \<Rightarrow> (writeError 409 CodeInvalidState m, s')
           | _ \<Rightarrow> (writeError 502 CodeInternal ''upstream error'', s'))
      | (Inr ok, s') \<Rightarrow> (\<lparr>apStatus = 200, apBody = SuccessBody ok\<rparr>, s'))"

text \<open>The orchestrator's service as the client of the API, on a connection that delivers.\<close>

definition orchestrator_client ::
    "('c, 'p, 'd) service_env \<Rightarrow> 'c payout_server \<Rightarrow> ('p, 'd) service_state payout_client" where
  "orchestrator_client V srv =
     \<lparr>pcCreatePayout = Service_CreatePayout V srv, pcGetPayout = Service_GetPayout V,
      pcCancelPayout = Service_CancelPayout V srv\<rparr>"

end
