(* ===== verification/ApiFacts.thy ===== *)
theory ApiFacts
  imports Api ServiceProps
begin

text \<open>
  What the public API promises. The canonical form of a request is unambiguous, so that equal hashes
  of different requests are collisions of SHA-256; a create request reaches the orchestrator only when
  its key, amount and rail are there; and the HTTP status codes of the three endpoints, composed with
  the orchestrator's own service, mean what they say.
\<close>


section \<open>The canonical form is unambiguous\<close>

lemma hex_digit_inj: "a < 16 \<Longrightarrow> b < 16 \<Longrightarrow> hex_digit a = hex_digit b \<longleftrightarrow> a = b"
proof -
  assume "a < 16" "b < 16"
  have code: "n < 16 \<Longrightarrow> (of_char (hex_digit n) :: nat) = (if n < 10 then 48 + n else 87 + n)" for n
    by (simp add: hex_digit_def)
  have "hex_digit a = hex_digit b \<longleftrightarrow> (of_char (hex_digit a) :: nat) = of_char (hex_digit b)"
    by simp
  also have "\<dots> \<longleftrightarrow> a = b"
    using \<open>a < 16\<close> \<open>b < 16\<close> by (auto simp: code split: if_splits)
  finally show ?thesis .
qed

text \<open>Decimal texts have no comma and are unambiguous.\<close>

lemma nat_text_inj: "nat_text m = nat_text n \<Longrightarrow> m = n"
  by (metis digits_value_text of_nat_eq_iff)

lemma nat_text_digits: "c \<in> set (nat_text n) \<Longrightarrow> 48 \<le> (of_char c :: nat) \<and> (of_char c :: nat) \<le> 57"
  using digits_value_text [of n] by (simp add: list_all_iff is_digit_def)

lemma nat_text_not_minus: "nat_text n \<noteq> CHR ''-'' # cs"
proof
  assume "nat_text n = CHR ''-'' # cs"
  then have "CHR ''-'' \<in> set (nat_text n)" by simp
  from nat_text_digits [OF this] show False by simp
qed

lemma int_text_inj: "int_text a = int_text b \<Longrightarrow> a = b"
proof -
  assume eq: "int_text a = int_text b"
  consider "a < 0 \<and> b < 0" | "a < 0 \<and> \<not> b < 0" | "\<not> a < 0 \<and> b < 0" | "\<not> a < 0 \<and> \<not> b < 0" by blast
  then show ?thesis
  proof cases
    case 1
    then have "nat (- a) = nat (- b)" using eq by (intro nat_text_inj) (simp add: int_text_def)
    then show ?thesis using 1 by arith
  next
    case 2
    then show ?thesis using eq nat_text_not_minus [of "nat b"] by (simp add: int_text_def) metis
  next
    case 3
    then show ?thesis using eq nat_text_not_minus [of "nat a"] by (simp add: int_text_def)
  next
    case 4
    then have "nat a = nat b" using eq by (intro nat_text_inj) (simp add: int_text_def)
    then show ?thesis using 4 by arith
  qed
qed

lemma int_text_no_comma: "CHR '','' \<notin> set (int_text a)"
  using nat_text_digits [of "CHR '',''"] by (auto simp: int_text_def)

lemma split_at_first:
  "x \<notin> set as \<Longrightarrow> x \<notin> set bs \<Longrightarrow> as @ x # cs = bs @ x # ds \<Longrightarrow> as = bs \<and> cs = ds"
proof (induction as arbitrary: bs)
  case Nil
  then show ?case by (cases bs) auto
next
  case (Cons a as)
  then show ?case by (cases bs) auto
qed

lemma canonical_unique:
  "canonical a c r = canonical a' c' r' \<longleftrightarrow> a = a' \<and> c = c' \<and> r = r'"
proof
  assume eq: "canonical a c r = canonical a' c' r'"
  have "int_text a @ CHR '','' # json_name ''currency'' @ go_quote c @ '','' @ json_name ''rail'' @ go_quote r @ ''}'' =
      int_text a' @ CHR '','' # json_name ''currency'' @ go_quote c' @ '','' @ json_name ''rail'' @ go_quote r' @ ''}''"
    using eq by (simp add: canonical_def)
  from split_at_first [OF int_text_no_comma int_text_no_comma this]
  have a: "int_text a = int_text a'"
    and rest: "go_quote c @ CHR '','' # json_name ''rail'' @ go_quote r @ ''}'' =
      go_quote c' @ CHR '','' # json_name ''rail'' @ go_quote r' @ ''}''"
    by simp_all
  from go_quote_prefix [OF rest] have c: "c = c'" and rest2: "go_quote r @ CHR ''}'' # [] = go_quote r' @ CHR ''}'' # []"
    by simp_all
  show "a = a' \<and> c = c' \<and> r = r'"
    using int_text_inj [OF a] c go_quote_prefix [OF rest2] by simp
qed simp


text \<open>
  C32: the hashed text determines the request. Two requests have the same canonical form exactly if
  amount, currency and rail are the same, whatever bytes the texts hold, valid UTF-8 or not: no choice
  of currency and rail can pass for another request.
\<close>

theorem canonical_unambiguous:
  "canonical a c r = canonical a' c' r' \<longleftrightarrow> a = a' \<and> c = c' \<and> r = r'"
  by (rule canonical_unique)

section \<open>The hash\<close>

lemma hex_text_inj:
  assumes "list_all (\<lambda>b. 0 \<le> b \<and> b < 256) bs" and "list_all (\<lambda>b. 0 \<le> b \<and> b < 256) cs"
    and "hex_text bs = hex_text cs"
  shows "bs = cs"
  using assms
proof (induction bs arbitrary: cs)
  case Nil
  then show ?case by (cases cs) (simp_all add: hex_text_def)
next
  case (Cons b bs)
  then obtain c ds where cs: "cs = c # ds" by (cases cs) (simp_all add: hex_text_def)
  have "nat (b div 16) = nat (c div 16)" "nat (b mod 16) = nat (c mod 16)"
    using Cons.prems unfolding cs by (auto simp: hex_text_def hex_digit_inj)
  moreover have "0 \<le> b div 16" "0 \<le> c div 16" "0 \<le> b mod 16" "0 \<le> c mod 16"
    using Cons.prems unfolding cs by (simp_all add: pos_imp_zdiv_nonneg_iff)
  ultimately have "b div 16 = c div 16" "b mod 16 = c mod 16" by (metis eq_nat_nat_iff)+
  then have "b = c" by (metis div_mult_mod_eq)
  moreover have "bs = ds" using Cons.prems unfolding cs by (intro Cons.IH) (simp_all add: hex_text_def)
  ultimately show ?case using cs by simp
qed

lemma Sum256_bytes: "list_all (\<lambda>b. 0 \<le> b \<and> b < 256) (Sum256 x)"
  by (auto simp: Sum256_def be_bytes_def Let_def list_all_iff)

text \<open>A sum has 32 bytes, its text 64 digits.\<close>

lemma length_sha_round: "length st = 8 \<Longrightarrow> length (sha_round st kw) = 8"
  by (cases "(st, kw)" rule: sha_round.cases) (auto simp: Let_def)

lemma length_sha_rounds: "length st = 8 \<Longrightarrow> length (foldl sha_round st kws) = 8"
  by (induction kws arbitrary: st) (simp_all add: length_sha_round)

lemma length_sha_blocks: "length st = 8 \<Longrightarrow> length (sha_blocks n ws st) = 8"
  by (induction n arbitrary: ws st) (simp_all add: sha_block_def length_sha_rounds)

lemma length_concat_const: "(\<And>x. length (f x) = n) \<Longrightarrow> length (concat (map f xs)) = n * length xs"
  by (induction xs) auto

lemma length_Sum256: "length (Sum256 x) = 32"
  by (simp add: Sum256_def Let_def length_concat_const [of _ 4] be_bytes_def length_sha_blocks sha_init_def)

lemma length_canonicalHash: "length (canonicalHash a c r) = 64"
  by (simp add: canonicalHash_def hex_text_def length_concat_const [of _ 2] length_Sum256)

lemma canonicalHash_nonempty: "canonicalHash a c r \<noteq> []"
  using length_canonicalHash [of a c r] by auto

section \<open>What reaches the orchestrator\<close>

text \<open>
  The API lets only well-formed creations through. A POST is answered with 400 and the client is
  not called, unless there is an idempotency key and the body decodes to a positive amount and a
  rail; and then the client is called once, with exactly these fields and their hash.
\<close>

lemma create_calls:
  "case (if key = [] then None else Option.bind body decode_create_body) of
     Some b \<Rightarrow>
       if 0 < cbAmount b \<and> cbRail b \<noteq> []
       then snd (createPayoutHandler client key body s) =
           snd (pcCreatePayout client \<lparr>crIdempotencyKey = key,
             crRequestHash = canonicalHash (cbAmount b) (cbCurrency b) (cbRail b),
             crAmount = cbAmount b, crCurrency = cbCurrency b, crRail = cbRail b\<rparr> s) \<and>
         apStatus (fst (createPayoutHandler client key body s)) \<in> {202, 409, 502}
       else apStatus (fst (createPayoutHandler client key body s)) = 400 \<and>
         snd (createPayoutHandler client key body s) = s
   | None \<Rightarrow> apStatus (fst (createPayoutHandler client key body s)) = 400 \<and>
       snd (createPayoutHandler client key body s) = s"
  by (auto simp: createPayoutHandler_def writeError_def not_less
      split: option.splits prod.split sum.split grpc_code.split)

section \<open>Together with the orchestrator\<close>

text \<open>The handler's POST as the orchestrator sees it.\<close>

definition post_request :: "string \<Rightarrow> create_body \<Rightarrow> create_request" where
  "post_request key b = \<lparr>crIdempotencyKey = key,
     crRequestHash = canonicalHash (cbAmount b) (cbCurrency b) (cbRail b),
     crAmount = cbAmount b, crCurrency = cbCurrency b, crRail = cbRail b\<rparr>"

lemma create_accepted:
  assumes "key \<noteq> []" and "decode_create_body v = Some b" and "0 < cbAmount b" and "cbRail b \<noteq> []"
  shows "createPayoutHandler (orchestrator_client V srv) key (Some v) s =
    (case Service_CreatePayout V srv (post_request key b) s of
       (Inl err, s') \<Rightarrow>
         (case status_FromError err of
            Some (GrpcAlreadyExists, m) \<Rightarrow>
              (writeError 409 CodeIdempotencyConflict ''idempotency key reused with different request'', s')
          | _ \<Rightarrow> (writeError 502 CodeInternal ''upstream error'', s'))
     | (Inr resp, s') \<Rightarrow>
         (\<lparr>apStatus = 202, apBody = CreatedBody (caPayoutId resp) (caStatus resp)\<rparr>, s'))"
  using assms by (simp add: createPayoutHandler_def orchestrator_client_def post_request_def)

text \<open>
  A key is good for one request. If a key is stored for a creation with other fields, the POST
  is refused with 409 (or 502 where the database fails first), nothing is stored and no provider is
  called; the only way round is a collision of SHA-256, two canonical texts that differ and have the
  same sum.
\<close>

lemma api_key_conflict:
  assumes "tables_ok (ssPg s)" and "krow \<in> set (tbl_keys (ssPg s))" and "ikKey krow = key"
    and "ikRequestHash krow = canonicalHash a c r" and "key \<noteq> []"
    and "decode_create_body v = Some b" and "0 < cbAmount b" and "cbRail b \<noteq> []"
    and other: "(cbAmount b, cbCurrency b, cbRail b) \<noteq> (a, c, r)"
  shows "(let (resp, s') = createPayoutHandler (orchestrator_client V srv) key (Some v) s in
      apStatus resp \<in> {409, 502} \<and> same_tables (ssPg s) (ssPg s') \<and> ssOrch s' = ssOrch s) \<or>
    (canonical (cbAmount b) (cbCurrency b) (cbRail b) \<noteq> canonical a c r \<and>
     Sum256 (canonical (cbAmount b) (cbCurrency b) (cbRail b)) = Sum256 (canonical a c r))"
proof (cases "canonicalHash (cbAmount b) (cbCurrency b) (cbRail b) = canonicalHash a c r")
  case True
  have "canonical (cbAmount b) (cbCurrency b) (cbRail b) \<noteq> canonical a c r"
    using other canonical_unique by auto
  then show ?thesis
    using True hex_text_inj [OF Sum256_bytes Sum256_bytes] unfolding canonicalHash_def by blast
next
  case False
  let ?req = "post_request key b"
  have req: "crIdempotencyKey ?req = key" "crRequestHash ?req \<noteq> []" "ikRequestHash krow \<noteq> crRequestHash ?req"
    using False assms(4) by (simp_all add: post_request_def canonicalHash_nonempty)
  obtain res s' m where run: "Service_CreatePayout V srv ?req s = (res, s')"
    and same: "same_tables (ssPg s) (ssPg s')" "ssOrch s' = ssOrch s"
    and res: "res = Inl (StatusError GrpcInternal m) \<or>
      res = Inl (StatusError GrpcAlreadyExists CodeIdempotencyConflict)"
    by (rule CreatePayout_existing_key [OF assms(1,2), of ?req V srv]) (use assms(3,5) req in auto)
  show ?thesis
    using res same unfolding create_accepted [OF assms(5-8)] run
    by (auto simp: writeError_def status_FromError_def)
qed

section \<open>The endpoints over the orchestrator\<close>


text \<open>
  C18: what the endpoint for cancelling answers over the orchestrator, when the connection to the
  database is reliable: 400 for an empty id and for one that is no UUID, 404 for an unknown payout, 409
  for one whose state does not allow it, each with its error code, and 200 for one that is canceled by
  the call. Only in the last case does the store change. (\<open>docs/openapi.yaml\<close> documents another
  contract, with 400 for a wrong state.)
\<close>

theorem api_cancel_contract:
  assumes "reliable (sePg V)" and "tables_ok (ssPg s)"
  shows "let (resp, s') = cancelPayoutHandler (orchestrator_client V srv) payout_id s in
    if payout_id = []
    then resp = \<lparr>apStatus = 400, apBody = ErrorBody ''INVALID_ARGUMENT'' ''payout id is required''\<rparr> \<and> s' = s
    else case seParse V payout_id of
      None \<Rightarrow> resp = \<lparr>apStatus = 400, apBody = ErrorBody ''INVALID_UUID'' ''INVALID_UUID''\<rparr> \<and> s' = s
    | Some i \<Rightarrow>
        (case store_of (ssPg s) i of
           None \<Rightarrow> resp = \<lparr>apStatus = 404, apBody = ErrorBody ''NOT_FOUND'' ''payout not found''\<rparr> \<and>
             same_tables (ssPg s) (ssPg s')
         | Some p \<Rightarrow>
             if pState p \<in> {''created'', ''queued'', ''sent'', ''pending''}
             then resp = \<lparr>apStatus = 200, apBody = SuccessBody True\<rparr> \<and>
               (\<exists>t. store_of (ssPg s') = (store_of (ssPg s))(i \<mapsto> p\<lparr>pState := ''canceled'', pUpdatedAt := t\<rparr>))
             else resp = \<lparr>apStatus = 409, apBody = ErrorBody ''INVALID_STATE''
                 (''INVALID_STATE: payout cannot be canceled in state '' @ go_quote (pState p))\<rparr> \<and>
               same_tables (ssPg s) (ssPg s'))"
proof (cases "payout_id = [] \<or> seParse V payout_id = None")
  case True
  then show ?thesis
    by (auto simp: cancelPayoutHandler_def orchestrator_client_def Service_CancelPayout_def
        status_FromError_def writeError_def)
next
  case False
  then obtain i where i: "payout_id \<noteq> []" "seParse V payout_id = Some i" by auto
  obtain res s' where run: "Service_CancelPayout V srv payout_id s = (res, s')" by (metis prod.collapse)
  note spec = CancelPayout_reliable [OF assms i, of srv, unfolded run Let_def prod.case]
  show ?thesis
    using spec i
    by (auto simp: cancelPayoutHandler_def orchestrator_client_def run status_FromError_def writeError_def
        split: option.splits if_splits)
qed

theorem api_cancel_contract_witness:
  "fst (cancelPayoutHandler (orchestrator_client demo_service None) ''1'' demo_state) =
     \<lparr>apStatus = 200, apBody = SuccessBody True\<rparr>"
proof -
  have "store_of (ssPg demo_state) 1 = Some (toDomainPayout demo_row)"
    by (simp add: store_of_def demo_state_def demo_row_def)
  then show ?thesis
    using api_cancel_contract [OF demo_reliable demo_tables_ok, of None "''1''"]
    by (simp add: split_beta Let_def demo_service_def demo_row_def)
qed

text \<open>A post, with the payout it stores.\<close>

lemma post_sent:
  assumes "reliable (sePg V)" and "tables_ok (ssPg s)" and "storable (sePg V) (post_request key b) (ssPg s)"
    and "decode_create_body v = Some b" and "cbRail b \<noteq> []"
    and fb: "\<And>p0. SendPayoutWithFallback (seRails V) orc p0 (ssOrch s) = (result p0, o1 p0)"
  obtains p0 p s' where "createPayoutHandler (orchestrator_client V (Some orc)) key (Some v) s =
      (\<lparr>apStatus = 202, apBody = CreatedBody (seString V (pID p0)) (pState p)\<rparr>, s')"
    and "store_of (ssPg s) (pID p0) = None" and "store_of (ssPg s') (pID p0) = Some p" and "tables_ok (ssPg s')"
    and "ssOrch s' = o1 p0" and "pState p0 = ''created''"
    and "pAmountCents p0 = cbAmount b" and "pCurrency p0 = cbCurrency b" and "pRail p0 = cbRail b"
    and "pProvider p0 = []" and "pExternalID p0 = None"
    and "if recordable (result p0) (ssPg s)
         then \<exists>t. p = p0\<lparr>pState := (if srSuccess (result p0) then ''sent'' else ''failed''),
                pProvider := reported_provider (result p0),
                pExternalID := (if srSuccess (result p0) then Some (srExternalID (result p0)) else None), pUpdatedAt := t\<rparr>
         else p = p0"
proof -
  let ?req = "post_request key b"
  have fields: "crAmount ?req = cbAmount b" "crCurrency ?req = cbCurrency b" "crRail ?req = cbRail b"
    "crIdempotencyKey ?req = key" by (simp_all add: post_request_def)
  have nonempty: "key \<noteq> []" "0 < cbAmount b" using assms(3) fields by (auto simp: storable_def)
  obtain res s' where run: "Service_CreatePayout V (Some orc) ?req s = (res, s')" by (metis prod.collapse)
  from CreatePayout_sent [OF assms(1-3), of orc, unfolded run fb Let_def split_beta prod.case] show thesis
  proof (elim exE conjE, goal_cases)
    case (1 p0 p krow)
    have "tables_ok (ssPg s')"
      using Service_CreatePayout_db_le [of s V "Some orc" ?req] assms(2) by (simp add: run db_le_def)
    then show thesis using 1 fields
      by (intro that [of p0 p s']) (auto simp: create_accepted [OF nonempty(1) assms(4) nonempty(2) assms(5)] run)
  qed
qed

lemma post_stored:
  assumes "reliable (sePg V)" and "tables_ok (ssPg s)" and "storable (sePg V) (post_request key b) (ssPg s)"
    and "decode_create_body v = Some b" and "cbRail b \<noteq> []"
  obtains i p s' where "createPayoutHandler (orchestrator_client V (Some orc)) key (Some v) s =
      (\<lparr>apStatus = 202, apBody = CreatedBody (seString V i) (pState p)\<rparr>, s')"
    and "store_of (ssPg s') i = Some p" and "tables_ok (ssPg s')"
    and "pAmountCents p = cbAmount b" and "pCurrency p = cbCurrency b" and "pRail p = cbRail b"
proof -
  let ?fb = "\<lambda>p0. SendPayoutWithFallback (seRails V) orc p0 (ssOrch s)"
  show thesis
  proof (rule post_sent [OF assms, of orc "\<lambda>p0. fst (?fb p0)" "\<lambda>p0. snd (?fb p0)"], goal_cases)
    case (2 p0 p s')
    have "pAmountCents p = pAmountCents p0 \<and> pCurrency p = pCurrency p0 \<and> pRail p = pRail p0"
      using 2(12) by (auto split: if_splits)
    then show ?case using 2 by (intro that [of "pID p0" p s']) simp_all
  qed simp
qed

lemma get_stored:
  assumes "reliable (sePg V)" and "store_of (ssPg s) i = Some p"
    and uuid: "\<And>u. seParse V (seString V u) = Some u" "\<And>u. seString V u \<noteq> []"
  shows "fst (getPayoutHandler (orchestrator_client V srv) (seString V i) s) =
    \<lparr>apStatus = 200, apBody = PayoutBody (seString V i) (pState p) (pAmountCents p) (pCurrency p) (pRail p) (pProvider p)
       (case pExternalID p of None \<Rightarrow> [] | Some x \<Rightarrow> x)\<rparr>"
  using GetPayout_reliable [OF assms(1) uuid(2) uuid(1), of i s] assms(2) uuid(2)
  by (simp add: getPayoutHandler_def orchestrator_client_def prod_eq_iff split: prod.split)

text \<open>
  What was posted can be fetched. On a reliable connection a well-formed POST with a new key is
  accepted, and a GET of the id it answered with reports that id, the same state, and the amount,
  currency and rail that were posted.
\<close>

lemma post_then_get:
  assumes "reliable (sePg V)" and "tables_ok (ssPg s)" and "storable (sePg V) (post_request key b) (ssPg s)"
    and "decode_create_body v = Some b" and "cbRail b \<noteq> []"
    and uuid: "\<And>u. seParse V (seString V u) = Some u" "\<And>u. seString V u \<noteq> []"
  shows "let (resp, s') = createPayoutHandler (orchestrator_client V (Some orc)) key (Some v) s in
    \<exists>i state prov ext. resp = \<lparr>apStatus = 202, apBody = CreatedBody i state\<rparr> \<and>
      fst (getPayoutHandler (orchestrator_client V (Some orc)) i s') =
        \<lparr>apStatus = 200, apBody = PayoutBody i state (cbAmount b) (cbCurrency b) (cbRail b) prov ext\<rparr>"
proof -
  obtain i p s' where post: "createPayoutHandler (orchestrator_client V (Some orc)) key (Some v) s =
      (\<lparr>apStatus = 202, apBody = CreatedBody (seString V i) (pState p)\<rparr>, s')"
    and p: "store_of (ssPg s') i = Some p"
    and "pAmountCents p = cbAmount b" "pCurrency p = cbCurrency b" "pRail p = cbRail b"
    by (rule post_stored [OF assms(1-5)])
  then show ?thesis using get_stored [OF assms(1) p uuid, of "Some orc"] by (simp add: post)
qed

text \<open>A UUID text for the example: the number in unary.\<close>

definition demo_text :: "(nat, unit, uuid) service_env" where
  "demo_text = demo_service\<lparr>seString := (\<lambda>u. replicate (Suc (unat u)) CHR ''x''),
     seParse := (\<lambda>t. Some (of_nat (length t - 1)))\<rparr>"

definition demo_body :: json where
  "demo_body = JObject [(''amount'', JNumber ''100''), (''Currency'', JString ''USD''), (''rail'', JString ''card'')]"

lemma field_of_Currency: "field_of [''amount'', ''currency'', ''rail''] ''Currency'' = Some ''currency''"
  by code_simp

lemma field_of_itself: "k \<in> set names \<Longrightarrow> field_of names k = Some k"
  by (simp add: field_of_def)

lemma demo_decode:
  "decode_create_body demo_body = Some \<lparr>cbAmount = 100, cbCurrency = ''USD'', cbRail = ''card''\<rparr>"
  by (simp add: decode_create_body_def demo_body_def decode_member_def field_of_Currency field_of_itself
      ParseInt64_def ParseInt_def split_sign_def digits_value_def is_digit_def Let_def)

lemma post_then_get_witness:
  "apStatus (fst (createPayoutHandler (orchestrator_client demo_text (Some demo_stripe)) ''k'' (Some demo_body)
     demo_empty)) = 202"
proof -
  let ?b = "\<lparr>cbAmount = 100, cbCurrency = ''USD'', cbRail = ''card''\<rparr>"
  have "reliable (sePg demo_text)" using demo_reliable by (simp add: demo_text_def)
  moreover have "storable (sePg demo_text) (post_request ''k'' ?b) (ssPg demo_empty)"
    by (simp add: storable_def post_request_def canonicalHash_nonempty demo_empty_def db_rails_def)
  moreover have "seParse demo_text (seString demo_text u) = Some u" "seString demo_text u \<noteq> []" for u
    by (simp_all add: demo_text_def)
  ultimately show ?thesis
    using post_then_get [OF _ demo_empty_ok _ demo_decode, of demo_text "''k''" demo_stripe]
    by (auto simp: Let_def split_beta)
qed

lemma create_calls_witness:
  "snd (createPayoutHandler (orchestrator_client demo_service None) ''k'' (Some demo_body) demo_state) =
     snd (pcCreatePayout (orchestrator_client demo_service None)
       (post_request ''k'' \<lparr>cbAmount = 100, cbCurrency = ''USD'', cbRail = ''card''\<rparr>) demo_state)"
  using create_calls [where key = "''k''" and body = "Some demo_body" and
      client = "orchestrator_client demo_service None" and s = demo_state]
  by (simp add: demo_decode post_request_def)

definition demo_keyed :: "(unit, uuid) service_state" where
  "demo_keyed = demo_state\<lparr>ssPg := (ssPg demo_state)\<lparr>tbl_keys :=
     [demo_key\<lparr>ikRequestHash := canonicalHash 50 ''EUR'' ''card''\<rparr>]\<rparr>\<rparr>"

lemma api_key_conflict_witness:
  "apStatus (fst (createPayoutHandler (orchestrator_client demo_service None) ''k'' (Some demo_body) demo_keyed))
     \<in> {409, 502} \<or>
   Sum256 (canonical 100 ''USD'' ''card'') = Sum256 (canonical 50 ''EUR'' ''card'')"
proof -
  let ?row = "demo_key\<lparr>ikRequestHash := canonicalHash 50 ''EUR'' ''card''\<rparr>"
  let ?b = "\<lparr>cbAmount = 100, cbCurrency = ''USD'', cbRail = ''card''\<rparr>"
  have "tables_ok (ssPg demo_keyed)"
    using demo_tables_ok by (simp add: tables_ok_def demo_keyed_def demo_state_def)
  moreover have "?row \<in> set (tbl_keys (ssPg demo_keyed))" by (simp add: demo_keyed_def)
  moreover have "ikKey ?row = ''k''" "ikRequestHash ?row = canonicalHash 50 ''EUR'' ''card''"
    by (simp_all add: demo_key_def)
  ultimately show ?thesis
    using api_key_conflict [OF _ _ _ _ _ demo_decode, of demo_keyed ?row "''k''" 50 "''EUR''" "''card''"
        demo_service None]
    by (auto simp: split_beta Let_def)
qed

end
