(* ===== verification/Interleaved.thy ===== *)
theory Interleaved
  imports Prelude
begin

text \<open>
  Handlers that run at the same time, for any kind of handler and state: a handler is a point in its
  code, a step takes it to the next. The locales state what has to be shown of single steps, for an
  invariant, for an action that is taken at most once, and for an end of every handler; their lemmas
  give it for every interleaving.
\<close>

section \<open>Runs\<close>

text \<open>
  A handler arrives, the handler with a number makes its next step while the others stay where they are,
  or something happens outside.
\<close>

datatype 'h activity = Arrives | Moves nat 'h | Outside

inductive inter_step ::
    "('h \<Rightarrow> 's \<Rightarrow> 'h \<times> 's) \<Rightarrow> ('h \<Rightarrow> bool) \<Rightarrow> ('s \<Rightarrow> 's \<Rightarrow> bool) \<Rightarrow>
     'h list \<times> 's \<Rightarrow> 'h activity \<Rightarrow> 'h list \<times> 's \<Rightarrow> bool"
  for step :: "'h \<Rightarrow> 's \<Rightarrow> 'h \<times> 's" and starting :: "'h \<Rightarrow> bool" and env :: "'s \<Rightarrow> 's \<Rightarrow> bool" where
  arrive: "starting h \<Longrightarrow> inter_step step starting env (hs, s) Arrives (hs @ [h], s)"
| move: "i < length hs \<Longrightarrow> step (hs ! i) s = (h', s') \<Longrightarrow>
    inter_step step starting env (hs, s) (Moves i (hs ! i)) (hs[i := h'], s')"
| outside: "env s s' \<Longrightarrow> inter_step step starting env (hs, s) Outside (hs, s')"

inductive inter_run ::
    "('h \<Rightarrow> 's \<Rightarrow> 'h \<times> 's) \<Rightarrow> ('h \<Rightarrow> bool) \<Rightarrow> ('s \<Rightarrow> 's \<Rightarrow> bool) \<Rightarrow>
     's \<Rightarrow> 'h activity list \<Rightarrow> 'h list \<times> 's \<Rightarrow> bool"
  for step :: "'h \<Rightarrow> 's \<Rightarrow> 'h \<times> 's" and starting :: "'h \<Rightarrow> bool" and env :: "'s \<Rightarrow> 's \<Rightarrow> bool" and s0 :: 's where
  start: "inter_run step starting env s0 [] ([], s0)"
| more: "inter_run step starting env s0 tr c \<Longrightarrow> inter_step step starting env c a c' \<Longrightarrow>
    inter_run step starting env s0 (tr @ [a]) c'"

text \<open>The same runs, where every handler is remembered as it arrived.\<close>

inductive inter_history ::
    "('h \<Rightarrow> 's \<Rightarrow> 'h \<times> 's) \<Rightarrow> ('h \<Rightarrow> bool) \<Rightarrow> ('s \<Rightarrow> 's \<Rightarrow> bool) \<Rightarrow> 's \<Rightarrow> ('h \<times> 'h) list \<times> 's \<Rightarrow> bool"
  for step :: "'h \<Rightarrow> 's \<Rightarrow> 'h \<times> 's" and starting :: "'h \<Rightarrow> bool" and env :: "'s \<Rightarrow> 's \<Rightarrow> bool" and s0 :: 's where
  begins: "inter_history step starting env s0 ([], s0)"
| arrives: "inter_history step starting env s0 (es, s) \<Longrightarrow> starting h \<Longrightarrow>
    inter_history step starting env s0 (es @ [(h, h)], s)"
| moves: "inter_history step starting env s0 (es, s) \<Longrightarrow> i < length es \<Longrightarrow> step (snd (es ! i)) s = (h', s') \<Longrightarrow>
    inter_history step starting env s0 (es[i := (fst (es ! i), h')], s')"
| elsewhere: "inter_history step starting env s0 (es, s) \<Longrightarrow> env s s' \<Longrightarrow>
    inter_history step starting env s0 (es, s')"

lemma inter_history_run:
  "inter_history step starting env s0 c \<Longrightarrow> \<exists>tr. inter_run step starting env s0 tr (map snd (fst c), snd c)"
proof (induction rule: inter_history.induct)
  case begins
  show ?case using inter_run.start [of step starting env s0] by auto
next
  case (arrives es s h)
  then show ?case using inter_run.more [OF _ inter_step.arrive [of starting h]] by fastforce
next
  case (moves es s i h' s')
  then obtain tr where "inter_run step starting env s0 tr (map snd es, s)" by auto
  from inter_run.more [OF this inter_step.move [of i]] moves(2,3) show ?case
    by (auto simp: map_update)
next
  case (elsewhere es s s')
  then obtain tr where "inter_run step starting env s0 tr (map snd es, s)" by auto
  from inter_run.more [OF this inter_step.outside] elsewhere(2) show ?case by auto
qed

lemma inter_history_mono:
  assumes "inter_history step starting env s0 c" and "\<And>h. starting h \<Longrightarrow> starting' h"
  shows "inter_history step starting' env s0 c"
  using assms(1)
  by (induction rule: inter_history.induct) (auto intro: inter_history.intros assms(2))

text \<open>A handler that is alone makes its steps one after the other; a schedule names the handler that moves.\<close>

fun run_alone :: "('h \<Rightarrow> 's \<Rightarrow> 'h \<times> 's) \<Rightarrow> nat \<Rightarrow> 'h \<times> 's \<Rightarrow> 'h \<times> 's" where
  "run_alone step 0 (h, s) = (h, s)"
| "run_alone step (Suc n) (h, s) = run_alone step n (step h s)"

lemma run_alone_3:
  "run_alone step 3 (h, s) =
     (case step h s of (h1, s1) \<Rightarrow> case step h1 s1 of (h2, s2) \<Rightarrow> step h2 s2)"
  by (simp add: numeral_3_eq_3 split: prod.split) (metis prod.collapse run_alone.simps)

lemma run_alone_add: "run_alone step (m + n) c = run_alone step n (run_alone step m c)"
proof (induction m arbitrary: c)
  case (Suc m)
  then show ?case by (cases c) simp
next
  case 0
  then show ?case by (cases c) simp
qed

lemma run_alone_stays:
  assumes "run_alone step j c = (h, s)" and "\<And>s. step h s = (h, s)" and "j \<le> n"
  shows "run_alone step n c = (h, s)"
proof -
  have "run_alone step k (h, s) = (h, s)" for k by (induction k) (simp_all add: assms(2))
  then show ?thesis using run_alone_add [of step j "n - j" c] assms(1,3) by simp
qed

fun run_handlers ::
    "('h \<Rightarrow> 's \<Rightarrow> 'h \<times> 's) \<Rightarrow> nat list \<Rightarrow> ('h \<times> 'h) list \<times> 's \<Rightarrow> ('h \<times> 'h) list \<times> 's" where
  "run_handlers step [] c = c"
| "run_handlers step (i # is) (es, s) =
     (if i < length es
      then (case step (snd (es ! i)) s of
              (h', s') \<Rightarrow> run_handlers step is (es[i := (fst (es ! i), h')], s'))
      else run_handlers step is (es, s))"

lemma run_handlers_history:
  "inter_history step starting env s0 c \<Longrightarrow> inter_history step starting env s0 (run_handlers step is c)"
proof (induction "is" arbitrary: c)
  case (Cons i "is")
  obtain es s where c: "c = (es, s)" by (cases c)
  show ?case using Cons by (auto simp: c intro: inter_history.moves split: prod.split)
qed simp

lemma arrived_history:
  "list_all starting hs \<Longrightarrow> inter_history step starting env s0 (map (\<lambda>h. (h, h)) hs, s0)"
proof (induction hs rule: rev_induct)
  case (snoc h hs)
  then show ?case using inter_history.arrives [of step starting env s0 _ s0 h] by simp
qed (simp add: inter_history.begins)

lemma scheduled_history:
  "list_all starting hs \<Longrightarrow>
   inter_history step starting env s0 (run_handlers step is (map (\<lambda>h. (h, h)) hs, s0))"
  by (intro run_handlers_history arrived_history)

text \<open>A schedule with the activities it stands for.\<close>

fun run_trace :: "('h \<Rightarrow> 's \<Rightarrow> 'h \<times> 's) \<Rightarrow> nat list \<Rightarrow> 'h list \<times> 's \<Rightarrow> 'h activity list \<times> ('h list \<times> 's)" where
  "run_trace step [] c = ([], c)"
| "run_trace step (i # is) (hs, s) =
     (if i < length hs
      then (case step (hs ! i) s of
              (h', s') \<Rightarrow> apfst (Cons (Moves i (hs ! i))) (run_trace step is (hs[i := h'], s')))
      else run_trace step is (hs, s))"

lemma run_trace_run:
  "inter_run step starting env s0 tr c \<Longrightarrow>
   inter_run step starting env s0 (tr @ fst (run_trace step is c)) (snd (run_trace step is c))"
proof (induction "is" arbitrary: tr c)
  case (Cons i "is")
  obtain hs s where c: "c = (hs, s)" by (cases c)
  show ?case
  proof (cases "i < length hs")
    case True
    obtain h' s' where st: "step (hs ! i) s = (h', s')" by (metis prod.collapse)
    have "inter_run step starting env s0 (tr @ [Moves i (hs ! i)]) (hs[i := h'], s')"
      using Cons.prems inter_step.move [of i hs step s h' s' starting env, OF True st]
      by (auto simp: c intro: inter_run.more)
    from Cons.IH [OF this] show ?thesis using True st by (simp add: c)
  next
    case False
    then show ?thesis using Cons by (simp add: c)
  qed
qed simp

lemma arrivals_run:
  "list_all starting hs \<Longrightarrow> inter_run step starting env s0 (map (\<lambda>_. Arrives) hs) (hs, s0)"
proof (induction hs rule: rev_induct)
  case (snoc h hs)
  then show ?case using inter_run.more [OF _ inter_step.arrive [of starting h]] by fastforce
qed (simp add: inter_run.start)

lemma scheduled_run:
  "list_all starting hs \<Longrightarrow>
   inter_run step starting env s0 (map (\<lambda>_. Arrives) hs @ fst (run_trace step is (hs, s0))) (snd (run_trace step is (hs, s0)))"
  by (intro run_trace_run arrivals_run)

section \<open>Lists of handlers\<close>

text \<open>The moves of handlers of a kind.\<close>

definition moves_of :: "('h \<Rightarrow> bool) \<Rightarrow> 'h activity \<Rightarrow> bool" where
  "moves_of P a \<longleftrightarrow> (case a of Moves i h \<Rightarrow> P h | _ \<Rightarrow> False)"

lemma moves_of_simps [simp]: "\<not> moves_of P Arrives" "moves_of P (Moves i h) \<longleftrightarrow> P h" "\<not> moves_of P Outside"
  by (simp_all add: moves_of_def)

text \<open>The moves of one handler.\<close>

definition moves_by :: "nat \<Rightarrow> 'h activity \<Rightarrow> bool" where
  "moves_by i a \<longleftrightarrow> (case a of Moves j h \<Rightarrow> j = i | _ \<Rightarrow> False)"

lemma moves_by_simps [simp]: "\<not> moves_by i Arrives" "moves_by i (Moves j h) \<longleftrightarrow> j = i" "\<not> moves_by i Outside"
  by (simp_all add: moves_by_def)

lemma count_update:
  "i < length hs \<Longrightarrow> length (filter P (hs[i := h])) + (if P (hs ! i) then 1 else 0) =
     length (filter P hs) + (if P h then 1 else 0)"
proof (induction hs arbitrary: i)
  case (Cons x xs)
  then show ?case by (cases i) auto
qed simp

lemma sum_list_replace:
  fixes f :: "'a \<Rightarrow> nat"
  shows "i < length xs \<Longrightarrow> sum_list (map f (xs[i := y])) + f (xs ! i) = sum_list (map f xs) + f y"
proof (induction xs arbitrary: i)
  case (Cons x xs)
  then show ?case by (cases i) auto
qed simp

section \<open>Invariants\<close>

text \<open>\<open>inv\<close> holds of every state, \<open>proper\<close> of every handler at work.\<close>

locale handlers =
  fixes step :: "'h \<Rightarrow> 's \<Rightarrow> 'h \<times> 's" and starting :: "'h \<Rightarrow> bool" and env :: "'s \<Rightarrow> 's \<Rightarrow> bool"
    and inv :: "'s \<Rightarrow> bool" and proper :: "'h \<Rightarrow> bool"
  assumes starting_proper: "starting h \<Longrightarrow> proper h"
    and step_inv: "inv s \<Longrightarrow> proper h \<Longrightarrow> step h s = (h', s') \<Longrightarrow> inv s' \<and> proper h'"
    and env_inv: "inv s \<Longrightarrow> env s s' \<Longrightarrow> inv s'"
begin

lemma run_inv:
  assumes "inter_run step starting env s0 tr c" and "inv s0"
  shows "inv (snd c) \<and> list_all proper (fst c)"
  using assms(1)
proof (induction rule: inter_run.induct)
  case (more tr c a c')
  from more.hyps(2) show ?case
  proof cases
    case (move i hs s h' s')
    then have "proper (hs ! i)" using more.IH by (simp add: list_all_length)
    then show ?thesis
      using step_inv [OF _ _ move(5)] more.IH move by (auto simp: list_all_length nth_list_update)
  qed (use more.IH starting_proper env_inv in auto)
qed (simp add: assms(2))

lemma history_inv:
  "inter_history step starting env s0 (es, s) \<Longrightarrow> inv s0 \<Longrightarrow> inv s \<and> list_all proper (map snd es)"
  using inter_history_run [of step starting env s0 "(es, s)"] run_inv by fastforce

end

section \<open>At most once\<close>

text \<open>
  An action behind a claim: a handler becomes \<open>pending\<close> only in a step that takes the claim, which
  nobody had before and nobody gives back, and leaves that state with its one step that acts.
\<close>

locale claiming = handlers +
  fixes pending :: "'a \<Rightarrow> bool" and acting :: "'a \<Rightarrow> bool" and claimed :: "'b \<Rightarrow> bool"
  assumes starting_idle: "starting h \<Longrightarrow> \<not> pending h"
    and acting_pending: "acting h \<Longrightarrow> pending h"
    and acting_ends: "acting h \<Longrightarrow> step h s = (h', s') \<Longrightarrow> \<not> pending h'"
    and claim_stays: "inv s \<Longrightarrow> proper h \<Longrightarrow> step h s = (h', s') \<Longrightarrow> claimed s \<Longrightarrow> claimed s'"
    and claim_outside: "inv s \<Longrightarrow> env s s' \<Longrightarrow> claimed s \<Longrightarrow> claimed s'"
    and pending_claims: "inv s \<Longrightarrow> proper h \<Longrightarrow> step h s = (h', s') \<Longrightarrow> pending h' \<Longrightarrow> \<not> pending h \<Longrightarrow>
      \<not> claimed s \<and> claimed s'"
begin

lemma account:
  assumes "inter_run step starting env s0 tr c" and "inv s0"
  shows "length (filter (moves_of acting) tr) + length (filter pending (fst c)) \<le> (if claimed (snd c) then 1 else 0)"
  using assms(1)
proof (induction rule: inter_run.induct)
  case (more tr c a c')
  note inv = run_inv [OF more.hyps(1) assms(2)]
  from more.hyps(2) show ?case
  proof cases
    case (arrive h hs s)
    then show ?thesis using more.IH starting_idle by auto
  next
    case (outside s s' hs)
    then show ?thesis using more.IH inv claim_outside [of s s'] by (auto split: if_splits)
  next
    case (move i hs s h' s')
    have proper: "proper (hs ! i)" using inv move by (simp add: list_all_length)
    have s: "inv s" using inv move by simp
    have old: "length (filter (moves_of acting) tr) + length (filter pending hs) \<le> (if claimed s then 1 else 0)"
      using more.IH move by simp
    note stays = claim_stays [OF s proper move(5)] and claims = pending_claims [OF s proper move(5)]
    have new: "length (filter (moves_of acting) (tr @ [a])) = length (filter (moves_of acting) tr) + (if acting (hs ! i) then 1 else 0)"
      using move by simp
    have "A + (if act then 1 else 0) + Q' \<le> (if k' then 1 else 0 :: nat)"
      if "Q' + (if p then 1 else 0) = Q + (if p' then 1 else 0)" "A + Q \<le> (if k then 1 else 0)"
        "act \<Longrightarrow> p \<and> \<not> p'" "k \<Longrightarrow> k'" "p' \<Longrightarrow> \<not> p \<Longrightarrow> \<not> k \<and> k'" for A Q Q' act p p' k k'
      using that by (cases act; cases p; cases p'; cases k; cases k') auto
    from this [OF count_update [OF move(4), of pending h'] old, of "acting (hs ! i)" "claimed s'"]
    have "length (filter (moves_of acting) tr) + (if acting (hs ! i) then 1 else 0) + length (filter pending (hs[i := h']))
        \<le> (if claimed s' then 1 else 0)"
      using stays claims acting_pending acting_ends [OF _ move(5)] by blast
    then show ?thesis by (simp only: new move(3) fst_conv snd_conv)
  qed
qed simp

lemma acts_at_most_once:
  "inter_run step starting env s0 tr c \<Longrightarrow> inv s0 \<Longrightarrow> length (filter (moves_of acting) tr) \<le> 1"
  using account [of s0 tr c] by (auto split: if_splits)

end

section \<open>Every handler comes to its end\<close>

text \<open>\<open>left\<close> counts the steps a handler still makes at most.\<close>

locale ending =
  fixes step :: "'h \<Rightarrow> 's \<Rightarrow> 'h \<times> 's" and starting :: "'h \<Rightarrow> bool" and left :: "'h \<Rightarrow> nat" and bound :: nat
  assumes starting_left: "starting h \<Longrightarrow> left h \<le> bound"
    and step_left: "step h s = (h', s') \<Longrightarrow> left h' \<le> left h - 1"
begin

lemma left_stays: "left h = 0 \<Longrightarrow> step h s = (h', s') \<Longrightarrow> left h' = 0"
  using step_left [of h s h' s'] by simp

text \<open>Each handler is bounded by its own moves, however many others there are.\<close>

lemma own_steps:
  assumes "inter_run step starting env s0 tr c"
  shows "(\<forall>a \<in> set tr. case a of Moves i h \<Rightarrow> i < length (fst c) | _ \<Rightarrow> True) \<and>
    (\<forall>i < length (fst c). length (filter (\<lambda>a. moves_by i a \<and> moves_of (\<lambda>h. 0 < left h) a) tr) + left (fst c ! i) \<le> bound \<and>
       left (fst c ! i) \<le> bound - length (filter (moves_by i) tr))"
  using assms
proof (induction rule: inter_run.induct)
  case (more tr c a c')
  from more.hyps(2) show ?case
  proof cases
    case (arrive h hs s)
    have "filter (moves_by (length hs)) tr = []"
      using more.IH arrive by (fastforce simp: filter_empty_conv moves_by_def split: activity.splits)
    then have none: "length (filter (\<lambda>a. moves_by (length hs) a \<and> moves_of (\<lambda>h. 0 < left h) a) tr) = 0" "length (filter (moves_by (length hs)) tr) = 0"
      by (auto simp: filter_empty_conv)
    show ?thesis
      using more.IH arrive none starting_left [of h]
      by (auto simp: nth_append less_Suc_eq split: activity.splits)
  next
    case (move i hs s h' s')
    have "left h' \<le> left (hs ! i) - 1" by (rule step_left [OF move(5)])
    then show ?thesis
      using more.IH move by (auto simp: nth_list_update split: activity.splits)
  next
    case (outside s s' hs)
    then show ?thesis using more.IH by (auto split: activity.splits)
  qed
qed simp

lemma ends:
  assumes "inter_run step starting env s0 tr (hs, s)" and "i < length hs"
  shows "length (filter (\<lambda>a. moves_by i a \<and> moves_of (\<lambda>h. 0 < left h) a) tr) + (if 0 < left (hs ! i) then 1 else 0) \<le> bound"
    and "bound \<le> length (filter (moves_by i) tr) \<Longrightarrow> left (hs ! i) = 0"
  using own_steps [OF assms(1)] assms(2) by force+

end

section \<open>No more often than granted\<close>

text \<open>
  A step may grant its handler a number of actions, \<open>left\<close> counts those it has not used. \<open>ok\<close> says when
  the law holds.
\<close>

locale spending =
  fixes ok :: bool and step :: "'h \<Rightarrow> 's \<Rightarrow> 'h \<times> 's" and starting :: "'h \<Rightarrow> bool"
    and grants :: "'h \<Rightarrow> bool" and spends :: "'h \<Rightarrow> bool" and left :: "'h \<Rightarrow> nat" and bound :: nat
  assumes arrives_without: "starting h \<Longrightarrow> left h = 0"
    and spend_granted: "ok \<Longrightarrow> step h s = (h', s') \<Longrightarrow>
      left h' + (if spends h then 1 else 0) \<le> left h + (if grants h then bound else 0)"
begin

lemma spent:
  assumes ok and "inter_run step starting env s0 tr c"
  shows "length (filter (moves_of spends) tr) + sum_list (map left (fst c)) \<le> bound * length (filter (moves_of grants) tr)"
  using assms(2)
proof (induction rule: inter_run.induct)
  case (more tr c a c')
  from more.hyps(2) show ?case
  proof cases
    case (arrive h hs s)
    then show ?thesis using more.IH arrives_without [of h] by simp
  next
    case (move i hs s h' s')
    then show ?thesis
      using more.IH spend_granted [OF assms(1) move(5)] sum_list_replace [OF move(4), of left h'] by auto
  qed (use more.IH in simp)
qed simp

end

end
