(* ===== verification/RateLimit.thy ===== *)
theory RateLimit
  imports Redis GoFloat Json Interleaved
begin

text \<open>
  \<open>services/api/internal/http/middleware/ratelimit.go\<close>: the token bucket in Redis and the middleware
  around it. The API process's clock is read once per request and is an argument; the Redis server is
  the one of theory Redis. The limiter's own counters are kept here; those of Prometheus are in theory
  LimiterCounters.
\<close>

section \<open>Floats as text\<close>

text \<open>\<open>fmt.Sprintf("%.2f", x)\<close>: the exact value rounded to hundredths, half to even.\<close>

definition fixed2 :: "rat \<Rightarrow> string" where
  "fixed2 x =
     (let c = nat (round_even (100 * \<bar>x\<bar>))
      in (if x < 0 then ''-'' else []) @ nat_text (c div 100) @ ''.'' @
         [hex_digit (c div 10 mod 10), hex_digit (c mod 10)])"

text \<open>
  \<open>strconv.ParseFloat\<close> on decimal texts without an exponent, the only ones the limiter writes; on
  other texts this is a syntax error, on which the caller goes on with zero.
\<close>

definition ParseFloat64 :: "string \<Rightarrow> rat option" where
  "ParseFloat64 lit =
     (let (neg, s) = split_sign lit;
          ip = takeWhile is_digit s;
          rest = dropWhile is_digit s;
          fp = (case rest of [] \<Rightarrow> [] | c # cs \<Rightarrow> cs);
          x = rnd64 (of_int (digits_value (ip @ fp)) / 10 ^ length fp)
      in if (rest \<noteq> [] \<and> hd rest \<noteq> CHR ''.'') \<or> \<not> list_all is_digit fp \<or> ip @ fp = [] then None
         else Some (if neg then - x else x))"

section \<open>State\<close>

record rate_limit_config =
  rlKeyPrefix :: string
  rlRequestsPerSecond :: rat
  rlBurstSize :: int

definition DefaultRateLimitConfig :: rate_limit_config where
  "DefaultRateLimitConfig =
     \<lparr>rlKeyPrefix = ''ratelimit:global'', rlRequestsPerSecond = 10, rlBurstSize = 20\<rparr>"

record limiter_metrics =
  lmTotal :: int
  lmAllowed :: int
  lmRejected :: int
  lmBucketRefills :: int

text \<open>The Redis server and the counters of one limiter.\<close>

record 'w limiter_state =
  lsRedis :: "'w redis"
  lsMetrics :: limiter_metrics

definition count_allowed :: "limiter_metrics \<Rightarrow> limiter_metrics" where
  "count_allowed m = m\<lparr>lmAllowed := wrap64 (lmAllowed m + 1), lmTotal := wrap64 (lmTotal m + 1)\<rparr>"

definition count_rejected :: "limiter_metrics \<Rightarrow> limiter_metrics" where
  "count_rejected m = m\<lparr>lmRejected := wrap64 (lmRejected m + 1), lmTotal := wrap64 (lmTotal m + 1)\<rparr>"

definition GetMetrics :: "'w limiter_state \<Rightarrow> limiter_metrics" where
  "GetMetrics s = lsMetrics s"

section \<open>Allow\<close>

definition go_min :: "rat \<Rightarrow> rat \<Rightarrow> rat" where
  "go_min a b = (if a < b then a else b)"

definition bucket_key :: "rate_limit_config \<Rightarrow> string \<Rightarrow> string" where
  "bucket_key cfg key = rlKeyPrefix cfg @ '':'' @ key"

text \<open>The bucket as HMGET answers it: a missing field counts as a full bucket, refilled now.\<close>

definition read_bucket :: "rate_limit_config \<Rightarrow> int \<Rightarrow> string option list \<Rightarrow> rat \<times> int" where
  "read_bucket cfg now result =
     (case result of
        [tokens, last_refill] \<Rightarrow>
          ((case tokens of
              Some tokensStr \<Rightarrow> (case ParseFloat64 tokensStr of Some x \<Rightarrow> x | None \<Rightarrow> 0)
            | None \<Rightarrow> float64_of_int (rlBurstSize cfg)),
           (case last_refill of Some lastRefillStr \<Rightarrow> fst (ParseInt lastRefillStr) | None \<Rightarrow> now))
      | _ \<Rightarrow> (float64_of_int (rlBurstSize cfg), now))"

definition refill :: "rate_limit_config \<Rightarrow> int \<Rightarrow> rat \<times> int \<Rightarrow> rat" where
  "refill cfg now bucket =
     (case bucket of (tokens, lastRefill) \<Rightarrow>
        let elapsed = fdiv (float64_of_int (wrap64 (now - lastRefill))) 1000;
            tokensToAdd = fmul elapsed (rlRequestsPerSecond cfg)
        in go_min (fadd tokens tokensToAdd) (float64_of_int (rlBurstSize cfg)))"

definition bucket_fields :: "rat \<Rightarrow> int \<Rightarrow> (string \<times> string) list" where
  "bucket_fields tokens now = [(''tokens'', fixed2 tokens), (''last_refill'', int_text now)]"

definition Allow ::
    "'w redis_env \<Rightarrow> rate_limit_config \<Rightarrow> string \<Rightarrow> int \<Rightarrow> 'w limiter_state \<Rightarrow>
     bool result \<times> 'w limiter_state" where
  "Allow E cfg key now s =
     (let fullKey = bucket_key cfg key in
      case redis_do E (redis_hmget fullKey [''tokens'', ''last_refill'']) (lsRedis s) of
        (Inl err, r1) \<Rightarrow> (Inl (ErrWrap ''redis hmget'' err), s\<lparr>lsRedis := r1\<rparr>)
      | (Inr result, r1) \<Rightarrow>
          let tokens = refill cfg now (read_bucket cfg now result) in
          if 1 \<le> tokens
          then (case redis_do E (redis_hmset fullKey (bucket_fields (fsub tokens 1) now)) r1 of
                  (Inl err, r2) \<Rightarrow> (Inl (ErrWrap ''redis hmset'' err), s\<lparr>lsRedis := r2\<rparr>)
                | (Inr _, r2) \<Rightarrow>
                    (Inr True, \<lparr>lsRedis = snd (redis_do E (redis_expire fullKey 300) r2),
                                lsMetrics = count_allowed (lsMetrics s)\<rparr>))
          else (Inr False, \<lparr>lsRedis = r1, lsMetrics = count_rejected (lsMetrics s)\<rparr>))"

section \<open>The middleware\<close>

text \<open>
  The answer 429 with \<open>Retry-After: 1\<close>, or what the next handler answers. The client is nil when
  there is no Redis connection; a failed check lets the request through.
\<close>

datatype 'r limited = TooManyRequests nat | Served 'r

definition RateLimitWithConfig ::
    "'w redis_env option \<Rightarrow> bool \<Rightarrow> rate_limit_config \<Rightarrow> int \<Rightarrow> ('o \<Rightarrow> 'r \<times> 'o) \<Rightarrow>
     'w limiter_state \<times> 'o \<Rightarrow> 'r limited \<times> ('w limiter_state \<times> 'o)" where
  "RateLimitWithConfig client enabled cfg now nxt st =
     (case st of (l, o1) \<Rightarrow>
        let serve = (\<lambda>l'. case nxt o1 of (r, o2) \<Rightarrow> (Served r, (l', o2))) in
        (case client of
           None \<Rightarrow> serve l
         | Some E \<Rightarrow>
             if \<not> enabled then serve l
             else (case Allow E cfg ''global'' now l of
                     (Inl err, l') \<Rightarrow> serve l'
                   | (Inr allowed, l') \<Rightarrow>
                       if \<not> allowed then (TooManyRequests 1, (l', o1)) else serve l')))"

definition RateLimit ::
    "'w redis_env option \<Rightarrow> bool \<Rightarrow> int \<Rightarrow> ('o \<Rightarrow> 'r \<times> 'o) \<Rightarrow>
     'w limiter_state \<times> 'o \<Rightarrow> 'r limited \<times> ('w limiter_state \<times> 'o)" where
  "RateLimit client enabled = RateLimitWithConfig client enabled DefaultRateLimitConfig"

section \<open>Requests in flight\<close>

text \<open>
  Allow as the commands it sends, one per step, so that requests can overlap: where a request stands,
  and what its next round trip does.
\<close>

datatype limiter_pc =
    AtRead int | AtWrite rat int | AtExpire | Answered "bool result"

definition limiter_step ::
    "'w redis_env \<Rightarrow> rate_limit_config \<Rightarrow> string \<Rightarrow> limiter_pc \<Rightarrow> 'w redis \<Rightarrow> limiter_pc \<times> 'w redis" where
  "limiter_step E cfg key pc r =
     (let fullKey = bucket_key cfg key in
      case pc of
        AtRead now \<Rightarrow>
          (case redis_do E (redis_hmget fullKey [''tokens'', ''last_refill'']) r of
             (Inl err, r1) \<Rightarrow> (Answered (Inl (ErrWrap ''redis hmget'' err)), r1)
           | (Inr result, r1) \<Rightarrow>
               let tokens = refill cfg now (read_bucket cfg now result) in
               (if 1 \<le> tokens then AtWrite (fsub tokens 1) now else Answered (Inr False), r1))
      | AtWrite tokens now \<Rightarrow>
          (case redis_do E (redis_hmset fullKey (bucket_fields tokens now)) r of
             (Inl err, r1) \<Rightarrow> (Answered (Inl (ErrWrap ''redis hmset'' err)), r1)
           | (Inr _, r1) \<Rightarrow> (AtExpire, r1))
      | AtExpire \<Rightarrow> (Answered (Inr True), snd (redis_do E (redis_expire fullKey 300) r))
      | Answered res \<Rightarrow> (pc, r))"

text \<open>A schedule names, step by step, the request that moves.\<close>

definition run_schedule ::
    "'w redis_env \<Rightarrow> rate_limit_config \<Rightarrow> string \<Rightarrow> nat list \<Rightarrow> limiter_pc list \<Rightarrow> 'w redis \<Rightarrow>
     limiter_pc list \<times> 'w redis" where
  "run_schedule E cfg key is pcs r = snd (run_trace (limiter_step E cfg key) is (pcs, r))"

lemma run_schedule_simps [simp]:
  "run_schedule E cfg key [] pcs r = (pcs, r)"
  "run_schedule E cfg key (i # is) pcs r =
     (if i < length pcs
      then (case limiter_step E cfg key (pcs ! i) r of
              (pc, r') \<Rightarrow> run_schedule E cfg key is (pcs[i := pc]) r')
      else run_schedule E cfg key is pcs r)"
  by (simp_all add: run_schedule_def split: prod.split)

end
