(* ===== verification/RateLimitFacts.thy ===== *)
theory RateLimitFacts
  imports RateLimit
begin

text \<open>
  What the rate limiter promises. A bucket in Redis stands for a bucket of floats, and that one for an
  exact token bucket that knows no floats; checks that come one after the other get its answers. From
  that the burst and the rate over time. Checks that overlap are another matter: a schedule in which all
  of them read first lets all of them pass.
\<close>


section \<open>The bucket on the wire\<close>

lemma hex_digit_value: "d < 10 \<Longrightarrow> of_char (hex_digit d) = 48 + int d \<and> is_digit (hex_digit d)"
  using digits_value_text [of d]
  by (simp add: nat_text.simps [of d] digits_value_def)

lemma ParseFloat64_hundredths:
  "ParseFloat64 (nat_text (c div 100) @ ''.'' @ [hex_digit (c div 10 mod 10), hex_digit (c mod 10)]) =
     Some (rnd64 (of_nat c / 100))"
proof -
  let ?ip = "nat_text (c div 100)" and ?fp = "[hex_digit (c div 10 mod 10), hex_digit (c mod 10)]"
  have ip: "list_all is_digit ?ip" "?ip \<noteq> []" "digits_value ?ip = int (c div 100)"
    using digits_value_text [of "c div 100"] by auto
  have dot: "\<not> is_digit CHR ''.''" by (simp add: is_digit_def)
  have sign: "split_sign (?ip @ ''.'' @ ?fp) = (False, ?ip @ ''.'' @ ?fp)"
    using ip(1,2) by (cases ?ip) (auto simp: split_sign_def is_digit_def)
  have tw: "takeWhile is_digit (?ip @ ''.'' @ ?fp) = ?ip" "dropWhile is_digit (?ip @ ''.'' @ ?fp) = ''.'' @ ?fp"
    using ip(1) dot by (simp_all add: list_all_iff takeWhile_append dropWhile_append)
  have fp: "list_all is_digit ?fp" by (simp add: hex_digit_value)
  have split: "?ip @ ?fp = (?ip @ [hex_digit (c div 10 mod 10)]) @ [hex_digit (c mod 10)]" by simp
  have digit: "of_char (hex_digit (n mod 10)) = 48 + int (n mod 10)" for n
    by (rule hex_digit_value [THEN conjunct1]) simp
  have "digits_value (?ip @ ?fp) = 10 * (10 * int (c div 100) + int (c div 10 mod 10)) + int (c mod 10)"
    unfolding split digits_value_append ip(3) digit by simp
  also have "\<dots> = int c"
  proof -
    have "c div 100 = c div 10 div 10" by (simp flip: div_mult2_eq)
    then have "10 * (10 * (c div 100) + c div 10 mod 10) + c mod 10 = c"
      by (simp only: mult_div_mod_eq)
    then have "int (10 * (10 * (c div 100) + c div 10 mod 10) + c mod 10) = int c" by (simp only:)
    then show ?thesis by (simp only: of_nat_add of_nat_mult of_nat_numeral)
  qed
  finally have "(of_int (digits_value (?ip @ ?fp)) :: rat) = of_nat c" by simp
  then show ?thesis
    unfolding ParseFloat64_def sign prod.case Let_def tw using fp ip by simp
qed

text \<open>What the limiter writes it reads back, rounded to hundredths.\<close>

lemma ParseFloat64_fixed2:
  "0 \<le> x \<Longrightarrow> ParseFloat64 (fixed2 x) = Some (rnd64 (of_int (round_even (100 * x)) / 100))"
proof -
  assume "0 \<le> x"
  then have "0 \<le> round_even (100 * x)" using round_even_mono [of 0 "100 * x"] round_even_int [of 0] by simp
  moreover have "fixed2 x = (let c = nat (round_even (100 * x)) in
      nat_text (c div 100) @ ''.'' @ [hex_digit (c div 10 mod 10), hex_digit (c mod 10)])"
    using \<open>0 \<le> x\<close> by (simp add: fixed2_def)
  ultimately show ?thesis by (simp add: Let_def ParseFloat64_hundredths del: append_Cons append.simps)
qed

lemma fixed2_nat:
  "k \<le> 2 ^ 53 \<Longrightarrow> ParseFloat64 (fixed2 (of_nat k)) = Some (of_nat k)"
  using ParseFloat64_fixed2 [of "of_nat k"] round_even_int [of "100 * int k"] rnd64_exact [of "int k"]
  by simp


section \<open>The bucket of floats\<close>

text \<open>
  A token bucket holds an amount of tokens since a time, or is untouched (\<open>None\<close>). A check, with the
  float arithmetic of the code: refill for the time that went by, then take one token if there is one.
\<close>

type_synonym bucket = "(rat \<times> int) option"

definition bucket_value :: "rate_limit_config \<Rightarrow> int \<Rightarrow> bucket \<Rightarrow> rat \<times> int" where
  "bucket_value cfg now b =
     (case b of
        None \<Rightarrow> (float64_of_int (rlBurstSize cfg), now)
      | Some (x, n) \<Rightarrow> (rnd64 (of_int (round_even (100 * x)) / 100), n))"

definition refilled :: "rate_limit_config \<Rightarrow> int \<Rightarrow> bucket \<Rightarrow> rat" where
  "refilled cfg now b = refill cfg now (bucket_value cfg now b)"

definition take_token :: "rate_limit_config \<Rightarrow> int \<Rightarrow> bucket \<Rightarrow> bool \<times> bucket" where
  "take_token cfg now b =
     (let t = refilled cfg now b
      in if 1 \<le> t then (True, Some (fsub t 1, now)) else (False, b))"

text \<open>
  How Redis holds a bucket, at a server that keeps its clock in the five minutes from \<open>t0\<close>: an
  untouched bucket has no key or one that expired before, any other one does not expire.
\<close>

definition stored_bucket :: "int \<Rightarrow> (redis_value \<times> int option) option \<Rightarrow> bucket \<Rightarrow> bool" where
  "stored_bucket t0 e b =
     (case b of
        None \<Rightarrow> (case e of None \<Rightarrow> True | Some (_, l) \<Rightarrow> (\<exists>m. l = Some m \<and> m \<le> t0))
      | Some (x, n) \<Rightarrow> 0 \<le> x \<and> 0 \<le> n \<and> n < 2 ^ 63 \<and>
          (\<exists>h l. e = Some (RHash h, l) \<and> (\<forall>m. l = Some m \<longrightarrow> t0 + 300000 \<le> m) \<and>
             h ''tokens'' = Some (fixed2 x) \<and> h ''last_refill'' = Some (int_text n)))"

definition clock_within :: "'w redis_env \<Rightarrow> int \<Rightarrow> bool" where
  "clock_within E t0 \<longleftrightarrow> (\<forall>w. t0 \<le> fst (rd_now E w) \<and> fst (rd_now E w) < t0 + 300000)"

definition redis_reliable :: "'w redis_env \<Rightarrow> bool" where
  "redis_reliable E \<longleftrightarrow> (\<forall>w. fst (rd_net E w) = Delivered)"

lemma redis_do_within:
  assumes "clock_within E t0"
  obtains (answered) t w where "t0 \<le> t" "t < t0 + 300000" "redis_do E cmd s = cmd t (s\<lparr>rd_world := w\<rparr>)"
  | (lost) m w where "\<not> redis_reliable E" "redis_do E cmd s = (Inl (ErrText m), s\<lparr>rd_world := w\<rparr>)"
  | (silent) m t w where "\<not> redis_reliable E" "t0 \<le> t" "t < t0 + 300000"
      "redis_do E cmd s = (Inl (ErrText m), snd (cmd t (s\<lparr>rd_world := w\<rparr>)))"
proof -
  obtain net w where n: "rd_net E (rd_world s) = (net, w)" by (cases "rd_net E (rd_world s)")
  obtain t w' where t: "rd_now E w = (t, w')" by (cases "rd_now E w")
  have T: "t0 \<le> t" "t < t0 + 300000" using assms t by (auto simp: clock_within_def dest: spec [of _ w])
  have R: "net \<noteq> Delivered \<Longrightarrow> \<not> redis_reliable E"
    using n by (auto simp: redis_reliable_def intro!: exI [of _ "rd_world s"])
  show thesis
  proof (cases net)
    case Delivered
    then show thesis using n t T by (intro answered [of t w']) (auto simp: redis_do_def Let_def)
  next
    case (LostBefore c m)
    then show thesis using n t R by (intro lost [of m w']) (auto simp: redis_do_def Let_def)
  next
    case (LostAfter c m)
    then show thesis using n t T R by (intro silent [of t m w']) (auto simp: redis_do_def Let_def)
  qed
qed

text \<open>The three commands on a stored bucket.\<close>

abbreviation bucket_names :: "string list" where
  "bucket_names \<equiv> [''tokens'', ''last_refill'']"

lemma hmget_bucket:
  assumes "stored_bucket t0 (rd_keys r k) b" and "t0 \<le> t" and "t < t0 + 300000"
  shows "\<exists>result. redis_hmget k bucket_names t r = (Inr result, r) \<and> read_bucket cfg now result = bucket_value cfg now b"
  using assms
  by (auto simp: stored_bucket_def redis_hmget_def live_def read_bucket_def bucket_value_def
      ParseFloat64_fixed2 ParseInt_text split: option.splits)

lemma hmset_bucket:
  assumes "stored_bucket t0 (rd_keys r k) b" and "t0 \<le> t" and "t < t0 + 300000"
    and "0 \<le> x" "0 \<le> n" "n < 2 ^ 63"
  shows "fst (redis_hmset k (bucket_fields x n) t r) = Inr () \<and>
    stored_bucket t0 (rd_keys (snd (redis_hmset k (bucket_fields x n) t r)) k) (Some (x, n))"
  using assms
  by (auto simp: stored_bucket_def redis_hmset_def live_def bucket_fields_def split: option.splits)

lemma expire_bucket:
  assumes "stored_bucket t0 (rd_keys r k) (Some (x, n))" and "t0 \<le> t"
  shows "stored_bucket t0 (rd_keys (snd (redis_expire k 300 t r)) k) (Some (x, n))"
  using assms by (auto simp: stored_bucket_def redis_expire_def live_def split: option.splits)


section \<open>One request\<close>

lemma stored_bucket_world [simp]: "rd_keys (r\<lparr>rd_world := w\<rparr>) = rd_keys r"
  by simp

lemma limiter_step_read:
  assumes "clock_within E t0" and "stored_bucket t0 (rd_keys r (bucket_key cfg key)) b"
    and "limiter_step E cfg key (AtRead now) r = (pc, r')"
  shows "rd_keys r' = rd_keys r \<and>
    (pc = (if 1 \<le> refilled cfg now b then AtWrite (fsub (refilled cfg now b) 1) now else Answered (Inr False)) \<or>
     \<not> redis_reliable E \<and> (\<exists>err. pc = Answered (Inl err)))"
proof (cases rule: redis_do_within [OF assms(1), of "redis_hmget (bucket_key cfg key) bucket_names" r, case_names answered lost silent])
  case (answered t w)
  obtain result where "redis_hmget (bucket_key cfg key) bucket_names t (r\<lparr>rd_world := w\<rparr>) =
      (Inr result, r\<lparr>rd_world := w\<rparr>)" and "read_bucket cfg now result = bucket_value cfg now b"
    using hmget_bucket [of t0 "r\<lparr>rd_world := w\<rparr>" "bucket_key cfg key" b t] assms(2) answered by auto
  then show ?thesis
    using assms(3) answered(3) by (auto simp: limiter_step_def Let_def refilled_def split: if_splits)
next
  case (lost m w)
  then show ?thesis using assms(3) by (auto simp: limiter_step_def Let_def)
next
  case (silent m t w)
  have "snd (redis_hmget (bucket_key cfg key) bucket_names t (r\<lparr>rd_world := w\<rparr>)) = r\<lparr>rd_world := w\<rparr>"
    by (auto simp: redis_hmget_def split: option.split redis_value.split)
  then show ?thesis using silent assms(3) by (auto simp: limiter_step_def Let_def)
qed

lemma limiter_step_write:
  assumes "clock_within E t0" and "stored_bucket t0 (rd_keys r (bucket_key cfg key)) b"
    and "0 \<le> x" "0 \<le> n" "n < 2 ^ 63"
    and "limiter_step E cfg key (AtWrite x n) r = (pc, r')"
  shows "pc = AtExpire \<and> stored_bucket t0 (rd_keys r' (bucket_key cfg key)) (Some (x, n)) \<or>
    \<not> redis_reliable E \<and> (\<exists>err. pc = Answered (Inl err)) \<and>
    (stored_bucket t0 (rd_keys r' (bucket_key cfg key)) b \<or>
     stored_bucket t0 (rd_keys r' (bucket_key cfg key)) (Some (x, n)))"
proof (cases rule: redis_do_within [OF assms(1), of "redis_hmset (bucket_key cfg key) (bucket_fields x n)" r, case_names answered lost silent])
  case (answered t w)
  then show ?thesis
    using hmset_bucket [of t0 "r\<lparr>rd_world := w\<rparr>" "bucket_key cfg key" b t x n] assms
    by (cases "redis_hmset (bucket_key cfg key) (bucket_fields x n) t (r\<lparr>rd_world := w\<rparr>)")
      (auto simp: limiter_step_def Let_def)
next
  case (lost m w)
  then show ?thesis using assms by (auto simp: limiter_step_def Let_def)
next
  case (silent m t w)
  then show ?thesis
    using hmset_bucket [of t0 "r\<lparr>rd_world := w\<rparr>" "bucket_key cfg key" b t x n] assms
    by (auto simp: limiter_step_def Let_def)
qed

lemma limiter_step_expire:
  assumes "clock_within E t0" and "stored_bucket t0 (rd_keys r (bucket_key cfg key)) (Some (x, n))"
    and "limiter_step E cfg key AtExpire r = (pc, r')"
  shows "pc = Answered (Inr True) \<and> stored_bucket t0 (rd_keys r' (bucket_key cfg key)) (Some (x, n))"
proof (cases rule: redis_do_within [OF assms(1), of "redis_expire (bucket_key cfg key) 300" r, case_names answered lost silent])
  case (answered t w)
  then show ?thesis
    using expire_bucket [of t0 "r\<lparr>rd_world := w\<rparr>" "bucket_key cfg key" x n t] assms
    by (auto simp: limiter_step_def Let_def)
next
  case (lost m w)
  then show ?thesis using assms by (auto simp: limiter_step_def Let_def)
next
  case (silent m t w)
  then show ?thesis
    using expire_bucket [of t0 "r\<lparr>rd_world := w\<rparr>" "bucket_key cfg key" x n t] assms
    by (auto simp: limiter_step_def Let_def)
qed

text \<open>A request that is alone makes its three steps one after the other.\<close>

definition alone ::
    "'w redis_env \<Rightarrow> rate_limit_config \<Rightarrow> string \<Rightarrow> int \<Rightarrow> 'w redis \<Rightarrow> limiter_pc \<times> 'w redis" where
  "alone E cfg key now r = run_alone (limiter_step E cfg key) 3 (AtRead now, r)"

lemma Allow_alone:
  "alone E cfg key now (lsRedis s) =
     (Answered (fst (Allow E cfg key now s)), lsRedis (snd (Allow E cfg key now s)))"
  by (auto simp: alone_def run_alone_3 limiter_step_def Allow_def Let_def split: prod.split sum.split)

lemma refilled_take: "1 \<le> t \<Longrightarrow> 0 \<le> fsub t 1"
  using rnd64_mono [of 0 "t - 1"] by (simp add: fsub_def)

lemma alone_bucket:
  assumes "clock_within E t0" and "stored_bucket t0 (rd_keys r (bucket_key cfg key)) b"
    and "0 \<le> now" "now < 2 ^ 63"
    and "alone E cfg key now r = (Answered res, r')" and "take_token cfg now b = (ok, b')"
  shows "(res = Inr ok \<and> stored_bucket t0 (rd_keys r' (bucket_key cfg key)) b') \<or>
    \<not> redis_reliable E \<and> (\<exists>err. res = Inl err) \<and>
    (stored_bucket t0 (rd_keys r' (bucket_key cfg key)) b \<or> stored_bucket t0 (rd_keys r' (bucket_key cfg key)) b')"
proof -
  obtain pc1 r1 where s1: "limiter_step E cfg key (AtRead now) r = (pc1, r1)" by (metis prod.collapse)
  obtain pc2 r2 where s2: "limiter_step E cfg key pc1 r1 = (pc2, r2)" by (metis prod.collapse)
  have s3: "limiter_step E cfg key pc2 r2 = (Answered res, r')"
    using assms(5) s1 s2 by (simp add: alone_def run_alone_3)
  have done_step: "limiter_step E cfg key (Answered a) q = (Answered a, q)" for a and q :: "'a redis"
    by (simp add: limiter_step_def)
  note first = limiter_step_read [OF assms(1,2) s1]
  have b1: "stored_bucket t0 (rd_keys r1 (bucket_key cfg key)) b" using first assms(2) by simp
  show ?thesis
  proof (cases "1 \<le> refilled cfg now b \<and> pc1 = AtWrite (fsub (refilled cfg now b) 1) now")
    case True
    then have ok: "ok" "b' = Some (fsub (refilled cfg now b) 1, now)"
      using assms(6) by (auto simp: take_token_def Let_def)
    note second = limiter_step_write [OF assms(1) b1 refilled_take assms(3,4)
        s2 [unfolded True [THEN conjunct2]]]
    show ?thesis
    proof (cases "pc2 = AtExpire")
      case exp: True
      then have "stored_bucket t0 (rd_keys r2 (bucket_key cfg key)) b'" using second True ok by auto
      then show ?thesis
        using limiter_step_expire [OF assms(1), of r2 cfg key "fsub (refilled cfg now b) 1" now] s3 exp ok
        by simp
    next
      case False
      then show ?thesis using second True ok s3 done_step by auto
    qed
  next
    case False
    then show ?thesis
      using first assms(6) s2 s3 done_step b1 by (auto simp: take_token_def Let_def split: if_splits)
  qed
qed


section \<open>Sequences of requests\<close>

fun allow_run ::
    "'w redis_env \<Rightarrow> rate_limit_config \<Rightarrow> string \<Rightarrow> int list \<Rightarrow> 'w limiter_state \<Rightarrow>
     bool result list \<times> 'w limiter_state" where
  "allow_run E cfg key [] s = ([], s)"
| "allow_run E cfg key (now # nows) s =
     (case Allow E cfg key now s of (res, s1) \<Rightarrow>
      case allow_run E cfg key nows s1 of (rs, s') \<Rightarrow> (res # rs, s'))"

fun bucket_run :: "rate_limit_config \<Rightarrow> int list \<Rightarrow> bucket \<Rightarrow> bool list \<times> bucket" where
  "bucket_run cfg [] b = ([], b)"
| "bucket_run cfg (now # nows) b =
     (case take_token cfg now b of (ok, b1) \<Rightarrow>
      case bucket_run cfg nows b1 of (oks, b') \<Rightarrow> (ok # oks, b'))"

lemma Allow_bucket:
  assumes "clock_within E t0" and "stored_bucket t0 (rd_keys (lsRedis s) (bucket_key cfg key)) b"
    and "0 \<le> now" "now < 2 ^ 63"
    and "Allow E cfg key now s = (res, s')" and "take_token cfg now b = (ok, b')"
  shows "(res = Inr ok \<and> stored_bucket t0 (rd_keys (lsRedis s') (bucket_key cfg key)) b') \<or>
    \<not> redis_reliable E \<and> (\<exists>err. res = Inl err) \<and>
    (stored_bucket t0 (rd_keys (lsRedis s') (bucket_key cfg key)) b \<or>
     stored_bucket t0 (rd_keys (lsRedis s') (bucket_key cfg key)) b')"
  using alone_bucket [OF assms(1-4) _ assms(6), of res "lsRedis s'"] Allow_alone [of E cfg key now s] assms(5)
  by simp

lemma allow_run_refines:
  assumes "redis_reliable E" and "clock_within E t0"
    and "stored_bucket t0 (rd_keys (lsRedis s) (bucket_key cfg key)) b"
    and "\<forall>now \<in> set nows. 0 \<le> now \<and> now < 2 ^ 63"
  shows "case allow_run E cfg key nows s of (res, s') \<Rightarrow>
    case bucket_run cfg nows b of (oks, b') \<Rightarrow>
      res = map Inr oks \<and> stored_bucket t0 (rd_keys (lsRedis s') (bucket_key cfg key)) b'"
  using assms(3,4)
proof (induction nows arbitrary: s b)
  case (Cons now nows)
  obtain res s1 where a: "Allow E cfg key now s = (res, s1)" by (metis prod.collapse)
  obtain ok b1 where t: "take_token cfg now b = (ok, b1)" by (metis prod.collapse)
  have "res = Inr ok \<and> stored_bucket t0 (rd_keys (lsRedis s1) (bucket_key cfg key)) b1"
    using Allow_bucket [OF assms(2) Cons.prems(1) _ _ a t] Cons.prems(2) assms(1) by auto
  then show ?case using Cons.IH [of s1 b1] Cons.prems(2) a t by (auto split: prod.splits)
qed simp

section \<open>The exact bucket\<close>

text \<open>
  The specification of the limiter, without its floats and its texts: a bucket gains
  \<open>RequestsPerSecond\<close> tokens a second up to its burst, in exact arithmetic, and a request takes one
  token if the bucket holds one. An implementation may keep the rest to the nearest hundredth of a
  token, and may err by a millionth of a token otherwise.
\<close>

definition level :: "rate_limit_config \<Rightarrow> int \<Rightarrow> bucket \<Rightarrow> rat" where
  "level cfg now b =
     (case b of
        None \<Rightarrow> of_int (rlBurstSize cfg)
      | Some (x, n) \<Rightarrow>
          min (x + of_int (now - n) / 1000 * rlRequestsPerSecond cfg) (of_int (rlBurstSize cfg)))"

definition slack :: rat where
  "slack = 1 / 1000000"

definition exact_take :: "rate_limit_config \<Rightarrow> int \<Rightarrow> bucket \<Rightarrow> bool \<times> bucket \<Rightarrow> bool" where
  "exact_take cfg now b = (\<lambda>(ok, b').
     if ok
     then 1 - slack \<le> level cfg now b \<and>
       (case b' of
          None \<Rightarrow> False
        | Some (x, n) \<Rightarrow> n = now \<and> \<bar>x - (level cfg now b - 1)\<bar> \<le> 1 / 200 + slack)
     else level cfg now b < 1 + slack \<and> b' = b)"

inductive exact_run :: "rate_limit_config \<Rightarrow> int list \<Rightarrow> bucket \<Rightarrow> bool list \<Rightarrow> bucket \<Rightarrow> bool" where
  exact_none: "exact_run cfg [] b [] b"
| exact_next: "exact_take cfg now b (ok, b1) \<Longrightarrow> exact_run cfg nows b1 oks b' \<Longrightarrow>
    exact_run cfg (now # nows) b (ok # oks) b'"

text \<open>A bucket that was written in hundredths and holds no more than the burst.\<close>

definition in_hundredths :: "rate_limit_config \<Rightarrow> bucket \<Rightarrow> bool" where
  "in_hundredths cfg b =
     (case b of
        None \<Rightarrow> True
      | Some (x, n) \<Rightarrow> x = of_int (round_even (100 * x)) / 100 \<and> 0 \<le> x \<and> x \<le> of_int (rlBurstSize cfg) \<and>
          0 \<le> n \<and> n < 2 ^ 63)"

definition to_hundredths :: "bucket \<Rightarrow> bucket" where
  "to_hundredths b = map_option (apfst (\<lambda>x. of_int (round_even (100 * x)) / 100)) b"

lemma hundredths_twice [simp]:
  "round_even (of_int c :: rat) = c" "100 * (of_int c / 100) = (of_int c :: rat)"
  by simp_all

lemma bucket_value_hundredths [simp]: "bucket_value cfg now (to_hundredths b) = bucket_value cfg now b"
  by (auto simp: bucket_value_def to_hundredths_def split: option.split)

lemma fixed2_hundredths: "0 \<le> x \<Longrightarrow> fixed2 (of_int (round_even (100 * x)) / 100) = fixed2 x"
proof -
  assume x: "0 \<le> x"
  then have "0 \<le> round_even (100 * x)" using round_even_mono [of 0 "100 * x"] round_even_int [of 0] by simp
  with x show ?thesis by (simp add: fixed2_def)
qed

lemma stored_hundredths: "stored_bucket t0 e b \<Longrightarrow> stored_bucket t0 e (to_hundredths b)"
proof -
  assume "stored_bucket t0 e b"
  moreover have "0 \<le> x \<Longrightarrow> 0 \<le> round_even (100 * x)" for x
    using round_even_mono [of 0 "100 * x"] round_even_int [of 0] by simp
  ultimately show ?thesis
    by (auto simp: stored_bucket_def to_hundredths_def fixed2_hundredths split: option.splits)
qed

text \<open>The float arithmetic of a refill stays within the slack, except far from the limits.\<close>

lemma amount_error:
  assumes "0 \<le> rps"
  shows "\<bar>fmul (fdiv (float64_of_int d) 1000) rps - of_int d / 1000 * rps\<bar> \<le> \<bar>of_int d / 1000 * rps\<bar> / 2 ^ 50"
proof -
  define q :: rat where "q = of_int d / 1000"
  define f1 where "f1 = float64_of_int d"
  define f2 where "f2 = fdiv f1 1000"
  have f1: "\<bar>f1 - of_int d\<bar> \<le> \<bar>of_int d\<bar> / 2 ^ 53"
    using rnd64_error [of "of_int d"] by (simp add: float64_of_int_def f1_def)
  have f2: "\<bar>f2 - q\<bar> \<le> \<bar>q\<bar> * (3 / 2 ^ 53)"
    using f1 rnd64_error [of "f1 / 1000"] by (simp add: f2_def q_def fdiv_def abs_if split: if_splits)
  have "\<bar>f2 * rps - q * rps\<bar> = \<bar>f2 - q\<bar> * rps"
    using assms by (simp add: abs_mult flip: left_diff_distrib)
  also have "\<dots> \<le> \<bar>q\<bar> * (3 / 2 ^ 53) * rps" using f2 assms by (rule mult_right_mono)
  also have "\<dots> = \<bar>q * rps\<bar> * (3 / 2 ^ 53)" using assms by (simp add: abs_mult)
  finally show ?thesis
    using rnd64_error [of "f2 * rps"] unfolding q_def [symmetric] f1_def [symmetric] f2_def [symmetric]
    by (simp add: fmul_def abs_if split: if_splits)
qed

lemma sum_close:
  fixes x :: rat
  assumes "\<bar>v - x\<bar> \<le> \<bar>x\<bar> / 2 ^ 53" "\<bar>a - d\<bar> \<le> \<bar>d\<bar> / 2 ^ 50" and "0 \<le> x" "x \<le> 2 ^ 20" "\<bar>d\<bar> \<le> 2 ^ 21"
  shows "\<bar>rnd64 (v + a) - (x + d)\<bar> \<le> 1 / 2 ^ 24"
  using assms rnd64_error [of "v + a"] by (simp add: abs_if split: if_splits)

lemma refilled_level:
  assumes "0 \<le> rlRequestsPerSecond cfg" and B: "0 \<le> rlBurstSize cfg" "rlBurstSize cfg \<le> 2 ^ 20"
    and "in_hundredths cfg b" and "0 \<le> now" "now < 2 ^ 63"
  shows "refilled cfg now b \<le> of_int (rlBurstSize cfg) \<and>
    (\<bar>refilled cfg now b - level cfg now b\<bar> \<le> 1 / 2 ^ 24 \<or> refilled cfg now b < 1 \<and> level cfg now b < 1)"
proof -
  have fB: "float64_of_int (rlBurstSize cfg) = of_int (rlBurstSize cfg)" 
    unfolding float64_of_int_def by (rule rnd64_exact) (use B in simp)
  have B20: "(of_int (rlBurstSize cfg) :: rat) \<le> 2 ^ 20"
    using B(2) of_int_le_iff [of "rlBurstSize cfg" "2 ^ 20", where 'a = rat] by simp
  show ?thesis
  proof (cases b)
    case None
    then show ?thesis
      by (simp add: refilled_def refill_def bucket_value_def level_def Let_def fB go_min_def wrap64_def
          float64_of_int_def [of 0] fdiv_def fmul_def fadd_def fB [unfolded float64_of_int_def])
  next
    case (Some p)
    obtain x n where b: "b = Some (x, n)" using Some by (cases p) simp
    have x: "0 \<le> x" "x \<le> of_int (rlBurstSize cfg)" "0 \<le> n" "n < 2 ^ 63"
      and h: "of_int (round_even (100 * x)) / 100 = x"
      using assms(4) by (auto simp: in_hundredths_def b)
    define v where "v = rnd64 x"
    define d where "d = of_int (now - n) / 1000 * rlRequestsPerSecond cfg"
    define a where "a = fmul (fdiv (float64_of_int (now - n)) 1000) (rlRequestsPerSecond cfg)"
    have w: "wrap64 (now - n) = now - n" using x assms(5,6) by (intro wrap64_id) simp_all
    have r: "refilled cfg now b = go_min (rnd64 (v + a)) (of_int (rlBurstSize cfg))"
      by (simp add: refilled_def refill_def bucket_value_def b h w fB Let_def v_def a_def fadd_def)
    have l: "level cfg now b = min (x + d) (of_int (rlBurstSize cfg))" by (simp add: level_def b d_def)
    have v: "\<bar>v - x\<bar> \<le> \<bar>x\<bar> / 2 ^ 53" unfolding v_def by (rule rnd64_error)
    have a: "\<bar>a - d\<bar> \<le> \<bar>d\<bar> / 2 ^ 50" unfolding a_def d_def by (rule amount_error [OF assms(1)])
    have x20: "x \<le> 2 ^ 20" using x B20 by linarith
    show ?thesis
    proof (cases "\<bar>d\<bar> \<le> 2 ^ 21")
      case True
      then show ?thesis
        using sum_close [OF v a x(1) x20 True] by (auto simp: r l go_min_def min_def abs_if split: if_splits)
    next
      case False
      then consider "2 ^ 21 < d" | "d < - (2 ^ 21)" by (auto simp: abs_if split: if_splits)
      then show ?thesis
      proof cases
        case 1
        then have va: "2 ^ 20 \<le> v + a" using v a x(1) x20 by (simp add: abs_if split: if_splits)
        have "(2 ^ 20 :: rat) = rnd64 (2 ^ 20)" using rnd64_exact [of "2 ^ 20"] by simp
        also have "\<dots> \<le> rnd64 (v + a)" using va by (rule rnd64_mono)
        finally have "2 ^ 20 \<le> rnd64 (v + a)" .
        then show ?thesis using 1 B20 x(1) by (simp add: r l go_min_def min_def)
      next
        case 2
        then have va: "v + a \<le> 0" using v a x(1) x20 by (simp add: abs_if split: if_splits)
        have "rnd64 (v + a) \<le> 0" using rnd64_mono [OF va] by simp
        then show ?thesis using 2 x20 by (auto simp: r l go_min_def min_def)
      qed
    qed
  qed
qed

lemma take_token_exact:
  assumes "0 \<le> rlRequestsPerSecond cfg" and B: "0 \<le> rlBurstSize cfg" "rlBurstSize cfg \<le> 2 ^ 20"
    and "in_hundredths cfg b" and "0 \<le> now" "now < 2 ^ 63" and "take_token cfg now b = (ok, b1)"
  shows "exact_take cfg now b (ok, to_hundredths b1) \<and> in_hundredths cfg (to_hundredths b1)"
proof (cases ok)
  case False
  then have "b1 = b" "refilled cfg now b < 1" using assms(7) by (auto simp: take_token_def Let_def split: if_splits)
  moreover have "to_hundredths b = b"
    using assms(4) by (auto simp: to_hundredths_def in_hundredths_def split: option.splits)
  ultimately show ?thesis
    using refilled_level [OF assms(1-6)] False assms(4)
    by (auto simp: exact_take_def slack_def abs_if split: if_splits)
next
  case True
  define t where "t = refilled cfg now b"
  define y where "y = fsub t 1"
  define c where "c = round_even (100 * y)"
  have t: "1 \<le> t" and b1: "b1 = Some (y, now)"
    using assms(7) True by (auto simp: take_token_def Let_def t_def y_def split: if_splits)
  have tl: "t \<le> of_int (rlBurstSize cfg)" "\<bar>t - level cfg now b\<bar> \<le> 1 / 2 ^ 24"
    using refilled_level [OF assms(1-6)] t by (auto simp: t_def)
  have B20: "(of_int (rlBurstSize cfg) :: rat) \<le> 2 ^ 20"
    using B(2) of_int_le_iff [of "rlBurstSize cfg" "2 ^ 20", where 'a = rat] by simp
  have y: "\<bar>y - (t - 1)\<bar> \<le> 1 / 2 ^ 33" "0 \<le> y"
    using rnd64_error [of "t - 1"] tl(1) t B20 refilled_take [OF t] by (simp_all add: y_def fsub_def)
  have c: "\<bar>of_int c / 100 - y\<bar> \<le> 1 / 200" "0 \<le> c"
    using round_even_error [of "100 * y"] round_even_mono [of 0 "100 * y"] round_even_int [of 0] y(2)
    by (simp_all add: c_def abs_if split: if_splits)
  have "of_int c / 100 \<le> (of_int (rlBurstSize cfg) :: rat)"
    using c y tl(1) by (simp add: abs_if split: if_splits)
  moreover have "1 - slack \<le> level cfg now b"
    using tl(2) t by (simp add: slack_def abs_if split: if_splits)
  moreover have "\<bar>of_int c / 100 - (level cfg now b - 1)\<bar> \<le> 1 / 200 + slack"
    using c(1) y(1) tl(2) by (simp add: slack_def abs_if split: if_splits)
  ultimately show ?thesis
    using True assms(5,6) c(2) unfolding b1 c_def
    by (simp add: exact_take_def to_hundredths_def in_hundredths_def)
qed

lemma allow_run_exact:
  assumes "redis_reliable E" and "clock_within E t0"
    and "0 \<le> rlRequestsPerSecond cfg" "0 \<le> rlBurstSize cfg" "rlBurstSize cfg \<le> 2 ^ 20"
    and "stored_bucket t0 (rd_keys (lsRedis s) (bucket_key cfg key)) b" and "in_hundredths cfg b"
    and "\<forall>now \<in> set nows. 0 \<le> now \<and> now < 2 ^ 63"
  shows "\<exists>oks b'. fst (allow_run E cfg key nows s) = map Inr oks \<and> exact_run cfg nows b oks b' \<and>
    stored_bucket t0 (rd_keys (lsRedis (snd (allow_run E cfg key nows s))) (bucket_key cfg key)) b'"
  using assms(6-8)
proof (induction nows arbitrary: s b)
  case Nil
  then show ?case by (auto intro: exact_none)
next
  case (Cons now nows)
  obtain res s1 where a: "Allow E cfg key now s = (res, s1)" by (metis prod.collapse)
  obtain ok b1 where t: "take_token cfg now b = (ok, b1)" by (metis prod.collapse)
  have now: "0 \<le> now" "now < 2 ^ 63" using Cons.prems(3) by simp_all
  have s1: "res = Inr ok" "stored_bucket t0 (rd_keys (lsRedis s1) (bucket_key cfg key)) (to_hundredths b1)"
    using Allow_bucket [OF assms(2) Cons.prems(1) now a t] assms(1) by (auto intro: stored_hundredths)
  have e: "exact_take cfg now b (ok, to_hundredths b1)" "in_hundredths cfg (to_hundredths b1)"
    using take_token_exact [OF assms(3-5) Cons.prems(2) now t] by simp_all
  have "\<forall>now \<in> set nows. 0 \<le> now \<and> now < 2 ^ 63" using Cons.prems(3) by simp
  then obtain oks b' where ih: "fst (allow_run E cfg key nows s1) = map Inr oks"
    "exact_run cfg nows (to_hundredths b1) oks b'"
    "stored_bucket t0 (rd_keys (lsRedis (snd (allow_run E cfg key nows s1))) (bucket_key cfg key)) b'"
    using Cons.IH [OF s1(2) e(2)] by blast
  then show ?case
    using exact_next [OF e(1) ih(2)] by (intro exI [of _ "ok # oks"] exI [of _ b']) (simp add: a s1 split_beta)
qed


section \<open>A burst\<close>

lemma bucket_burst:
  assumes "0 \<le> rlBurstSize cfg" and "rlBurstSize cfg \<le> 2 ^ 53" and "k \<le> nat (rlBurstSize cfg)"
    and "b = Some (of_nat k, now) \<or> (b = None \<and> k = nat (rlBurstSize cfg))"
  shows "fst (bucket_run cfg (replicate n now) b) = map (\<lambda>i. i < k) [0..<n]"
  using assms(3,4)
proof (induction n arbitrary: k b)
  case (Suc n)
  have int_k: "int k \<le> 2 ^ 53" "int k \<le> rlBurstSize cfg" using Suc.prems(1) assms(1,2) by simp_all
  have B: "float64_of_int (rlBurstSize cfg) = of_int (rlBurstSize cfg)"
    unfolding float64_of_int_def by (rule rnd64_exact) (use assms in simp)
  have v: "bucket_value cfg now b = (of_nat k, now)"
    using Suc.prems(2) B assms(1) rnd64_exact [of "int k"] round_even_int [of "100 * int k"] int_k
    by (auto simp: bucket_value_def of_nat_nat [OF assms(1), where ?'a = rat])
  have t: "refilled cfg now b = of_nat k"
    using int_k rnd64_exact [of "int k"] of_int_le_iff [of "int k" "rlBurstSize cfg", where 'a = rat]
    by (auto simp: refilled_def v refill_def Let_def wrap64_def float64_of_int_def [of 0] fdiv_def fmul_def
        fadd_def go_min_def B)
  show ?case
  proof (cases k)
    case 0
    then have "take_token cfg now b = (False, b)" by (simp add: take_token_def t)
    moreover have "b = Some (of_nat 0, now) \<or> (b = None \<and> 0 = nat (rlBurstSize cfg))"
      using Suc.prems(2) 0 by simp
    ultimately have "fst (bucket_run cfg (replicate (Suc n) now) b) = False # map (\<lambda>i. i < 0) [0..<n]"
      using Suc.IH [of 0 b] by (simp add: split_beta)
    then show ?thesis by (simp add: 0 upt_conv_Cons map_Suc_upt [symmetric] del: upt_Suc)
  next
    case (Suc j)
    have "fsub (of_nat k) 1 = of_nat j"
      using rnd64_exact [of "int j"] int_k Suc by (simp add: fsub_def)
    then have tk: "take_token cfg now b = (True, Some (of_nat j, now))" by (simp add: take_token_def t Suc)
    have "map (\<lambda>i. i < k) [0..<Suc n] = True # map (\<lambda>i. i < j) [0..<n]"
      by (simp add: upt_conv_Cons Suc map_Suc_upt [symmetric] del: upt_Suc)
    then show ?thesis
      using Suc.IH [of j "Some (of_nat j, now)"] Suc.prems(1) Suc tk by (simp add: split_beta)
  qed
qed simp


section \<open>The rate over time\<close>

lemma rnd64_nonneg: "0 \<le> x \<Longrightarrow> 0 \<le> rnd64 x"
  using rnd64_mono [of 0 x] by simp

lemma rnd64_up: "0 \<le> x \<Longrightarrow> x \<le> m \<Longrightarrow> rnd64 x \<le> x + m / 2 ^ 53"
  using abs_le_D1 [OF rnd64_error [of x]] by (simp add: field_simps)

lemma rnd64_factor: "0 \<le> x \<Longrightarrow> rnd64 x \<le> x * (1 + 1 / 2 ^ 53)"
  using abs_le_D1 [OF rnd64_error [of x]] by (simp add: field_simps)

lemma refill_amount:
  assumes "0 \<le> d" and "0 \<le> rps"
  shows "0 \<le> fmul (fdiv (float64_of_int d) 1000) rps \<and>
    fmul (fdiv (float64_of_int d) 1000) rps \<le> of_int d / 1000 * rps * (1 + 1 / 2 ^ 50)"
proof -
  define k :: rat where "k = 1 + 1 / 2 ^ 53"
  have k: "0 \<le> k" by (simp add: k_def)
  let ?f1 = "float64_of_int d" let ?f2 = "fdiv ?f1 1000"
  have f1: "0 \<le> ?f1" "?f1 \<le> of_int d * k"
    unfolding float64_of_int_def k_def by (rule rnd64_nonneg rnd64_factor, use assms(1) in simp)+
  have f2: "0 \<le> ?f2" "?f2 \<le> of_int d / 1000 * k * k"
  proof -
    show "0 \<le> ?f2" using f1(1) by (simp add: fdiv_def rnd64_nonneg)
    have "?f2 \<le> ?f1 / 1000 * k" using f1(1) rnd64_factor [of "?f1 / 1000"] by (simp add: fdiv_def k_def)
    also have "\<dots> \<le> of_int d * k / 1000 * k"
      using f1(2) k by (intro mult_right_mono divide_right_mono) simp_all
    finally show "?f2 \<le> of_int d / 1000 * k * k" by simp
  qed
  have "fmul ?f2 rps \<le> ?f2 * rps * k"
    using f2(1) assms(2) rnd64_factor [of "?f2 * rps"] by (simp add: fmul_def k_def)
  also have "\<dots> \<le> of_int d / 1000 * k * k * rps * k"
    using f2(2) assms(2) k by (intro mult_right_mono) simp_all
  also have "\<dots> = of_int d / 1000 * rps * (k * k * k)" by simp
  also have "\<dots> \<le> of_int d / 1000 * rps * (1 + 1 / 2 ^ 50)"
    using assms by (intro mult_left_mono) (simp_all add: k_def)
  finally show ?thesis using f2(1) assms(2) by (simp add: fmul_def rnd64_nonneg)
qed

text \<open>What taking a token does to the tokens that the next request reads.\<close>

lemma take_bound:
  assumes "0 \<le> rlRequestsPerSecond cfg" and "rlBurstSize cfg \<le> 2 ^ 40"
    and bv: "bucket_value cfg now b = (v, n)" and "0 \<le> v" "0 \<le> n" "n \<le> now" "now < 2 ^ 63"
    and "1 \<le> refilled cfg now b"
  shows "fst (bucket_value cfg now' (Some (fsub (refilled cfg now b) 1, now))) \<le>
    v + of_int (now - n) / 1000 * rlRequestsPerSecond cfg * (1 + 1 / 2 ^ 50) - 994 / 1000"
proof -
  define B where "B = rlBurstSize cfg"
  define t where "t = refilled cfg now b"
  define add where "add = fmul (fdiv (float64_of_int (now - n)) 1000) (rlRequestsPerSecond cfg)"
  have w: "wrap64 (now - n) = now - n" using assms by (intro wrap64_id) simp_all
  have add: "0 \<le> add" "add \<le> of_int (now - n) / 1000 * rlRequestsPerSecond cfg * (1 + 1 / 2 ^ 50)"
    using refill_amount [of "now - n" "rlRequestsPerSecond cfg"] assms by (simp_all add: add_def)
  have t: "t = go_min (fadd v add) (float64_of_int B)"
    by (simp add: t_def refilled_def bv refill_def Let_def w add_def B_def)
  have t1: "1 \<le> t" using assms by (simp add: t_def)
  have tB: "t \<le> float64_of_int B" "t \<le> fadd v add" by (simp_all add: t go_min_def)
  have B: "1 \<le> B"
  proof (rule ccontr)
    assume "\<not> 1 \<le> B"
    then have "float64_of_int B \<le> rnd64 0" unfolding float64_of_int_def by (intro rnd64_mono) simp
    then show False using tB t1 by simp
  qed
  have fB: "float64_of_int B = of_int B" "(of_int B :: rat) \<le> 2 ^ 40"
  proof -
    show "float64_of_int B = of_int B"
      unfolding float64_of_int_def by (rule rnd64_exact) (use B assms(2) in \<open>simp add: B_def\<close>)
    have "(of_int B :: rat) \<le> of_int (2 ^ 40)" using assms(2) unfolding B_def by (rule of_int_le_iff [THEN iffD2])
    then show "(of_int B :: rat) \<le> 2 ^ 40" by simp
  qed
  have tb: "t \<le> 2 ^ 40" using tB fB by linarith
  have tv: "t \<le> v + add + 2 ^ 41 / 2 ^ 53"
  proof (cases "v + add \<le> 2 ^ 41")
    case True
    then have "fadd v add \<le> v + add + 2 ^ 41 / 2 ^ 53"
      unfolding fadd_def using assms add(1) by (intro rnd64_up) simp_all
    then show ?thesis using tB by linarith
  next
    case False
    then show ?thesis using tb by simp
  qed
  define y where "y = fsub t 1"
  have y: "0 \<le> y" "y \<le> t - 1 + 2 ^ 40 / 2 ^ 53"
    using t1 tb rnd64_up [of "t - 1" "2 ^ 40"] by (simp_all add: y_def fsub_def rnd64_nonneg)
  define c where "c = round_even (100 * y)"
  have c: "of_int c / 100 \<le> y + 5 / 1000"
    using round_even_error [of "100 * y"] unfolding c_def abs_le_iff by simp
  have c0: "0 \<le> c" using y(1) round_even_mono [of 0 "100 * y"] round_even_int [of 0] by (simp add: c_def)
  have "rnd64 (of_int c / 100) \<le> of_int c / 100 + 2 ^ 41 / 2 ^ 53"
    using c c0 y tb by (intro rnd64_up) simp_all
  then have "rnd64 (of_int c / 100) \<le> v + add - 994 / 1000"
    using c y tv by simp
  then show ?thesis using add(2) by (simp add: bucket_value_def c_def y_def t_def)
qed


definition allowed_count :: "bool result list \<Rightarrow> nat" where
  "allowed_count rs = length (filter (\<lambda>r. r = Inr True) rs)"

text \<open>When the bucket was refilled last, and that it is one the limiter can have written.\<close>

definition since :: "bucket \<Rightarrow> int \<Rightarrow> int" where
  "since b lo = (case b of None \<Rightarrow> lo | Some (x, n) \<Rightarrow> n)"

definition proper_bucket :: "rate_limit_config \<Rightarrow> bucket \<Rightarrow> int \<Rightarrow> bool" where
  "proper_bucket cfg b lo \<longleftrightarrow> 0 \<le> since b lo \<and> since b lo \<le> lo \<and> (\<forall>x n. b = Some (x, n) \<longrightarrow> 0 \<le> x)"

definition tokens_held :: "rate_limit_config \<Rightarrow> bucket \<Rightarrow> rat" where
  "tokens_held cfg b = fst (bucket_value cfg 0 b)"

lemma tokens_held_nonneg: "0 \<le> rlBurstSize cfg \<Longrightarrow> proper_bucket cfg b lo \<Longrightarrow> 0 \<le> tokens_held cfg b"
proof -
  assume B: "0 \<le> rlBurstSize cfg" and b: "proper_bucket cfg b lo"
  have "0 \<le> x \<Longrightarrow> 0 \<le> round_even (100 * x)" for x
    using round_even_mono [of 0 "100 * x"] round_even_int [of 0] by simp
  then show ?thesis
    using B b by (auto simp: tokens_held_def bucket_value_def proper_bucket_def float64_of_int_def
        intro!: rnd64_nonneg split: option.split)
qed

text \<open>The budget of a bucket until a time \<open>T\<close>: what it holds and what it may still receive.\<close>

definition budget :: "rate_limit_config \<Rightarrow> int \<Rightarrow> bucket \<Rightarrow> int \<Rightarrow> rat" where
  "budget cfg T b lo =
     tokens_held cfg b + of_int (T - since b lo) / 1000 * rlRequestsPerSecond cfg * (1 + 1 / 2 ^ 50)"

lemma budget_nonneg:
  assumes "0 \<le> rlRequestsPerSecond cfg" and "0 \<le> rlBurstSize cfg" and "proper_bucket cfg b lo" and "lo \<le> T"
  shows "0 \<le> budget cfg T b lo"
  using assms tokens_held_nonneg [OF assms(2,3)]
  by (auto simp: budget_def proper_bucket_def intro!: add_nonneg_nonneg mult_nonneg_nonneg)

lemma budget_take:
  assumes cfg: "0 \<le> rlRequestsPerSecond cfg" "0 \<le> rlBurstSize cfg" "rlBurstSize cfg \<le> 2 ^ 40"
    and b: "proper_bucket cfg b lo" "lo \<le> now" "now < 2 ^ 63"
    and tk: "take_token cfg now b = (True, b')"
  shows "proper_bucket cfg b' now \<and> budget cfg T b' now \<le> budget cfg T b lo - 994 / 1000"
proof -
  have t1: "1 \<le> refilled cfg now b" and b': "b' = Some (fsub (refilled cfg now b) 1, now)"
    using tk by (auto simp: take_token_def Let_def split: if_splits)
  obtain n where bv: "bucket_value cfg now b = (tokens_held cfg b, n)" "since b lo \<le> n" "0 \<le> n" "n \<le> now"
    using b by (cases b) (auto simp: bucket_value_def tokens_held_def proper_bucket_def since_def)
  have "tokens_held cfg b' \<le> tokens_held cfg b +
      of_int (now - n) / 1000 * rlRequestsPerSecond cfg * (1 + 1 / 2 ^ 50) - 994 / 1000"
    using take_bound [OF cfg(1,3) bv(1) tokens_held_nonneg [OF cfg(2) b(1)] bv(3,4) b(3) t1, of 0]
    by (simp add: tokens_held_def b')
  also have "\<dots> \<le> tokens_held cfg b +
      of_int (now - since b lo) / 1000 * rlRequestsPerSecond cfg * (1 + 1 / 2 ^ 50) - 994 / 1000"
    using bv(2) cfg(1) by (simp add: mult_left_mono)
  finally have "budget cfg T b' now \<le> budget cfg T b lo - 994 / 1000"
    by (simp add: budget_def since_def b' diff_divide_distrib left_diff_distrib)
  moreover have "proper_bucket cfg b' now"
    using b bv refilled_take [OF t1] by (simp add: proper_bucket_def since_def b')
  ultimately show ?thesis by simp
qed

lemma budget_later:
  assumes "0 \<le> rlRequestsPerSecond cfg" and "proper_bucket cfg b lo" "lo \<le> now"
  shows "proper_bucket cfg b now \<and> budget cfg T b now \<le> budget cfg T b lo"
  using assms
  by (cases b) (auto simp: proper_bucket_def since_def budget_def mult_left_mono)

lemma allowed_budget:
  assumes cfg: "0 \<le> rlRequestsPerSecond cfg" "0 \<le> rlBurstSize cfg" "rlBurstSize cfg \<le> 2 ^ 40"
    and "clock_within E t0" and "T < 2 ^ 63"
    and "stored_bucket t0 (rd_keys (lsRedis s) (bucket_key cfg key)) b" and "proper_bucket cfg b lo"
    and "sorted (lo # nows)" "\<forall>now \<in> set nows. now \<le> T" "lo \<le> T"
  shows "of_nat (allowed_count (fst (allow_run E cfg key nows s))) * (994 / 1000) \<le> budget cfg T b lo"
  using assms(6-)
proof (induction nows arbitrary: s b lo)
  case Nil
  then show ?case using budget_nonneg [OF cfg(1,2)] by (simp add: allowed_count_def)
next
  case (Cons now nows)
  obtain res s1 where a: "Allow E cfg key now s = (res, s1)" by (metis prod.collapse)
  obtain ok b1 where t: "take_token cfg now b = (ok, b1)" by (metis prod.collapse)
  have now: "0 \<le> now" "lo \<le> now" "now \<le> T" "now < 2 ^ 63" "sorted (now # nows)"
    using Cons.prems assms(5) by (auto simp: proper_bucket_def)
  note step = Allow_bucket [OF assms(4) Cons.prems(1) now(1,4) a t]
  note later = budget_later [OF cfg(1) Cons.prems(2) now(2), of T]
  have taken: "ok \<Longrightarrow> proper_bucket cfg b1 now \<and> budget cfg T b1 now \<le> budget cfg T b lo - 994 / 1000"
    using budget_take [OF cfg Cons.prems(2) now(2,4), of b1 T] t by simp
  have rest: "of_nat (allowed_count (fst (allow_run E cfg key nows s1))) * (994 / 1000) \<le> budget cfg T b' now"
    if "stored_bucket t0 (rd_keys (lsRedis s1) (bucket_key cfg key)) b'" "proper_bucket cfg b' now" for b'
    using Cons.IH [OF that now(5)] Cons.prems(4) now(3) by simp
  have same: "\<not> ok \<Longrightarrow> b1 = b" using t by (auto simp: take_token_def Let_def split: if_splits)
  have count: "allowed_count (fst (allow_run E cfg key (now # nows) s)) =
      (if res = Inr True then 1 else 0) + allowed_count (fst (allow_run E cfg key nows s1))"
    by (simp add: a split_beta allowed_count_def)
  show ?case
  proof (cases "res = Inr True")
    case True
    then have "ok" "stored_bucket t0 (rd_keys (lsRedis s1) (bucket_key cfg key)) b1" using step by auto
    then show ?thesis using rest [of b1] taken True unfolding count by (simp add: algebra_simps)
  next
    case False
    then consider "stored_bucket t0 (rd_keys (lsRedis s1) (bucket_key cfg key)) b"
      | "ok" "stored_bucket t0 (rd_keys (lsRedis s1) (bucket_key cfg key)) b1"
      using step same by auto
    then show ?thesis
    proof cases
      case 1
      then show ?thesis using rest [of b] later False unfolding count by simp
    next
      case 2
      then show ?thesis using rest [of b1] taken False unfolding count by simp
    qed
  qed
qed


lemma rate_bounded:
  assumes "clock_within E t0" and "stored_bucket t0 (rd_keys (lsRedis s) (bucket_key cfg key)) None"
    and "0 \<le> rlRequestsPerSecond cfg" "0 \<le> rlBurstSize cfg" "rlBurstSize cfg \<le> 2 ^ 40"
    and "sorted (start # nows)" "\<forall>now \<in> set (start # nows). 0 \<le> now \<and> now \<le> T" "T < 2 ^ 63"
  shows "of_nat (allowed_count (fst (allow_run E cfg key (start # nows) s))) * (994 / 1000) \<le>
    of_int (rlBurstSize cfg) + of_int (T - start) / 1000 * rlRequestsPerSecond cfg * (1 + 1 / 2 ^ 50)"
proof -
  have "float64_of_int (rlBurstSize cfg) = of_int (rlBurstSize cfg)"
    unfolding float64_of_int_def by (rule rnd64_exact) (use assms(4,5) in simp)
  then have "budget cfg T None start =
      of_int (rlBurstSize cfg) + of_int (T - start) / 1000 * rlRequestsPerSecond cfg * (1 + 1 / 2 ^ 50)"
    by (simp add: budget_def since_def tokens_held_def bucket_value_def)
  moreover have "sorted (start # start # nows)" "proper_bucket cfg None start"
    using assms(6,7) by (simp_all add: proper_bucket_def since_def)
  ultimately show ?thesis
    using allowed_budget [OF assms(3-5,1,8,2), of start "start # nows"] assms(7) by auto
qed

section \<open>Requests that overlap\<close>

lemma run_schedule_append:
  "run_schedule E cfg key (is @ js) pcs r =
     (case run_schedule E cfg key is pcs r of (pcs', r') \<Rightarrow> run_schedule E cfg key js pcs' r')"
  by (induction "is" arbitrary: pcs r) (simp_all split: prod.split)

text \<open>All requests make the same step, one after the other.\<close>

lemma run_phase:
  assumes step: "\<And>r. I r \<Longrightarrow> \<exists>r'. limiter_step E cfg key p r = (q, r') \<and> J r'"
    and "\<And>r. J r \<Longrightarrow> I r" and "i < n" and "I r"
  shows "\<exists>r'. run_schedule E cfg key [i..<n] (replicate i q @ replicate (n - i) p) r = (replicate n q, r') \<and> J r'"
  using assms(3,4)
proof (induction "n - i" arbitrary: i r)
  case (Suc m)
  obtain r1 where s: "limiter_step E cfg key p r = (q, r1)" "J r1" using step [OF Suc.prems(2)] by blast
  have at_i: "(replicate i q @ replicate (n - i) p) ! i = p"
    using Suc.prems(1) by (simp add: nth_append)
  have upd: "(replicate i q @ replicate (n - i) p)[i := q] = replicate (Suc i) q @ replicate (n - Suc i) p"
  proof -
    have "n - i = Suc (n - Suc i)" using Suc.prems(1) by simp
    then show ?thesis by (simp add: list_update_append replicate_app_Cons_same del: replicate_Suc)
        (simp add: replicate_append_same)
  qed
  have one: "run_schedule E cfg key [i..<n] (replicate i q @ replicate (n - i) p) r =
      run_schedule E cfg key [Suc i..<n] (replicate (Suc i) q @ replicate (n - Suc i) p) r1"
    using Suc.prems(1) s by (simp add: upt_conv_Cons at_i upd del: replicate_Suc)
  show ?case
  proof (cases "Suc i < n")
    case True
    have "m = n - Suc i" using Suc.hyps(2) by simp
    then show ?thesis unfolding one using Suc.hyps(1) [OF _ True, of r1] assms(2) s(2) by blast
  next
    case False
    then have "Suc i = n" using Suc.prems(1) by simp
    then show ?thesis unfolding one using s(2) by auto
  qed
qed simp

lemma race:
  assumes "redis_reliable E" and "clock_within E t0"
    and "stored_bucket t0 (rd_keys r (bucket_key cfg key)) b"
    and "1 \<le> refilled cfg now b" and "0 \<le> now" "now < 2 ^ 63" and "0 < n"
  shows "\<exists>r'. run_schedule E cfg key ([0..<n] @ [0..<n] @ [0..<n]) (replicate n (AtRead now)) r =
      (replicate n (Answered (Inr True)), r') \<and>
    stored_bucket t0 (rd_keys r' (bucket_key cfg key)) (Some (fsub (refilled cfg now b) 1, now))"
proof -
  let ?k = "bucket_key cfg key" and ?t = "fsub (refilled cfg now b) 1"
  let ?I = "\<lambda>r. stored_bucket t0 (rd_keys r ?k) b"
  let ?J = "\<lambda>r. stored_bucket t0 (rd_keys r ?k) (Some (?t, now))"
  have s1: "\<exists>r'. limiter_step E cfg key (AtRead now) q = (AtWrite ?t now, r') \<and> ?I r'" if "?I q" for q
    using limiter_step_read [OF assms(2) that, of now] assms(1,4) that
    by (cases "limiter_step E cfg key (AtRead now) q") auto
  have w: "\<exists>r'. limiter_step E cfg key (AtWrite ?t now) q = (AtExpire, r') \<and> ?J r'"
    if "stored_bucket t0 (rd_keys q ?k) c" for q c
    using limiter_step_write [OF assms(2) that refilled_take [OF assms(4)] assms(5,6)] assms(1)
    by (cases "limiter_step E cfg key (AtWrite ?t now) q") auto
  then have s2: "\<exists>r'. limiter_step E cfg key (AtWrite ?t now) q = (AtExpire, r') \<and> ?J r'"
    if "?I q \<or> ?J q" for q using that by blast
  have s3: "\<exists>r'. limiter_step E cfg key AtExpire q = (Answered (Inr True), r') \<and> ?J r'" if "?J q" for q
    using limiter_step_expire [OF assms(2) that] by (cases "limiter_step E cfg key AtExpire q") auto
  obtain r1 where r1: "run_schedule E cfg key [0..<n] (replicate n (AtRead now)) r =
      (replicate n (AtWrite ?t now), r1)" "?I r1"
    using run_phase [where I = ?I and J = ?I, OF s1 _ assms(7,3)] by auto
  obtain r2 where r2: "run_schedule E cfg key [0..<n] (replicate n (AtWrite ?t now)) r1 =
      (replicate n AtExpire, r2)" "?J r2"
    using run_phase [where I = "\<lambda>r. ?I r \<or> ?J r" and J = ?J, OF s2 _ assms(7), of r1] r1(2) by auto
  obtain r3 where "run_schedule E cfg key [0..<n] (replicate n AtExpire) r2 =
      (replicate n (Answered (Inr True)), r3)" "?J r3"
    using run_phase [where I = ?J and J = ?J, OF s3 _ assms(7), of r2] r2(2) by auto
  then show ?thesis using r1 r2 by (auto simp: run_schedule_append)
qed


section \<open>Properties\<close>

text \<open>
  C14: the limiter is a token bucket. Checks that come one after the other, on a Redis server that
  answers and whose clock stays in five minutes, get the answers of the exact bucket, and what Redis
  holds afterwards is that bucket: refilled at the configured rate up to a burst of at most \<open>2^20\<close>,
  one token taken for each allowed check, and the rest kept to the nearest hundredth, up to a millionth
  of a token that the floats may be off.
\<close>

theorem rate_limiter_refines:
  assumes "redis_reliable E" and "clock_within E t0"
    and "0 \<le> rlRequestsPerSecond cfg" "0 \<le> rlBurstSize cfg" "rlBurstSize cfg \<le> 2 ^ 20"
    and "stored_bucket t0 (rd_keys (lsRedis s) (bucket_key cfg key)) b" and "in_hundredths cfg b"
    and "\<forall>now \<in> set nows. 0 \<le> now \<and> now < 2 ^ 63"
  shows "\<exists>oks b'. fst (allow_run E cfg key nows s) = map Inr oks \<and> exact_run cfg nows b oks b' \<and>
    stored_bucket t0 (rd_keys (lsRedis (snd (allow_run E cfg key nows s))) (bucket_key cfg key)) b'"
  by (rule allow_run_exact [OF assms])

text \<open>
  The burst is exact. Of any number of requests at one instant on an untouched (or expired) bucket
  exactly the first \<open>BurstSize\<close> are allowed, whatever the rate; neither the float arithmetic nor the
  two decimals that are written to Redis lose or gain a token.
\<close>

lemma rate_burst_exact:
  assumes "redis_reliable E" and "clock_within E t0"
    and "stored_bucket t0 (rd_keys (lsRedis s) (bucket_key cfg key)) None"
    and "0 \<le> rlBurstSize cfg" "rlBurstSize cfg \<le> 2 ^ 53" and "0 \<le> now" "now < 2 ^ 63"
  shows "fst (allow_run E cfg key (replicate n now) s) = map (\<lambda>i. Inr (i < nat (rlBurstSize cfg))) [0..<n]"
  using allow_run_refines [OF assms(1-3), of "replicate n now"] assms(6,7)
    bucket_burst [OF assms(4,5) order_refl, of None now n]
  by (auto split: prod.splits)

text \<open>
  C15: the rate is bounded for checks that come one after the other, on any connection. Of checks of
  an untouched (or expired) bucket at times that do not decrease, from the first to \<open>T\<close> (in
  milliseconds), while the clock of Redis stays in five minutes, no more are allowed than the burst and
  the tokens of that time, up to 0.6 percent that rounding to two decimals may give away. Commands may
  be lost at any point; a lost answer is an error, not an allowed check. Checks that overlap are not
  bounded so.
\<close>

theorem rate_bound:
  assumes "clock_within E t0" and "stored_bucket t0 (rd_keys (lsRedis s) (bucket_key cfg key)) None"
    and "0 \<le> rlRequestsPerSecond cfg" "0 \<le> rlBurstSize cfg" "rlBurstSize cfg \<le> 2 ^ 40"
    and "sorted (start # nows)" "\<forall>now \<in> set (start # nows). 0 \<le> now \<and> now \<le> T" "T < 2 ^ 63"
  shows "of_nat (allowed_count (fst (allow_run E cfg key (start # nows) s))) * (994 / 1000) \<le>
    of_int (rlBurstSize cfg) + of_int (T - start) / 1000 * rlRequestsPerSecond cfg * (1 + 1 / 2 ^ 50)"
  by (rule rate_bounded [OF assms])

text \<open>
  C39: the check is not atomic. When \<open>n\<close> requests overlap so that all of them read the bucket before
  the first one writes it, all \<open>n\<close> are allowed as soon as the bucket held one token, and one token is
  all they take from it together.
\<close>

theorem rate_race:
  assumes "redis_reliable E" and "clock_within E t0"
    and "stored_bucket t0 (rd_keys r (bucket_key cfg key)) b"
    and "1 \<le> refilled cfg now b" and "0 \<le> now" "now < 2 ^ 63" and "0 < n"
  shows "\<exists>r'. run_schedule E cfg key ([0..<n] @ [0..<n] @ [0..<n]) (replicate n (AtRead now)) r =
      (replicate n (Answered (Inr True)), r') \<and>
    stored_bucket t0 (rd_keys r' (bucket_key cfg key)) (Some (fsub (refilled cfg now b) 1, now))"
  by (rule race [OF assms])

section \<open>Witnesses\<close>

text \<open>A server that answers, at a clock that stands, with no keys.\<close>

definition steady_redis :: "unit redis_env" where
  "steady_redis = \<lparr>rd_net = (\<lambda>w. (Delivered, w)), rd_now = (\<lambda>w. (0, w))\<rparr>"

definition idle_limiter :: "unit limiter_state" where
  "idle_limiter = \<lparr>lsRedis = \<lparr>rd_keys = (\<lambda>_. None), rd_world = ()\<rparr>,
     lsMetrics = \<lparr>lmTotal = 0, lmAllowed = 0, lmRejected = 0, lmBucketRefills = 0\<rparr>\<rparr>"

lemma steady_redis_ok: "redis_reliable steady_redis" "clock_within steady_redis 0"
  by (simp_all add: redis_reliable_def clock_within_def steady_redis_def)

lemma idle_limiter_ok: "stored_bucket t0 (rd_keys (lsRedis idle_limiter) k) None"
  by (simp add: stored_bucket_def idle_limiter_def)

theorem rate_limiter_refines_witness:
  "\<exists>oks b'. fst (allow_run steady_redis DefaultRateLimitConfig ''global'' [1000, 2000] idle_limiter) = map Inr oks \<and>
     exact_run DefaultRateLimitConfig [1000, 2000] None oks b'"
  using rate_limiter_refines [OF steady_redis_ok _ _ _ idle_limiter_ok, of DefaultRateLimitConfig "[1000, 2000]" "''global''"]
  by (auto simp: DefaultRateLimitConfig_def in_hundredths_def)

lemma rate_burst_exact_witness:
  "fst (allow_run steady_redis DefaultRateLimitConfig ''global'' (replicate 25 0) idle_limiter) =
     replicate 20 (Inr True) @ replicate 5 (Inr False)"
  using rate_burst_exact [OF steady_redis_ok idle_limiter_ok, of DefaultRateLimitConfig 0 "''global''" 25]
  by (simp add: DefaultRateLimitConfig_def upt_rec numeral_eq_Suc)

theorem rate_bound_witness:
  "of_nat (allowed_count (fst (allow_run steady_redis DefaultRateLimitConfig ''global'' [0, 500, 1000] idle_limiter)))
     * (994 / 1000) \<le> (20 + 10 * (1 + 1 / 2 ^ 50) :: rat)"
  using rate_bound [OF steady_redis_ok(2) idle_limiter_ok, of DefaultRateLimitConfig 0 "[500, 1000]" 1000 "''global''"]
  by (simp add: DefaultRateLimitConfig_def)

theorem rate_race_witness:
  "fst (run_schedule steady_redis (DefaultRateLimitConfig\<lparr>rlBurstSize := 1\<rparr>) ''global''
      ([0..<3] @ [0..<3] @ [0..<3]) (replicate 3 (AtRead 0)) (lsRedis idle_limiter)) =
     replicate 3 (Answered (Inr True))"
proof -
  let ?cfg = "DefaultRateLimitConfig\<lparr>rlBurstSize := 1\<rparr>"
  have "refilled ?cfg 0 None = 1"
    using rnd64_exact [of 1]
    by (simp add: refilled_def refill_def bucket_value_def Let_def go_min_def fadd_def fmul_def fdiv_def
        float64_of_int_def wrap64_def)
  then show ?thesis
    using rate_race [OF steady_redis_ok idle_limiter_ok, of ?cfg 0 3 "''global''"] by auto
qed

end
