(* ===== verification/Handlers.thy ===== *)
theory Handlers
  imports ServiceLaws Interleaved
begin

text \<open>
  The handlers of \<open>payout_service.go\<close> cut at their calls to the outside and at what they share: each step
  makes one transaction, one statement, one provider call or one entry in the success tracker, so that
  handlers that run at the same time can be interleaved. A transaction is one step: two that insert the same idempotency key exclude
  each other in the database, the second waits for the first and then sees its key. Run alone, a
  handler in steps is the handler of theory PayoutService.
\<close>

section \<open>CreatePayout in steps\<close>

text \<open>
  Where a creation stands: before its transaction, at the read that answers a replay, before the
  providers are selected, at the call of the next provider (with those that are left and the result so
  far), at the entry of that call's answer in the success tracker, and at the update that records the
  outcome (with the payout to report where it fails).
\<close>

datatype 'c create_pc =
    CBegin create_request
  | CFetch uuid
  | CSend create_request payout
  | CTry create_request payout "'c provider_with_meta list" send_payout_result
  | CNote create_request payout "'c provider_with_meta" "'c provider_with_meta list" send_payout_result "string result"
  | CRecord payout update_payout_params payout
  | CDone "create_response result"

definition create_answer :: "('c, 'p, 'd) service_env \<Rightarrow> payout \<Rightarrow> create_response result" where
  "create_answer V p = Inr \<lparr>caPayoutId = seString V (pID p), caStatus = pState p\<rparr>"

text \<open>What the update after the provider calls writes.\<close>

definition result_update :: "send_payout_result \<Rightarrow> update_payout_params" where
  "result_update result =
     (if srSuccess result
      then \<lparr>upState = PayoutStateSent, upExternalID = Some (srExternalID result),
            upProvider = srUsedProvider result\<rparr>
      else \<lparr>upState = PayoutStateFailed, upExternalID = None,
            upProvider = (if srTriedProviders result \<noteq> [] then last (srTriedProviders result) else [])\<rparr>)"

text \<open>The loop over the providers goes on, or its result is recorded.\<close>

definition try_next ::
    "create_request \<Rightarrow> payout \<Rightarrow> 'c provider_with_meta list \<Rightarrow> send_payout_result \<Rightarrow> 'c create_pc" where
  "try_next req payout ps result =
     (if ps = [] then CRecord payout (result_update result) payout else CTry req payout ps result)"

definition create_step ::
    "('c, 'p, 'd) service_env \<Rightarrow> 'c payout_server \<Rightarrow> 'c create_pc \<Rightarrow> ('p, 'd) service_state \<Rightarrow>
     'c create_pc \<times> ('p, 'd) service_state" where
  "create_step V srv pc s =
     (case pc of
        CBegin req \<Rightarrow>
          if crIdempotencyKey req = []
          then (CDone (Inl (StatusError GrpcInvalidArgument ''idempotency_key is required'')), s)
          else if crRequestHash req = []
          then (CDone (Inl (StatusError GrpcInvalidArgument ''request_hash is required'')), s)
          else
            (case RunInTx (sePg V) (create_tx (sePg V) req) zero_tx_result (ssPg s) of
               ((txErr, result), db1) \<Rightarrow>
                 (case txErr of
                    None \<Rightarrow> CSend req (txNewPayout result)
                  | Some e \<Rightarrow>
                      if errors_Is e ErrIdempotencyKeyExists
                      then if kRequestHash (txExistingKey result) \<noteq> crRequestHash req
                           then CDone (Inl (StatusError GrpcAlreadyExists CodeIdempotencyConflict))
                           else CFetch (kPayoutID (txExistingKey result))
                      else CDone (Inl (StatusError GrpcInternal (''create payout: '' @ err_text e))),
                  s\<lparr>ssPg := db1\<rparr>))
      | CFetch i \<Rightarrow>
          (case PayoutRepo_GetPayout (sePg V) i (ssPg s) of
             (Inl err, db) \<Rightarrow>
               (CDone (Inl (StatusError GrpcInternal (''fetch existing payout: '' @ err_text err))),
                s\<lparr>ssPg := db\<rparr>)
           | (Inr existing, db) \<Rightarrow> (CDone (create_answer V existing), s\<lparr>ssPg := db\<rparr>))
      | CSend req payout \<Rightarrow>
          (case srv of
             None \<Rightarrow>
               (CRecord payout \<lparr>upState = PayoutStateFailed, upExternalID = None, upProvider = []\<rparr> zero_payout, s)
           | Some orc \<Rightarrow>
               (case SelectProviders (reIntn (seRails V)) (orRouter orc) (osTracker (ssOrch s)) (pRail payout)
                       (orRoutingAlgo orc) (osRails (ssOrch s)) of
                  (sel, w) \<Rightarrow>
                    (case sel of
                       Inl err \<Rightarrow> CRecord payout (result_update empty_result) payout
                     | Inr providers \<Rightarrow> try_next req payout providers empty_result,
                     s\<lparr>ssOrch := (ssOrch s)\<lparr>osRails := w\<rparr>\<rparr>)))
      | CTry req payout ps result \<Rightarrow>
          (case ps of
             [] \<Rightarrow> (CRecord payout (result_update result) payout, s)
           | p # rest \<Rightarrow>
               (case reSendPayout (seRails V) (pwClient p) payout (osRails (ssOrch s)) of
                  (res, w) \<Rightarrow>
                    (CNote req payout p rest
                       (result\<lparr>srTriedProviders := srTriedProviders result @ [mProvider (pwMeta p)]\<rparr>) res,
                     s\<lparr>ssOrch := (ssOrch s)\<lparr>osRails := w\<rparr>\<rparr>)))
      | CNote req payout p rest result res \<Rightarrow>
          (case reNow (seRails V) (osRails (ssOrch s)) of
             (now, w) \<Rightarrow>
               (case res of
                  Inr extID \<Rightarrow>
                    (CRecord payout (result_update
                       (result\<lparr>srExternalID := extID, srUsedProvider := mProvider (pwMeta p), srSuccess := True\<rparr>)) payout,
                     s\<lparr>ssOrch := \<lparr>osTracker = RecordSuccess (pRail payout) (mProvider (pwMeta p)) now (osTracker (ssOrch s)),
                                  osRails = w\<rparr>\<rparr>)
                | Inl err \<Rightarrow>
                    (if \<not> isRetryable err then CRecord payout (result_update result) payout
                     else try_next req payout rest result,
                     s\<lparr>ssOrch := \<lparr>osTracker = RecordFailure (pRail payout) (mProvider (pwMeta p)) now (osTracker (ssOrch s)),
                                  osRails = w\<rparr>\<rparr>)))
      | CRecord payout u dflt \<Rightarrow>
          (case PayoutRepo_UpdatePayoutState (sePg V) (pID payout) u (ssPg s) of
             (Inl err, db) \<Rightarrow> (CDone (create_answer V dflt), s\<lparr>ssPg := db\<rparr>)
           | (Inr updated, db) \<Rightarrow> (CDone (create_answer V updated), s\<lparr>ssPg := db\<rparr>))
      | CDone res \<Rightarrow> (pc, s))"

section \<open>CancelPayout in steps\<close>

datatype cancel_pc =
    XBegin string
  | XAsk uuid payout
  | XUpdate uuid
  | XDone "bool result"

definition cancel_step ::
    "('c, 'p, 'd) service_env \<Rightarrow> 'c payout_server \<Rightarrow> cancel_pc \<Rightarrow> ('p, 'd) service_state \<Rightarrow>
     cancel_pc \<times> ('p, 'd) service_state" where
  "cancel_step V srv pc s =
     (case pc of
        XBegin payout_id \<Rightarrow>
          if payout_id = [] then (XDone (Inl (StatusError GrpcInvalidArgument ''payout_id is required'')), s)
          else
            (case seParse V payout_id of
               None \<Rightarrow> (XDone (Inl (StatusError GrpcInvalidArgument CodeInvalidUUID)), s)
             | Some i \<Rightarrow>
                 (case PayoutRepo_GetPayout (sePg V) i (ssPg s) of
                    (Inl err, db) \<Rightarrow>
                      (XDone (Inl (if errors_Is err ErrNotFound then StatusError GrpcNotFound CodeNotFound
                            else StatusError GrpcInternal (''get payout: '' @ err_text err))),
                       s\<lparr>ssPg := db\<rparr>)
                  | (Inr payout, db) \<Rightarrow>
                      (if pState payout \<notin> set cancelableStates
                       then XDone (Inl (StatusError GrpcFailedPrecondition
                              (CodeInvalidState @ '': payout cannot be canceled in state '' @
                               go_quote (pState payout))))
                       else if srv \<noteq> None \<and> pProvider payout \<noteq> [] then XAsk i payout
                       else XUpdate i,
                       s\<lparr>ssPg := db\<rparr>)))
      | XAsk i payout \<Rightarrow>
          (XUpdate i,
           case srv of
             None \<Rightarrow> s
           | Some orc \<Rightarrow> s\<lparr>ssOrch := snd (Orchestrator_CancelPayout (seRails V) orc payout (ssOrch s))\<rparr>)
      | XUpdate i \<Rightarrow>
          (case PayoutRepo_CancelPayout (sePg V) i cancelableStates (ssPg s) of
             (Inl err, db) \<Rightarrow>
               (XDone (Inl (StatusError GrpcInternal (''cancel payout: '' @ err_text err))), s\<lparr>ssPg := db\<rparr>)
           | (Inr _, db) \<Rightarrow> (XDone (Inr True), s\<lparr>ssPg := db\<rparr>))
      | XDone res \<Rightarrow> (pc, s))"

section \<open>ApplyProviderUpdate in steps\<close>

datatype apply_pc =
    ABegin string string
  | AFindID string uuid string
  | AUpdate uuid update_payout_params
  | ADone "bool result"

text \<open>What follows once the payout is found: the status is mapped, and the update is next.\<close>

definition apply_found :: "payout \<Rightarrow> string \<Rightarrow> apply_pc" where
  "apply_found payout provider_status =
     (case mapProviderStatusToState provider_status of
        Inl err \<Rightarrow> ADone (Inl (StatusError GrpcInvalidArgument (''unknown provider status: '' @ provider_status)))
      | Inr newState \<Rightarrow>
          AUpdate (pID payout)
            \<lparr>upState = newState, upExternalID = pExternalID payout, upProvider = pProvider payout\<rparr>)"

definition apply_step ::
    "('c, 'p, 'd) service_env \<Rightarrow> apply_pc \<Rightarrow> ('p, 'd) service_state \<Rightarrow>
     apply_pc \<times> ('p, 'd) service_state" where
  "apply_step V pc s =
     (case pc of
        ABegin ref st \<Rightarrow>
          if ref = [] then (ADone (Inl (StatusError GrpcInvalidArgument ''payout_id is required'')), s)
          else
            (case PayoutRepo_FindByExternalID (sePg V) ref (ssPg s) of
               (Inr payout, db) \<Rightarrow> (apply_found payout st, s\<lparr>ssPg := db\<rparr>)
             | (Inl err, db) \<Rightarrow>
                 (case seParse V ref of
                    None \<Rightarrow> ADone (Inl (StatusError GrpcNotFound (''payout '' @ ref @ '' not found'')))
                  | Some i \<Rightarrow> AFindID ref i st, s\<lparr>ssPg := db\<rparr>))
      | AFindID ref i st \<Rightarrow>
          (case PayoutRepo_GetPayout (sePg V) i (ssPg s) of
             (Inl err, db) \<Rightarrow>
               (ADone (Inl (if errors_Is err ErrNotFound
                     then StatusError GrpcNotFound (''payout '' @ ref @ '' not found'')
                     else StatusError GrpcInternal (''get payout: '' @ err_text err))), s\<lparr>ssPg := db\<rparr>)
           | (Inr payout, db) \<Rightarrow> (apply_found payout st, s\<lparr>ssPg := db\<rparr>))
      | AUpdate i u \<Rightarrow>
          (case PayoutRepo_UpdatePayoutState (sePg V) i u (ssPg s) of
             (Inl err, db) \<Rightarrow>
               (ADone (Inl (StatusError GrpcInternal (''update payout state: '' @ err_text err))), s\<lparr>ssPg := db\<rparr>)
           | (Inr updated, db) \<Rightarrow> (ADone (Inr True), s\<lparr>ssPg := db\<rparr>))
      | ADone res \<Rightarrow> (pc, s))"

section \<open>Any handler\<close>

datatype 'c handler =
    HCreate "'c create_pc"
  | HCancel cancel_pc
  | HApply apply_pc
  | HGet string
  | HGot "get_response result"

definition handler_step ::
    "('c, 'p, 'd) service_env \<Rightarrow> 'c payout_server \<Rightarrow> 'c handler \<Rightarrow> ('p, 'd) service_state \<Rightarrow>
     'c handler \<times> ('p, 'd) service_state" where
  "handler_step V srv h s =
     (case h of
        HCreate pc \<Rightarrow> apfst HCreate (create_step V srv pc s)
      | HCancel pc \<Rightarrow> apfst HCancel (cancel_step V srv pc s)
      | HApply pc \<Rightarrow> apfst HApply (apply_step V pc s)
      | HGet i \<Rightarrow> apfst HGot (Service_GetPayout V i s)
      | HGot res \<Rightarrow> (h, s))"

definition starting :: "'c handler \<Rightarrow> bool" where
  "starting h \<longleftrightarrow> (case h of
     HCreate pc \<Rightarrow> (case pc of CBegin _ \<Rightarrow> True | _ \<Rightarrow> False)
   | HCancel pc \<Rightarrow> (case pc of XBegin _ \<Rightarrow> True | _ \<Rightarrow> False)
   | HApply pc \<Rightarrow> (case pc of ABegin _ _ \<Rightarrow> True | _ \<Rightarrow> False)
   | HGet _ \<Rightarrow> True
   | HGot _ \<Rightarrow> False)"

definition answered :: "'c handler \<Rightarrow> bool" where
  "answered h \<longleftrightarrow> (case h of
     HCreate pc \<Rightarrow> (case pc of CDone _ \<Rightarrow> True | _ \<Rightarrow> False)
   | HCancel pc \<Rightarrow> (case pc of XDone _ \<Rightarrow> True | _ \<Rightarrow> False)
   | HApply pc \<Rightarrow> (case pc of ADone _ \<Rightarrow> True | _ \<Rightarrow> False)
   | HGet _ \<Rightarrow> False
   | HGot _ \<Rightarrow> True)"

text \<open>What happens outside: the connection and the clocks go on, and so do the providers.\<close>

definition outside_world :: "('p, 'd) service_state \<Rightarrow> ('p, 'd) service_state \<Rightarrow> bool" where
  "outside_world s s' \<longleftrightarrow>
     (\<exists>d w. s' = s\<lparr>ssPg := (ssPg s)\<lparr>pg_world := d\<rparr>, ssOrch := (ssOrch s)\<lparr>osRails := w\<rparr>\<rparr>)"

text \<open>Any number of handlers of one service at work on one state.\<close>

abbreviation service_together ::
    "('c, 'p, 'd) service_env \<Rightarrow> 'c payout_server \<Rightarrow> ('p, 'd) service_state \<Rightarrow> 'c handler activity list \<Rightarrow>
     'c handler list \<times> ('p, 'd) service_state \<Rightarrow> bool" where
  "service_together V srv \<equiv> inter_run (handler_step V srv) starting outside_world"

abbreviation service_history ::
    "('c, 'p, 'd) service_env \<Rightarrow> 'c payout_server \<Rightarrow> ('p, 'd) service_state \<Rightarrow>
     ('c handler \<times> 'c handler) list \<times> ('p, 'd) service_state \<Rightarrow> bool" where
  "service_history V srv \<equiv> inter_history (handler_step V srv) starting outside_world"

section \<open>Alone, the steps are the handlers\<close>

text \<open>Steps that are enough for any handler: five, and two for every provider that is registered.\<close>

definition enough_steps :: "'c payout_server \<Rightarrow> nat" where
  "enough_steps srv = 5 + 2 * (case srv of
     None \<Rightarrow> 0 | Some orc \<Rightarrow> sum_list (map (\<lambda>e. length (snd e)) (rtRegistry (orRouter orc))))"

lemma length_GetProviders: "length (GetProviders rl r) \<le> sum_list (map (\<lambda>e. length (snd e)) r)"
  by (induction r) (auto simp: GetProviders_def intro: le_trans [OF length_filter_le] split: option.splits)

lemma length_move_to_front: "length (move_to_front k ps) \<le> Suc (length ps)"
  using length_filter_le [of "\<lambda>(i, p). i \<noteq> k" "enumerate 0 ps"] by (simp add: move_to_front_def)

lemma length_SelectProviders:
  assumes "SelectProviders rnd rt t rl algo w = (Inr ps, w')"
  shows "length ps \<le> Suc (length (GetProviders rl (rtRegistry rt)))"
proof -
  have "length (selectBySuccessRate m rl t qs) = length qs" for m and qs :: "'a provider_with_meta list"
    using success_based.select_perm [where ps = qs] by (metis size_mset)
  then show ?thesis
    using assms length_move_to_front [of _ "GetProviders rl (rtRegistry rt)"]
    by (auto simp: SelectProviders_def selectByWeight_def Let_def le_SucI split: if_splits prod.splits)
qed

lemma selected_enough:
  assumes "SelectProviders rnd (orRouter orc) t rl algo w = (Inr ps, w')"
  shows "3 + 2 * length ps \<le> enough_steps (Some orc)"
  using length_SelectProviders [OF assms] length_GetProviders [of rl "rtRegistry (orRouter orc)"]
  by (simp add: enough_steps_def)

lemma enough_steps_3: "3 \<le> enough_steps srv"
  by (simp add: enough_steps_def)

text \<open>The loop over the providers, alone.\<close>

lemma try_alone:
  assumes "fallback_loop (seRails V) p ps result (ssOrch s) = (r, o1)"
  shows "\<exists>j \<le> 2 * length ps. run_alone (handler_step V srv) j (HCreate (try_next req p ps result), s) =
    (HCreate (CRecord p (result_update r) p), s\<lparr>ssOrch := o1\<rparr>)"
  using assms
proof (induction ps arbitrary: result s)
  case Nil
  then show ?case by (intro exI [of _ 0]) (simp add: try_next_def)
next
  case (Cons q ps)
  let ?result = "result\<lparr>srTriedProviders := srTriedProviders result @ [mProvider (pwMeta q)]\<rparr>"
  obtain res w1 where res: "reSendPayout (seRails V) (pwClient q) p (osRails (ssOrch s)) = (res, w1)" by (metis prod.collapse)
  obtain now w2 where now: "reNow (seRails V) w1 = (now, w2)" by (metis prod.collapse)
  let ?step = "handler_step V srv"
  have call: "?step (HCreate (try_next req p (q # ps) result)) s =
      (HCreate (CNote req p q ps ?result res), s\<lparr>ssOrch := (ssOrch s)\<lparr>osRails := w1\<rparr>\<rparr>)"
    by (simp add: try_next_def handler_step_def create_step_def res)
  obtain h2 s2 where noted: "?step (HCreate (CNote req p q ps ?result res)) (s\<lparr>ssOrch := (ssOrch s)\<lparr>osRails := w1\<rparr>\<rparr>) = (h2, s2)"
    by (metis prod.collapse)
  have two: "run_alone ?step (Suc (Suc j)) (HCreate (try_next req p (q # ps) result), s) = run_alone ?step j (h2, s2)" for j
    by (simp only: run_alone.simps call noted)
  note step = noted [unfolded handler_step_def create_step_def, simplified, unfolded now, simplified]
  show ?case
  proof (cases res)
    case (Inr x)
    have "h2 = HCreate (CRecord p (result_update r) p) \<and> s2 = s\<lparr>ssOrch := o1\<rparr>"
      using Cons.prems step Inr by (auto simp: res now Let_def)
    then show ?thesis by (intro exI [of _ "Suc (Suc 0)"]) (simp add: two del: run_alone.simps(2))
  next
    case (Inl err)
    let ?s = "s\<lparr>ssOrch := \<lparr>osTracker = RecordFailure (pRail p) (mProvider (pwMeta q)) now (osTracker (ssOrch s)), osRails = w2\<rparr>\<rparr>"
    show ?thesis
    proof (cases "isRetryable err")
      case False
      have "h2 = HCreate (CRecord p (result_update r) p) \<and> s2 = s\<lparr>ssOrch := o1\<rparr>"
        using Cons.prems step Inl False by (auto simp: res now Let_def)
      then show ?thesis by (intro exI [of _ "Suc (Suc 0)"]) (simp add: two del: run_alone.simps(2))
    next
      case True
      have loop: "fallback_loop (seRails V) p ps ?result (ssOrch ?s) = (r, o1)"
        using Cons.prems Inl True by (simp add: res now Let_def)
      have "h2 = HCreate (try_next req p ps ?result) \<and> s2 = ?s" using step Inl True by auto
      moreover obtain j where "j \<le> 2 * length ps" "run_alone ?step j (HCreate (try_next req p ps ?result), ?s) =
          (HCreate (CRecord p (result_update r) p), ?s\<lparr>ssOrch := o1\<rparr>)"
        using Cons.IH [OF loop] by blast
      ultimately show ?thesis by (intro exI [of _ "Suc (Suc j)"]) (simp add: two del: run_alone.simps(2))
    qed
  qed
qed

lemma send_alone:
  assumes "send_outcome V srv p (ssOrch s) = (u, dflt, o1)"
  shows "\<exists>j. j + 2 \<le> enough_steps srv \<and> run_alone (handler_step V srv) j (HCreate (CSend req p), s) =
    (HCreate (CRecord p u dflt), s\<lparr>ssOrch := o1\<rparr>)"
proof (cases srv)
  case None
  then show ?thesis using assms
    by (intro exI [of _ "Suc 0"]) (simp add: send_outcome_def handler_step_def create_step_def enough_steps_def)
next
  case (Some orc)
  obtain sel w where sel: "SelectProviders (reIntn (seRails V)) (orRouter orc) (osTracker (ssOrch s)) (pRail p)
      (orRoutingAlgo orc) (osRails (ssOrch s)) = (sel, w)" by (metis prod.collapse)
  obtain r o2 where r: "SendPayoutWithFallback (seRails V) orc p (ssOrch s) = (r, o2)" by (metis prod.collapse)
  have out: "u = result_update r" "dflt = p" "o1 = o2"
    using assms Some r by (auto simp: send_outcome_def result_update_def)
  show ?thesis
  proof (cases sel)
    case (Inl err)
    then have "r = empty_result" "o2 = (ssOrch s)\<lparr>osRails := w\<rparr>"
      using r sel by (auto simp: SendPayoutWithFallback_def)
    then show ?thesis using Inl sel Some out
      by (intro exI [of _ "Suc 0"]) (simp add: handler_step_def create_step_def enough_steps_def)
  next
    case (Inr ps)
    let ?s = "s\<lparr>ssOrch := (ssOrch s)\<lparr>osRails := w\<rparr>\<rparr>"
    have "fallback_loop (seRails V) p ps empty_result (ssOrch ?s) = (r, o2)"
      using r sel Inr by (simp add: SendPayoutWithFallback_def)
    from try_alone [OF this] obtain j where j: "j \<le> 2 * length ps"
      "run_alone (handler_step V srv) j (HCreate (try_next req p ps empty_result), ?s) =
        (HCreate (CRecord p (result_update r) p), ?s\<lparr>ssOrch := o2\<rparr>)" by blast
    have "handler_step V srv (HCreate (CSend req p)) s = (HCreate (try_next req p ps empty_result), ?s)"
      using Inr sel Some by (simp add: handler_step_def create_step_def)
    then show ?thesis
      using j selected_enough [OF sel [unfolded Inr]] Some out by (intro exI [of _ "Suc j"]) simp
  qed
qed

lemma handler_done: "answered h \<Longrightarrow> handler_step V srv h s = (h, s)"
  by (auto simp: answered_def handler_step_def create_step_def cancel_step_def apply_step_def
      split: handler.splits create_pc.splits cancel_pc.splits apply_pc.splits)

lemma alone_done:
  assumes "run_alone (handler_step V srv) j (h, s) = (h', s')" and "answered h'" and "j \<le> n"
  shows "run_alone (handler_step V srv) n (h, s) = (h', s')"
  by (rule run_alone_stays [OF assms(1) _ assms(3)]) (simp add: handler_done assms(2))

lemma send_and_record:
  assumes "sendPayoutWithOrchestrator V srv p s = (q, s')"
  shows "\<exists>j. j + 1 \<le> enough_steps srv \<and> run_alone (handler_step V srv) j (HCreate (CSend req p), s) =
    (HCreate (CDone (create_answer V q)), s')"
proof -
  obtain u dflt o1 res db where so: "send_outcome V srv p (ssOrch s) = (u, dflt, o1)"
    and upd: "PayoutRepo_UpdatePayoutState (sePg V) (pID p) u (ssPg s) = (res, db)"
    by (metis prod.collapse)
  have q: "q = (case res of Inl err \<Rightarrow> dflt | Inr updated \<Rightarrow> updated)" "s' = \<lparr>ssPg = db, ssOrch = o1\<rparr>"
    using sendPayout_outcome [OF so upd] assms by simp_all
  obtain j where j: "j + 2 \<le> enough_steps srv"
    "run_alone (handler_step V srv) j (HCreate (CSend req p), s) = (HCreate (CRecord p u dflt), s\<lparr>ssOrch := o1\<rparr>)"
    using send_alone [OF so] by blast
  have "handler_step V srv (HCreate (CRecord p u dflt)) (s\<lparr>ssOrch := o1\<rparr>) = (HCreate (CDone (create_answer V q)), s')"
    using upd q by (cases res) (simp_all add: handler_step_def create_step_def)
  then have "run_alone (handler_step V srv) (Suc j) (HCreate (CSend req p), s) = (HCreate (CDone (create_answer V q)), s')"
    using run_alone_add [of "handler_step V srv" j 1 "(HCreate (CSend req p), s)"] j(2) by simp
  then show ?thesis using j(1) by (intro exI [of _ "Suc j"]) simp
qed

lemma create_alone:
  assumes "enough_steps srv \<le> n"
  shows "run_alone (handler_step V srv) n (HCreate (CBegin req), s) =
    apfst (HCreate \<circ> CDone) (Service_CreatePayout V srv req s)"
proof -
  obtain err r db1 where tx: "RunInTx (sePg V) (create_tx (sePg V) req) zero_tx_result (ssPg s) = ((err, r), db1)"
    by (metis prod.collapse)
  obtain res s' where run: "Service_CreatePayout V srv req s = (res, s')" by (metis prod.collapse)
  have "\<exists>j \<le> enough_steps srv. run_alone (handler_step V srv) j (HCreate (CBegin req), s) = (HCreate (CDone res), s')"
  proof (cases "crIdempotencyKey req \<noteq> [] \<and> crRequestHash req \<noteq> [] \<and> err = None")
    case True
    let ?p = "txNewPayout r" and ?s = "s\<lparr>ssPg := db1\<rparr>"
    obtain q s2 where q: "sendPayoutWithOrchestrator V srv ?p ?s = (q, s2)" by (metis prod.collapse)
    have "res = create_answer V q" "s' = s2"
      using run True tx q by (simp_all add: Service_CreatePayout_def create_answer_def)
    moreover obtain j where "j + 1 \<le> enough_steps srv"
      "run_alone (handler_step V srv) j (HCreate (CSend req ?p), ?s) = (HCreate (CDone (create_answer V q)), s2)"
      using send_and_record [OF q] by blast
    moreover have "handler_step V srv (HCreate (CBegin req)) s = (HCreate (CSend req ?p), ?s)"
      using True tx by (simp add: handler_step_def create_step_def)
    ultimately show ?thesis by (intro exI [of _ "Suc j"]) simp
  next
    case False
    have "run_alone (handler_step V srv) 3 (HCreate (CBegin req), s) = (HCreate (CDone res), s')"
    proof (cases "crIdempotencyKey req = [] \<or> crRequestHash req = []")
      case True
      then show ?thesis
        using run by (auto simp: run_alone_3 handler_step_def create_step_def Service_CreatePayout_def)
    next
      case nonempty: False
      with False obtain e where e: "err = Some e" by auto
      obtain got db2 where "PayoutRepo_GetPayout (sePg V) (kPayoutID (txExistingKey r)) db1 = (got, db2)"
        by (metis prod.collapse)
      then show ?thesis
        using run nonempty e tx
        by (cases got; cases "errors_Is e ErrIdempotencyKeyExists";
            cases "kRequestHash (txExistingKey r) = crRequestHash req")
          (simp_all add: run_alone_3 handler_step_def create_step_def Service_CreatePayout_def create_answer_def)
    qed
    then show ?thesis using enough_steps_3 by blast
  qed
  then obtain j where j: "j \<le> enough_steps srv"
    "run_alone (handler_step V srv) j (HCreate (CBegin req), s) = (HCreate (CDone res), s')" by blast
  have "answered (HCreate (CDone res))" by (simp add: answered_def)
  from alone_done [OF j(2) this] show ?thesis using j(1) assms run by simp
qed

lemma cancel_alone:
  "run_alone (handler_step V srv) 3 (HCancel (XBegin i), s) = apfst (HCancel \<circ> XDone) (Service_CancelPayout V srv i s)"
  by (auto simp: run_alone_3 handler_step_def cancel_step_def Service_CancelPayout_def Let_def
      split: option.split prod.split sum.split)

lemma apply_alone:
  "run_alone (handler_step V srv) 3 (HApply (ABegin ref st), s) = apfst (HApply \<circ> ADone) (Service_ApplyProviderUpdate V ref st s)"
  by (auto simp: run_alone_3 handler_step_def apply_step_def apply_found_def Service_ApplyProviderUpdate_def
      findPayoutByExternalIDOrID_def split: option.split prod.split sum.split)

end
