(* ===== verification/Interleaving.thy ===== *)
theory Interleaving
  imports Handlers ServiceRuns WebhookFacts
begin

text \<open>
  Handlers that run at the same time: any interleaving of their steps keeps the invariant of the tables
  and sends at most once per idempotency key; two schedules show what the code does not exclude, a
  cancellation that is overwritten and a provider report that comes too early.
\<close>


section \<open>What one step of a handler does to the tables\<close>

text \<open>The updates that handlers carry write only these states.\<close>

fun proper_handler :: "'c handler \<Rightarrow> bool" where
  "proper_handler (HCreate (CRecord p u dflt)) \<longleftrightarrow> upState u \<in> {''sent'', ''failed''}"
| "proper_handler (HApply (AUpdate i u)) \<longleftrightarrow> upState u \<in> ending_states"
| "proper_handler h \<longleftrightarrow> True"

lemma starting_proper: "starting h \<Longrightarrow> proper_handler h"
  by (cases h rule: proper_handler.cases) (auto simp: starting_def)

lemma result_update_state: "upState (result_update r) \<in> {''sent'', ''failed''}"
  by (simp add: result_update_def)

lemma try_next_proper: "proper_handler (HCreate (try_next req p ps result))"
  using result_update_state [of result] by (simp add: try_next_def)

lemma apply_found_proper: "proper_handler (HApply (apply_found p st))"
  by (auto simp: apply_found_def mapProviderStatusToState_def)

lemma apfst_eq_iff: "apfst f p = (a, b) \<longleftrightarrow> (\<exists>x. p = (x, b) \<and> a = f x)"
  by (cases p) auto

lemma create_step_proper: "create_step V srv pc s = (pc', s') \<Longrightarrow> proper_handler (HCreate pc')"
  using result_update_state
  by (cases pc)
    (auto simp: create_step_def Let_def try_next_proper split: if_splits prod.splits sum.splits option.splits list.splits)

lemma handler_step_proper: "handler_step V srv h s = (h', s') \<Longrightarrow> proper_handler h'"
  by (cases h)
    (auto simp: handler_step_def cancel_step_def apply_step_def apply_found_proper apfst_eq_iff
      dest: create_step_proper
      split: cancel_pc.splits apply_pc.splits if_splits prod.splits sum.splits option.splits)

abbreviation later_states :: "payout_state set" where
  "later_states \<equiv> insert ''sent'' ending_states"

definition tables_step :: "'d pg \<Rightarrow> 'd pg \<Rightarrow> bool" where
  "tables_step db db' \<longleftrightarrow> db_le db db' \<and> tbl_keys db' = tbl_keys db \<and>
     moved later_states (tbl_payouts db) (tbl_payouts db')"

lemma tables_step_same: "same_tables db db' \<Longrightarrow> tables_step db db'"
  by (auto simp: tables_step_def same_tables_def intro: same_tables_db_le)

lemma tables_step_update:
  "upState u \<in> later_states \<Longrightarrow> PayoutRepo_UpdatePayoutState E i u db = (r, db') \<Longrightarrow> tables_step db db'"
  using PayoutRepo_db_le(3) [of db E i u] PayoutRepo_keys(2) [of E i u db] update_moved [of u later_states db E i]
  by (simp add: tables_step_def)

lemma tables_step_cancel: "PayoutRepo_CancelPayout E i cs db = (r, db') \<Longrightarrow> tables_step db db'"
  using PayoutRepo_db_le(4) [of db E i cs] PayoutRepo_keys(3) [of E i cs db] cancel_moved [of later_states db E i cs]
  by (simp add: tables_step_def)

lemma tables_step_reads:
  "PayoutRepo_GetPayout E i db = (r, db') \<Longrightarrow> tables_step db db'"
  "PayoutRepo_FindByExternalID E x db = (r, db') \<Longrightarrow> tables_step db db'"
  using PayoutRepo_reads(1) [of db E i] PayoutRepo_reads(2) [of db E x] by (auto intro: tables_step_same)

text \<open>Selecting and calling providers leaves the tables alone.\<close>

lemma try_next_not_send: "try_next req p ps result \<noteq> CSend req' p'"
  by (simp add: try_next_def)

lemma sending_tables:
  "create_step V srv (CSend req p) s = (pc', s') \<Longrightarrow> ssPg s' = ssPg s \<and> (\<forall>req p. pc' \<noteq> CSend req p)"
  "create_step V srv (CTry req p ps result) s = (pc', s') \<Longrightarrow> ssPg s' = ssPg s \<and> (\<forall>req p. pc' \<noteq> CSend req p)"
  "create_step V srv (CNote req p q ps result res) s = (pc', s') \<Longrightarrow> ssPg s' = ssPg s \<and> (\<forall>req p. pc' \<noteq> CSend req p)"
  by (auto simp: create_step_def Let_def try_next_not_send
      split: option.splits prod.splits sum.splits list.splits if_splits)

text \<open>
  A step of a handler adds a payout with its key, and then that handler alone goes on to send it, or
  it moves payouts into later states.
\<close>

lemma handler_step_effect:
  assumes run: "handler_step V srv h s = (h', s')" and "proper_handler h"
  obtains (tables) "tables_step (ssPg s) (ssPg s')" and "\<And>req p. h' \<noteq> HCreate (CSend req p)"
  | (new) req row krow where "h = HCreate (CBegin req)" and "db_le (ssPg s) (ssPg s')"
      and "tbl_payouts (ssPg s') = tbl_payouts (ssPg s) @ [row]"
      and "tbl_keys (ssPg s') = tbl_keys (ssPg s) @ [krow]"
      and "crIdempotencyKey req \<notin> ikKey ` set (tbl_keys (ssPg s))"
      and "ikKey krow = crIdempotencyKey req" and "ikPayoutID krow = rID row"
      and "rState row = ''created''"
      and "ikRequestHash krow = crRequestHash req" and "rID row \<notin> rID ` set (tbl_payouts (ssPg s))"
      and "rAmountCents row = crAmount req" and "rCurrency row = crCurrency req" and "rRail row = crRail req"
      and "\<And>req' p. h' = HCreate (CSend req' p) \<Longrightarrow> req' = req \<and> pID p = rID row"
proof -
  have id: "tables_step db db" for db :: "'d pg" by (rule tables_step_same) simp
  consider (c) req where "h = HCreate (CBegin req)" | (other) "\<And>req. h \<noteq> HCreate (CBegin req)" by blast
  then show thesis
  proof cases
    case c
    show thesis
    proof (cases "crIdempotencyKey req = [] \<or> crRequestHash req = []")
      case True
      then have "s' = s \<and> (\<exists>e. h' = HCreate (CDone e))"
        using run c by (auto simp: handler_step_def create_step_def split: if_splits)
      then show thesis using id by (intro tables) auto
    next
      case False
      obtain err r db1 where tx: "RunInTx (sePg V) (create_tx (sePg V) req) zero_tx_result (ssPg s) = ((err, r), db1)"
        by (metis prod.collapse)
      have s': "s' = s\<lparr>ssPg := db1\<rparr>" and h': "h' = HCreate (case err of
          None \<Rightarrow> CSend req (txNewPayout r)
        | Some e \<Rightarrow>
            if errors_Is e ErrIdempotencyKeyExists
            then if kRequestHash (txExistingKey r) \<noteq> crRequestHash req
                 then CDone (Inl (StatusError GrpcAlreadyExists CodeIdempotencyConflict))
                 else CFetch (kPayoutID (txExistingKey r))
            else CDone (Inl (StatusError GrpcInternal (''create payout: '' @ err_text e))))"
        using run c False tx by (auto simp: handler_step_def create_step_def)
      have le: "db_le (ssPg s) db1"
        using RunInTx_create_db_le [of "ssPg s" "sePg V" req zero_tx_result] tx by simp
      from tx show thesis
      proof (cases rule: RunInTx_create_cases)
        case (created row krow)
        then have "rState row = ''created''" by simp
        then show thesis using created le c s' h' by (intro new [of req row krow]) auto
      next
        case (existing krow)
        then show thesis using s' h' by (intro tables) (auto intro: tables_step_same)
      next
        case (failed e)
        then show thesis using s' h' by (intro tables) (auto intro: tables_step_same)
      next
        case (lost e row krow)
        then show thesis using le c s' h' by (intro new [of req row krow]) auto
      qed
    qed
  next
    case other
    have "tables_step (ssPg s) (ssPg s') \<and> (\<forall>req p. h' \<noteq> HCreate (CSend req p))"
    proof (cases h)
      case (HCreate pc)
      then show ?thesis
        using run assms(2) other id
        by (cases pc) (auto simp: handler_step_def apfst_eq_iff dest!: sending_tables, auto simp: create_step_def
            split: prod.splits sum.splits intro: tables_step_reads tables_step_update)
    next
      case (HCancel pc)
      then show ?thesis
        using run id
        by (cases pc) (auto simp: handler_step_def cancel_step_def split: prod.splits sum.splits option.splits if_splits
            intro: tables_step_reads tables_step_cancel)
    next
      case (HApply pc)
      then show ?thesis
        using run assms(2) id
        by (cases pc) (auto simp: handler_step_def apply_step_def split: prod.splits sum.splits option.splits if_splits
            intro: tables_step_reads tables_step_update)
    next
      case (HGet i)
      then show ?thesis
        using run by (auto simp: handler_step_def apfst_eq_iff dest!: GetPayout_step intro: tables_step_same)
    next
      case (HGot res)
      then show ?thesis using run id by (auto simp: handler_step_def)
    qed
    then show thesis using tables by blast
  qed
qed


section \<open>The invariant under any interleaving\<close>

lemma service_inv_tables_step:
  assumes "tables_step db db'" and inv: "service_inv db"
  shows "service_inv db'"
proof -
  have step: "db_le db db'" "tbl_keys db' = tbl_keys db" "moved later_states (tbl_payouts db) (tbl_payouts db')"
    using assms(1) by (simp_all add: tables_step_def)
  have "rState r \<in> {''created'', ''sent'', ''failed'', ''canceled'', ''completed''}"
    if "r \<in> set (tbl_payouts db')" for r
    using moved_states [OF step(3) that]
  proof
    assume "rState r \<in> rState ` set (tbl_payouts db)"
    then obtain q where q: "q \<in> set (tbl_payouts db)" "rState r = rState q" by (rule imageE)
    then show ?thesis using inv by (simp only: q(2) service_inv_def)
  qed auto
  moreover have "tables_ok db'" using step(1) inv by (simp add: db_le_def service_inv_def)
  moreover have "mset (map ikPayoutID (tbl_keys db')) = mset (map rID (tbl_payouts db'))"
    using inv moved_ids [OF step(3)] step(2) unfolding service_inv_def by presburger
  ultimately show ?thesis unfolding service_inv_def by blast
qed

lemma service_inv_new:
  assumes "service_inv db" and "db_le db db'" and "tbl_payouts db' = tbl_payouts db @ [row]"
    and "tbl_keys db' = tbl_keys db @ [krow]" and "ikPayoutID krow = rID row" and "rState row = ''created''"
  shows "service_inv db'"
  using assms by (auto simp: service_inv_def db_le_def)

text \<open>
  For a key: how many handlers are about to send it, and how often it was sent so far. Together they
  are at most one, and none before the key is in its table.
\<close>

definition about_to_send :: "string \<Rightarrow> 'c handler \<Rightarrow> bool" where
  "about_to_send k h \<longleftrightarrow> (\<exists>req p. h = HCreate (CSend req p) \<and> crIdempotencyKey req = k)"

definition key_stored :: "string \<Rightarrow> 'd pg \<Rightarrow> bool" where
  "key_stored k db \<longleftrightarrow> k \<in> ikKey ` set (tbl_keys db)"

lemma key_stored_step: "tables_step db db' \<Longrightarrow> key_stored k db' = key_stored k db"
  by (simp add: tables_step_def key_stored_def)

lemma outside_tables: "outside_world s s' \<Longrightarrow> tables_step (ssPg s) (ssPg s')"
  by (auto simp: outside_world_def intro!: tables_step_same)

interpretation service: handlers "handler_step V srv" starting outside_world "\<lambda>s. service_inv (ssPg s)" proper_handler
  for V :: "('c, 'p, 'd) service_env" and srv :: "'c payout_server"
proof
  fix h h' :: "'c handler" and s s' :: "('p, 'd) service_state"
  assume inv: "service_inv (ssPg s)"
  assume h: "proper_handler h" and step: "handler_step V srv h s = (h', s')"
  from step h have "service_inv (ssPg s')"
    by (cases rule: handler_step_effect) (use service_inv_tables_step service_inv_new inv in blast)+
  then show "service_inv (ssPg s') \<and> proper_handler h'" using handler_step_proper [OF step] by simp
qed (use starting_proper outside_tables service_inv_tables_step in blast)+

interpretation sending: claiming "handler_step V srv" starting outside_world "\<lambda>s. service_inv (ssPg s)" proper_handler
    "about_to_send k" "about_to_send k" "\<lambda>s. key_stored k (ssPg s)"
  for V :: "('c, 'p, 'd) service_env" and srv :: "'c payout_server" and k :: string
proof
  fix h h' :: "'c handler" and s s' :: "('p, 'd) service_state"
  show "starting h \<Longrightarrow> \<not> about_to_send k h" by (auto simp: starting_def about_to_send_def)
  show "about_to_send k h \<Longrightarrow> handler_step V srv h s = (h', s') \<Longrightarrow> \<not> about_to_send k h'"
    by (auto simp: about_to_send_def handler_step_def apfst_eq_iff dest!: sending_tables)
  show "outside_world s s' \<Longrightarrow> key_stored k (ssPg s) \<Longrightarrow> key_stored k (ssPg s')"
    using key_stored_step outside_tables by blast
  assume h: "proper_handler h" and step: "handler_step V srv h s = (h', s')"
  from step h show "key_stored k (ssPg s')" if "key_stored k (ssPg s)"
    by (cases rule: handler_step_effect) (use that in \<open>auto simp: key_stored_step, auto simp: key_stored_def\<close>)
  from step h show "\<not> key_stored k (ssPg s) \<and> key_stored k (ssPg s')" if "about_to_send k h'"
    by (cases rule: handler_step_effect) (use that in \<open>auto simp: about_to_send_def key_stored_def\<close>)
qed auto

text \<open>
  The calls to providers: a request that has selected its providers calls each of them at most once.
\<close>

definition calls_provider :: "string \<Rightarrow> 'c handler \<Rightarrow> bool" where
  "calls_provider k h \<longleftrightarrow> (\<exists>req p q ps result. h = HCreate (CTry req p (q # ps) result) \<and> crIdempotencyKey req = k)"

fun calls_left :: "string \<Rightarrow> 'c handler \<Rightarrow> nat" where
  "calls_left k (HCreate (CNote req p q ps result res)) = (if crIdempotencyKey req = k then length ps else 0)"
| "calls_left k (HCreate (CTry req p ps result)) = (if crIdempotencyKey req = k then length ps else 0)"
| "calls_left k h = 0"

definition registered_providers :: "'c payout_server \<Rightarrow> nat" where
  "registered_providers srv = (case srv of
     None \<Rightarrow> 0 | Some orc \<Rightarrow> sum_list (map (\<lambda>e. length (snd e)) (rtRegistry (orRouter orc))))"

lemma selected_registered:
  assumes "Intn_ok rnd" and "SelectProviders rnd (orRouter orc) t rl algo w = (Inr ps, w')"
  shows "length ps \<le> registered_providers (Some orc)"
proof -
  have "mset ps = mset (GetProviders rl (rtRegistry (orRouter orc)))"
    using SelectProviders_answer [OF assms(1), where rt = "orRouter orc" and t = t and rl = rl and algo = algo and w = w] by (simp add: assms(2))
  then have "length ps = length (GetProviders rl (rtRegistry (orRouter orc)))" by (metis size_mset)
  then show ?thesis using length_GetProviders [of rl "rtRegistry (orRouter orc)"] by (simp add: registered_providers_def)
qed

lemma calls_left_try: "calls_left k (HCreate (try_next req p ps result)) = (if crIdempotencyKey req = k then length ps else 0)"
  by (simp add: try_next_def)

lemma create_step_calls:
  assumes "Intn_ok (reIntn (seRails V))" and "create_step V srv pc s = (pc', s')"
  shows "calls_left k (HCreate pc') + (if calls_provider k (HCreate pc) then 1 else 0)
    \<le> calls_left k (HCreate pc) + (if about_to_send k (HCreate pc) then registered_providers srv else 0)"
proof (cases pc)
  case (CSend req p)
  then show ?thesis
    using assms(2) selected_registered [OF assms(1)]
    by (auto simp: create_step_def calls_left_try calls_provider_def about_to_send_def split: option.splits prod.splits sum.splits)
next
  case (CTry req p ps result)
  then show ?thesis
    using assms(2)
    by (auto simp: create_step_def Let_def calls_left_try calls_provider_def split: list.splits prod.splits sum.splits if_splits)
next
  case (CNote req p q ps result res)
  then show ?thesis
    using assms(2) by (auto simp: create_step_def calls_left_try calls_provider_def split: prod.splits sum.splits if_splits)
qed (use assms(2) in \<open>auto simp: create_step_def calls_provider_def split: if_splits prod.splits sum.splits option.splits\<close>)

interpretation calling: spending "Intn_ok (reIntn (seRails V))" "handler_step V srv" starting
    "about_to_send k" "calls_provider k" "calls_left k" "registered_providers srv"
  for V :: "('c, 'p, 'd) service_env" and srv :: "'c payout_server" and k :: string
proof
  fix h h' :: "'c handler" and s s' :: "('p, 'd) service_state"
  show "starting h \<Longrightarrow> calls_left k h = 0"
    by (cases "(k, h)" rule: calls_left.cases) (auto simp: starting_def)
  assume ok: "Intn_ok (reIntn (seRails V))" and step: "handler_step V srv h s = (h', s')"
  show "calls_left k h' + (if calls_provider k h then 1 else 0)
      \<le> calls_left k h + (if about_to_send k h then registered_providers srv else 0)"
  proof (cases h)
    case (HCreate pc)
    then obtain pc' where "create_step V srv pc s = (pc', s')" "h' = HCreate pc'"
      using step by (auto simp: handler_step_def apfst_eq_iff)
    then show ?thesis using create_step_calls [OF ok] HCreate by blast
  qed (use step in \<open>auto simp: handler_step_def apfst_eq_iff calls_provider_def split: prod.splits\<close>)
qed

text \<open>
  Run alone, the handlers in steps are the handlers of the service: the interleavings below are
  of the same code.
\<close>

lemma handlers_in_steps:
  "run_alone (handler_step V srv) (enough_steps srv + n) (HCreate (CBegin req), s) =
     apfst (HCreate \<circ> CDone) (Service_CreatePayout V srv req s) \<and>
   run_alone (handler_step V srv) 3 (HCancel (XBegin i), s) = apfst (HCancel \<circ> XDone) (Service_CancelPayout V srv i s) \<and>
   run_alone (handler_step V srv) 3 (HApply (ABegin ref st), s) =
     apfst (HApply \<circ> ADone) (Service_ApplyProviderUpdate V ref st s)"
  by (simp add: create_alone cancel_alone apply_alone)

text \<open>
  C5: at any time. However the steps of any number of concurrent requests and provider reports are
  interleaved, and whatever the connection loses, the constraints of the tables and the one to one
  correspondence of keys and payouts hold in every state that is reached.
\<close>

theorem concurrent_invariant:
  assumes "service_together V srv s tr (hs, s')" and "service_inv (ssPg s)"
  shows "service_inv (ssPg s')"
  using service.run_inv [OF assms] by simp

text \<open>
  C1: no race sends twice. In any interleaving of any number of requests, at most one of those with a
  given idempotency key goes on to send a payout, also when they arrive at the same time; and all of
  them together call providers no more often than there are registered ones.
\<close>

theorem concurrent_send_at_most_once:
  assumes "service_together V srv s tr (hs, s')" and "service_inv (ssPg s)" and "Intn_ok (reIntn (seRails V))"
  shows "length (filter (moves_of (about_to_send k)) tr) \<le> 1 \<and>
    length (filter (moves_of (calls_provider k)) tr) \<le> registered_providers srv"
proof -
  have sends: "length (filter (moves_of (about_to_send k)) tr) \<le> 1"
    by (rule sending.acts_at_most_once [OF assms(1,2)])
  have "length (filter (moves_of (calls_provider k)) tr) \<le> registered_providers srv * length (filter (moves_of (about_to_send k)) tr)"
    using calling.spent [OF assms(3,1), of k] by simp
  also have "\<dots> \<le> registered_providers srv" using sends mult_le_mono2 [OF sends, of "registered_providers srv"] by simp
  finally show ?thesis using sends by simp
qed

lemma handler_step_kept:
  assumes "handler_step V srv h s = (h', s')" and "proper_handler h" and "service_inv (ssPg s)"
  shows "store_kept later_states (ssPg s) (ssPg s')"
  using assms(1,2)
proof (cases rule: handler_step_effect)
  case tables
  then show ?thesis using assms(3) by (intro store_kept_moved) (simp_all add: tables_step_def service_inv_def)
qed (rule store_kept_new)

text \<open>
  C6: what was agreed stays, at any time. In any interleaving of any requests and reports no payout
  disappears; each keeps its amount, currency, rail and creation time, and a payout whose state changes
  is from then on sent, completed, failed or canceled: no race makes it new again.
\<close>

theorem concurrent_history:
  assumes "service_together V srv s0 tr (hs, s)" and "service_inv (ssPg s0)"
    and "store_of (ssPg s0) i = Some p"
  shows "\<exists>p'. store_of (ssPg s) i = Some p' \<and> pAmountCents p' = pAmountCents p \<and> pCurrency p' = pCurrency p \<and>
    pRail p' = pRail p \<and> pCreatedAt p' = pCreatedAt p \<and>
    pState p' \<in> {pState p, ''sent'', ''completed'', ''failed'', ''canceled''}"
proof -
  have "store_kept later_states (ssPg s0) (ssPg (snd c))" if "service_together V srv s0 tr c" for c
    using that
  proof (induction rule: inter_run.induct)
    case (more tr c a c')
    note inv = service.run_inv [OF more.hyps(1) assms(2)]
    from more.hyps(2) show ?case
    proof cases
      case (move j hs s h' s')
      then have "proper_handler (hs ! j)" using inv by (simp add: list_all_length)
      from handler_step_kept [OF move(5) this] show ?thesis
        using more.IH inv move by (auto intro: store_kept_trans)
    next
      case (outside s s' hs)
      then have "store_kept later_states (ssPg s) (ssPg s')"
        using outside_tables inv by (intro store_kept_moved) (auto simp: tables_step_def service_inv_def)
      then show ?thesis using more.IH outside by (auto intro: store_kept_trans)
    qed (use more.IH in simp)
  qed simp
  from this [OF assms(1)] show ?thesis using assms(3) by (auto simp: store_kept_def kept_def)
qed

section \<open>What the interleavings allow\<close>

lemma find_ext_missing:
  assumes "reliable (sePg U)" and "tables_ok db" and "seParse U ref = None"
    and "\<And>j q. store_of db j = Some q \<Longrightarrow> pExternalID q \<noteq> Some ref"
  shows "\<exists>m db'. findPayoutByExternalIDOrID U ref db = (Inl (StatusError GrpcNotFound m), db') \<and> same_tables db db'"
proof -
  have "rExternalID r \<noteq> Some ref" if r: "r \<in> set (tbl_payouts db)" for r
  proof -
    have "store_of db (rID r) = Some (toDomainPayout r)"
      using tables_ok_find [OF assms(2), of "rID r" r] r by (simp add: store_of_def)
    from assms(4) [OF this] show ?thesis by (simp add: toDomainPayout_def)
  qed
  then have "find (\<lambda>r. rExternalID r = Some ref) (tbl_payouts db) = None" by (auto simp: find_None_iff)
  moreover obtain s' where "PayoutRepo_FindByExternalID (sePg U) ref db =
      (case find (\<lambda>r. rExternalID r = Some ref) (tbl_payouts db) of
         None \<Rightarrow> Inl ErrNotFound | Some r \<Rightarrow> Inr (toDomainPayout r), s')" and "same_tables db s'"
    by (rule repo_find_reliable [OF assms(1,2)])
  ultimately show ?thesis using assms(3) by (simp add: findPayoutByExternalIDOrID_def)
qed

text \<open>
  C22: a cancellation does not stop a creation that is under way. If a payout is cancelled after its
  transaction and before the provider is called, the client is told that the payout is cancelled; then
  the provider is called all the same, without the state being looked at again, and the update that
  records its answer makes the cancelled payout sent.
\<close>

theorem cancel_overwritten:
  assumes "reliable (sePg V)" and "tables_ok (ssPg s)"
    and "store_of (ssPg s) (pID p) = Some q" and "pState q = ''created''" and "pProvider q = []"
    and "seParse V t = Some (pID p)" and "t \<noteq> []"
    and "send_outcome V srv p (ssOrch s) = (u, dflt, o1)" and "upState u = ''sent''"
    and "upProvider u \<in> set db_providers"
    and "\<And>j q'. j \<noteq> pID p \<Longrightarrow> store_of (ssPg s) j = Some q' \<Longrightarrow> pExternalID q' \<noteq> upExternalID u"
  shows "\<exists>s1 s3 q1 q2.
    run_alone (handler_step V srv) 3 (HCancel (XBegin t), s) = (HCancel (XDone (Inr True)), s1) \<and>
    store_of (ssPg s1) (pID p) = Some q1 \<and> pState q1 = ''canceled'' \<and>
    run_alone (handler_step V srv) (enough_steps srv) (HCreate (CSend req p), s1) = (HCreate (CDone (create_answer V q2)), s3) \<and>
    ssOrch s3 = o1 \<and> store_of (ssPg s3) (pID p) = Some q2 \<and> pState q2 = ''sent''"
proof -
  obtain res s1 where run: "Service_CancelPayout V srv t s = (res, s1)" by (metis prod.collapse)
  have "res = Inr True \<and> ssOrch s1 = ssOrch s \<and>
      (\<exists>m. store_of (ssPg s1) = (store_of (ssPg s))(pID p \<mapsto> q\<lparr>pState := ''canceled'', pUpdatedAt := m\<rparr>))"
    using CancelPayout_reliable [OF assms(1,2,7,6), of srv] run assms(3-5)
    by (simp add: Let_def split: option.splits)
  then obtain m where res: "res = Inr True" and o1: "ssOrch s1 = ssOrch s"
    and st: "store_of (ssPg s1) = (store_of (ssPg s))(pID p \<mapsto> q\<lparr>pState := ''canceled'', pUpdatedAt := m\<rparr>)"
    by blast
  have ok1: "tables_ok (ssPg s1)"
    using CancelPayout_step(1) [OF run] assms(2) by (simp add: db_le_def)
  have q1: "store_of (ssPg s1) (pID p) = Some (q\<lparr>pState := ''canceled'', pUpdatedAt := m\<rparr>)" by (simp add: st)
  have st_u: "upState u \<in> set db_states" using assms(9) by (simp add: db_states_def)
  have free: "j \<noteq> pID p \<Longrightarrow> store_of (ssPg s1) j = Some q' \<Longrightarrow> pExternalID q' \<noteq> upExternalID u" for j q'
    using assms(11) by (simp add: st)
  let ?q2 = "\<lambda>m2. q\<lparr>pState := ''sent'', pProvider := upProvider u, pExternalID := upExternalID u, pUpdatedAt := m2\<rparr>"
  obtain db m2 where upd: "PayoutRepo_UpdatePayoutState (sePg V) (pID p) u (ssPg s1) = (Inr (?q2 m2), db)"
    and st2: "store_of db (pID p) = Some (?q2 m2)"
    by (rule repo_update_reliable [OF assms(1) ok1 q1 st_u]) (use assms(9,10) free in auto)
  have "run_alone (handler_step V srv) 3 (HCancel (XBegin t), s) = (HCancel (XDone (Inr True)), s1)"
    by (simp add: cancel_alone run res)
  moreover have sent: "sendPayoutWithOrchestrator V srv p s1 = (?q2 m2, \<lparr>ssPg = db, ssOrch = o1\<rparr>)"
    using sendPayout_outcome [of V srv p s1 u dflt o1 "Inr (?q2 m2)" db] assms(8) upd by (simp add: o1)
  have "run_alone (handler_step V srv) (enough_steps srv) (HCreate (CSend req p), s1) =
      (HCreate (CDone (create_answer V (?q2 m2))), \<lparr>ssPg = db, ssOrch = o1\<rparr>)"
  proof -
    obtain j where j: "j + 1 \<le> enough_steps srv"
      "run_alone (handler_step V srv) j (HCreate (CSend req p), s1) =
        (HCreate (CDone (create_answer V (?q2 m2))), \<lparr>ssPg = db, ssOrch = o1\<rparr>)"
      using send_and_record [OF sent, of req] by blast
    have "answered (HCreate (CDone (create_answer V (?q2 m2))))" by (simp add: answered_def)
    from alone_done [OF j(2) this] show ?thesis using j(1) by simp
  qed
  ultimately show ?thesis using q1 st2
    by (intro exI [of _ s1] exI [of _ "\<lparr>ssPg = db, ssOrch = o1\<rparr>"] exI [of _ "q\<lparr>pState := ''canceled'', pUpdatedAt := m\<rparr>"]
        exI [of _ "?q2 m2"]) simp
qed

text \<open>
  C21: a provider report that comes early is lost. If Stripe's event arrives between the provider's
  answer and the update that records the external id, the orchestrator does not find the payout, the
  webhook service answers 500 and has marked the event; the update makes the payout sent; and however
  often Stripe delivers the event again, within the TTL, each redelivery counts as a duplicate (or the
  deduplication fails), is not forwarded, and leaves the orchestrator to what others do.
\<close>

theorem early_webhook_lost:
  assumes "reliable (sePg U)" and "tables_ok (ssPg (wsOrch s))"
    and V: "weApplyProviderUpdate V = orchestrator_peer U"
    and win: "in_window (weRedis V) (whTTL h) t0"
    and first: "accepted V h r = Some pe"
      "fst (IsProcessed (weRedis V) (whTTL h) (peEventID pe) (wsRedis s)) = Inr False"
    and again: "list_all (carries_event V h (peEventID pe)) (map fst rs)"
    and pending: "store_of (ssPg (wsOrch s)) (pID p) = Some q" "upState u = ''sent''"
      "upProvider u \<in> set db_providers" "upExternalID u = Some (peExternalID pe)"
    and unknown: "\<And>j q'. store_of (ssPg (wsOrch s)) j = Some q' \<Longrightarrow> pExternalID q' \<noteq> Some (peExternalID pe)"
      "seParse U (peExternalID pe) = None"
  shows "let (resp, s1) = Webhook_ServeHTTP V h r s;
      (pc, o2) = create_step U srv (CRecord p u dflt) (wsOrch s1);
      (outs, s3) = deliver V h rs (s1\<lparr>wsOrch := o2\<rparr>)
    in resp = http_error 500 ''forward failed'' \<and>
      (\<exists>q2. pc = CDone (create_answer U q2) \<and> store_of (ssPg o2) (pID p) = Some q2 \<and> pState q2 = ''sent'') \<and>
      length outs = length rs \<and> (\<forall>i < length rs. stopped V h (peEventID pe) (fst (rs ! i)) (outs ! i)) \<and>
      wsOrch s3 = others_only rs o2"
proof -
  obtain resp s1 where h1: "Webhook_ServeHTTP V h r s = (resp, s1)" by (metis prod.collapse)
  obtain m db where miss: "findPayoutByExternalIDOrID U (peExternalID pe) (ssPg (wsOrch s)) = (Inl (StatusError GrpcNotFound m), db)"
    and same: "same_tables (ssPg (wsOrch s)) db"
    using find_ext_missing [OF assms(1,2) unknown(2)] unknown(1) by blast
  have ext: "peExternalID pe \<noteq> []"
    using accepted_checks [OF first(1)] Parse_fields extractExternalID_nonempty by blast
  have fwd: "forwardToOrchestrator V pe (wsOrch s) =
      (Some (ErrWrap ''apply provider update'' (StatusError GrpcNotFound m)), (wsOrch s)\<lparr>ssPg := db\<rparr>)"
    by (simp add: forwardToOrchestrator_def V orchestrator_peer_def Service_ApplyProviderUpdate_def ext miss)
  have resp: "resp = http_error 500 ''forward failed''" and o1: "wsOrch s1 = (wsOrch s)\<lparr>ssPg := db\<rparr>"
    using h1 first(2) fwd by (auto simp: ServeHTTP_accepted [OF first(1)] split: prod.splits)
  have mark: "marked_until (whTTL h) t0 (wsRedis s1) (peEventID pe)"
    using new_event_marked [OF win first] h1 by simp
  have st1: "store_of db = store_of (ssPg (wsOrch s))" by (rule same_tables_store [OF same])
  have ok1: "tables_ok db" using same_tables_db_le [OF same] assms(2) by (simp add: db_le_def)
  have q1: "store_of db (pID p) = Some q" using pending(1) by (simp add: st1)
  have st_u: "upState u \<in> set db_states" using pending(2) by (simp add: db_states_def)
  have free: "j \<noteq> pID p \<Longrightarrow> store_of db j = Some q' \<Longrightarrow> pExternalID q' \<noteq> upExternalID u" for j q'
    using unknown(1) pending(4) by (simp add: st1)
  obtain db2 m2 where upd: "PayoutRepo_UpdatePayoutState (sePg U) (pID p) u db =
      (Inr (q\<lparr>pState := ''sent'', pProvider := upProvider u, pExternalID := upExternalID u, pUpdatedAt := m2\<rparr>), db2)"
    and st2: "store_of db2 (pID p) = Some (q\<lparr>pState := ''sent'', pProvider := upProvider u,
        pExternalID := upExternalID u, pUpdatedAt := m2\<rparr>)"
    by (rule repo_update_reliable [OF assms(1) ok1 q1 st_u]) (use pending free in auto)
  have rec: "create_step U srv (CRecord p u dflt) (wsOrch s1) = (CDone (create_answer U
      (q\<lparr>pState := ''sent'', pProvider := upProvider u, pExternalID := upExternalID u, pUpdatedAt := m2\<rparr>)),
      (wsOrch s)\<lparr>ssPg := db2\<rparr>)"
    by (simp add: create_step_def o1 upd)
  let ?s2 = "s1\<lparr>wsOrch := (wsOrch s)\<lparr>ssPg := db2\<rparr>\<rparr>"
  obtain outs s3 where d: "deliver V h rs ?s2 = (outs, s3)" by (metis prod.collapse)
  have "marked_until (whTTL h) t0 (wsRedis ?s2) (peEventID pe)" using mark by simp
  note lost = marked_event_lost [OF win this d]
  have "carries_event V h (peEventID pe) (fst (rs ! i))" if "i < length rs" for i
    using again that by (simp add: list_all_length)
  then show ?thesis using h1 rec resp st2 d lost again by (simp add: Let_def)
qed


section \<open>Witnesses\<close>

abbreviation demo_post :: "nat handler" where
  "demo_post \<equiv> HCreate (CBegin (demo_request ''h''))"

lemma demo_empty_inv: "service_inv (ssPg demo_empty)"
  by (simp add: service_inv_def demo_empty_def tables_ok_def rows_ok_def)

text \<open>Two requests with one key arrive; the first commits its transaction and calls the provider.\<close>

definition demo_trace :: "nat handler activity list \<times> (nat handler list \<times> (unit, uuid) service_state)" where
  "demo_trace = apfst (append [Arrives, Arrives])
     (run_trace (handler_step demo_service (Some demo_stripe)) [0, 0, 1] ([demo_post, demo_post], demo_empty))"

lemma demo_interleaving:
  "service_together demo_service (Some demo_stripe) demo_empty (fst demo_trace) (fst (snd demo_trace), snd (snd demo_trace))"
  using scheduled_run [of starting "[demo_post, demo_post]" "handler_step demo_service (Some demo_stripe)"
      outside_world demo_empty "[0, 0, 1]"]
  by (simp add: demo_trace_def starting_def)

theorem concurrent_invariant_witness: "service_inv (ssPg (snd (snd demo_trace)))"
  by (rule concurrent_invariant [OF demo_interleaving demo_empty_inv])

theorem concurrent_send_at_most_once_witness:
  "length (filter (moves_of (about_to_send ''k'')) (fst demo_trace)) \<le> 1 \<and>
   length (filter (moves_of (calls_provider ''k'')) (fst demo_trace)) \<le> registered_providers (Some demo_stripe)"
proof -
  have "Intn_ok (reIntn (seRails demo_service))" by (simp add: Intn_ok_def demo_service_def demo_rails_def)
  from concurrent_send_at_most_once [OF demo_interleaving demo_empty_inv this] show ?thesis .
qed

definition demo_created_row :: payout_row where
  "demo_created_row = \<lparr>rID = 1, rState = ''created'', rAmountCents = 100, rCurrency = ''USD'', rRail = ''card'',
     rProvider = None, rExternalID = None, rCreatedAt = 3, rUpdatedAt = 3\<rparr>"

definition demo_created :: "(unit, uuid) service_state" where
  "demo_created = \<lparr>ssPg = \<lparr>tbl_payouts = [demo_created_row], tbl_keys = [demo_key], pg_world = 2\<rparr>,
     ssOrch = demo_orch_state\<rparr>"

definition demo_record :: update_payout_params where
  "demo_record = \<lparr>upState = ''sent'', upExternalID = Some ''ext-1'', upProvider = ''stripe''\<rparr>"

lemma demo_created_ok: "tables_ok (ssPg demo_created)"
  by (simp add: tables_ok_def rows_ok_def row_checks_def demo_created_def demo_created_row_def demo_key_def
      db_states_def db_rails_def db_providers_def)

lemma demo_created_store:
  "store_of (ssPg demo_created) j = (if j = 1 then Some (toDomainPayout demo_created_row) else None)"
  by (simp add: store_of_def demo_created_def demo_created_row_def)

lemma demo_send_outcome:
  "fst (send_outcome demo_service (Some demo_stripe) (toDomainPayout demo_created_row) (ssOrch demo_created)) = demo_record"
  by code_simp

theorem cancel_overwritten_witness:
  "fst (run_alone (handler_step demo_service (Some demo_stripe)) 3 (HCancel (XBegin ''1''), demo_created)) =
     HCancel (XDone (Inr True))"
proof -
  let ?p = "toDomainPayout demo_created_row"
  obtain dflt o1 where out: "send_outcome demo_service (Some demo_stripe) ?p (ssOrch demo_created) = (demo_record, dflt, o1)"
    using demo_send_outcome by (metis prod.collapse)
  have "pID ?p = 1" "pState ?p = ''created''" "pProvider ?p = []" by (simp_all add: demo_created_row_def)
  moreover have "seParse demo_service ''1'' = Some 1" by (simp add: demo_service_def)
  moreover have "upProvider demo_record \<in> set db_providers" "upState demo_record = ''sent''"
    by (simp_all add: demo_record_def db_providers_def)
  ultimately show ?thesis
    using cancel_overwritten [OF demo_reliable demo_created_ok, of ?p ?p "''1''" "Some demo_stripe" demo_record dflt o1 "demo_request ''h''"]
    by (auto simp: demo_created_store out)
qed

theorem early_webhook_lost_witness:
  "fst (Webhook_ServeHTTP (demo_webhook (orchestrator_peer demo_service)) demo_handler (demo_delivery ''good'')
     (demo_webhook_state demo_created)) = http_error 500 ''forward failed''"
proof -
  let ?V = "demo_webhook (orchestrator_peer demo_service)" and ?s = "demo_webhook_state demo_created"
  let ?p = "toDomainPayout demo_created_row"
  have s: "wsOrch ?s = demo_created" by (simp add: demo_webhook_state_def)
  have "tables_ok (ssPg (wsOrch ?s))" using demo_created_ok by (simp add: s)
  moreover have "weApplyProviderUpdate ?V = orchestrator_peer demo_service" by (simp add: demo_webhook_def)
  moreover have "store_of (ssPg (wsOrch ?s)) (pID ?p) = Some ?p"
    by (simp only: s demo_created_store) (simp add: demo_created_row_def)
  moreover have "upState demo_record = ''sent''" "upProvider demo_record \<in> set db_providers"
    "upExternalID demo_record = Some ''ext-1''"
    by (simp_all add: demo_record_def db_providers_def)
  moreover have "store_of (ssPg (wsOrch ?s)) j = Some q' \<Longrightarrow> pExternalID q' \<noteq> Some ''ext-1''" for j q'
    by (auto simp: s demo_created_store toDomainPayout_def demo_created_row_def split: if_splits)
  moreover have "seParse demo_service ''ext-1'' = None" by (simp add: demo_service_def)
  moreover have "list_all (carries_event ?V demo_handler ''evt_1'') (map fst [(demo_delivery ''good'', id)])"
    by (simp add: demo_carries)
  ultimately show ?thesis
    using early_webhook_lost [OF demo_reliable, of ?s ?V demo_handler 0 "demo_delivery ''good''" _
        "[(demo_delivery ''good'', id)]" ?p ?p demo_record "Some demo_stripe" ?p, OF _ _ demo_in_window demo_accepted]
      demo_new [of "orchestrator_peer demo_service" "''evt_1''" demo_created]
    by (auto simp: Let_def split: prod.splits)
qed

text \<open>A payout that was created is canceled while its request is repeated.\<close>

lemma demo_created_inv: "service_inv (ssPg demo_created)"
  using demo_created_ok by (simp add: service_inv_def demo_created_def demo_created_row_def demo_key_def)

definition demo_cancel_trace :: "nat handler activity list \<times> (nat handler list \<times> (unit, uuid) service_state)" where
  "demo_cancel_trace = apfst (append [Arrives, Arrives])
     (run_trace (handler_step demo_service (Some demo_stripe)) [0, 1, 0, 0] ([HCancel (XBegin ''1''), demo_post], demo_created))"

theorem concurrent_history_witness:
  "\<exists>p'. store_of (ssPg (snd (snd demo_cancel_trace))) 1 = Some p' \<and> pAmountCents p' = 100"
proof -
  have run: "service_together demo_service (Some demo_stripe) demo_created (fst demo_cancel_trace)
      (fst (snd demo_cancel_trace), snd (snd demo_cancel_trace))"
    using scheduled_run [of starting "[HCancel (XBegin ''1''), demo_post]" "handler_step demo_service (Some demo_stripe)"
        outside_world demo_created "[0, 1, 0, 0]"]
    by (simp add: demo_cancel_trace_def starting_def)
  show ?thesis
    using concurrent_history [OF run demo_created_inv, of 1 "toDomainPayout demo_created_row"]
    by (auto simp: demo_created_store demo_created_row_def)
qed

section \<open>Every request comes to an end\<close>

text \<open>How many steps a handler still makes at most.\<close>

fun steps_left :: "'c payout_server \<Rightarrow> 'c handler \<Rightarrow> nat" where
  "steps_left srv (HCreate (CBegin req)) = enough_steps srv"
| "steps_left srv (HCreate (CSend req p)) = enough_steps srv - 1"
| "steps_left srv (HCreate (CTry req p ps result)) = 1 + max 1 (2 * length ps)"
| "steps_left srv (HCreate (CNote req p q ps result res)) = 2 + 2 * length ps"
| "steps_left srv (HCreate (CFetch i)) = 1"
| "steps_left srv (HCreate (CRecord p u dflt)) = 1"
| "steps_left srv (HCancel (XBegin i)) = 3"
| "steps_left srv (HCancel (XAsk i p)) = 2"
| "steps_left srv (HCancel (XUpdate i)) = 1"
| "steps_left srv (HApply (ABegin ref st)) = 3"
| "steps_left srv (HApply (AFindID ref i st)) = 2"
| "steps_left srv (HApply (AUpdate i u)) = 1"
| "steps_left srv (HGet i) = 1"
| "steps_left srv h = 0"

lemma steps_left_answered: "steps_left srv h = 0 \<longleftrightarrow> answered h"
  using enough_steps_3 [of srv] by (cases "(srv, h)" rule: steps_left.cases) (auto simp: answered_def)

lemma steps_left_bound: "starting h \<Longrightarrow> steps_left srv h \<le> enough_steps srv"
  using enough_steps_3 [of srv] by (cases "(srv, h)" rule: steps_left.cases) (auto simp: starting_def)

lemma steps_left_found: "steps_left srv (HApply (apply_found p st)) \<le> 1"
  by (auto simp: apply_found_def split: sum.split)

lemma steps_left_try: "steps_left srv (HCreate (try_next req p ps result)) \<le> 1 + 2 * length ps"
  by (cases ps) (simp_all add: try_next_def)

lemma create_step_left:
  assumes "create_step V srv pc s = (pc', s')"
  shows "steps_left srv (HCreate pc') \<le> steps_left srv (HCreate pc) - 1"
proof (cases pc)
  case (CSend req p)
  have 3: "3 \<le> enough_steps srv" by (rule enough_steps_3)
  show ?thesis
  proof (cases srv)
    case None
    then show ?thesis using assms CSend 3 by (auto simp: create_step_def)
  next
    case (Some orc)
    obtain sel w where sel: "SelectProviders (reIntn (seRails V)) (orRouter orc) (osTracker (ssOrch s)) (pRail p)
        (orRoutingAlgo orc) (osRails (ssOrch s)) = (sel, w)" by (metis prod.collapse)
    show ?thesis
    proof (cases sel)
      case (Inl err)
      then show ?thesis using assms CSend Some sel 3 by (auto simp: create_step_def)
    next
      case (Inr ps)
      then show ?thesis
        using assms CSend Some sel selected_enough [OF sel [unfolded Inr]] steps_left_try [of srv req p ps empty_result]
        by (auto simp: create_step_def)
    qed
  qed
next
  case (CTry req p ps result)
  then show ?thesis using assms by (auto simp: create_step_def split: list.splits prod.splits)
next
  case (CNote req p q ps result res)
  then show ?thesis using assms steps_left_try [of srv req p ps result]
    by (auto simp: create_step_def split: prod.splits sum.splits if_splits)
qed (use assms enough_steps_3 [of srv] in
  \<open>auto simp: create_step_def split: if_splits prod.splits sum.splits option.splits\<close>)

lemma handler_step_left:
  assumes "handler_step V srv h s = (h', s')"
  shows "steps_left srv h' \<le> steps_left srv h - 1"
proof (cases h)
  case (HCreate pc)
  then show ?thesis using assms create_step_left by (auto simp: handler_step_def apfst_eq_iff)
next
  case (HCancel pc)
  then show ?thesis using assms
    by (cases pc) (auto simp: handler_step_def cancel_step_def split: if_splits prod.splits sum.splits option.splits)
next
  case (HApply pc)
  have "steps_left srv (HApply (apply_found p st)) \<le> Suc 0" for p st using steps_left_found [of srv p st] by simp
  then show ?thesis using assms HApply
    by (cases pc) (auto simp: handler_step_def apply_step_def le_SucI numeral_2_eq_2
        split: if_splits prod.splits sum.splits option.splits)
qed (use assms in \<open>auto simp: handler_step_def apfst_eq_iff\<close>)

interpretation service: ending "handler_step V srv" starting "steps_left srv" "enough_steps srv"
  for V :: "('c, 'p, 'd) service_env" and srv :: "'c payout_server"
  by unfold_locales (use steps_left_bound handler_step_left in blast)+

lemma working: "(\<lambda>h. 0 < steps_left srv h) = (\<lambda>h. \<not> answered h)"
  using steps_left_answered by (metis neq0_conv)

text \<open>
  C19: every request is answered. In any interleaving, whatever the database and the providers do and
  however many other requests there are, each single request makes at most five steps of its own and two
  for each registered provider until it is answered, the next one included if it still waits; one that
  has been given so many steps is answered.
\<close>

theorem handlers_terminate:
  assumes "service_together V srv s tr (hs, s')" and "i < length hs"
  shows "length (filter (\<lambda>a. moves_by i a \<and> moves_of (\<lambda>h. \<not> answered h) a) tr) + (if answered (hs ! i) then 0 else 1)
      \<le> enough_steps srv \<and>
    (enough_steps srv \<le> length (filter (moves_by i) tr) \<longrightarrow> answered (hs ! i))"
proof
  have "(0 < steps_left srv h) = (\<not> answered h)" for h by (metis working)
  then show "length (filter (\<lambda>a. moves_by i a \<and> moves_of (\<lambda>h. \<not> answered h) a) tr) + (if answered (hs ! i) then 0 else 1)
      \<le> enough_steps srv"
    using service.ends(1) [OF assms] by (auto simp: working)
  show "enough_steps srv \<le> length (filter (moves_by i) tr) \<longrightarrow> answered (hs ! i)"
    using service.ends(2) [OF assms] by (simp add: steps_left_answered)
qed

theorem handlers_terminate_witness:
  "length (filter (\<lambda>a. moves_by 0 a \<and> moves_of (\<lambda>h. \<not> answered h) a) (fst demo_trace)) +
     (if answered (fst (snd demo_trace) ! 0) then 0 else 1) \<le> 7"
proof -
  have "length (fst (snd demo_trace)) = 2" "enough_steps (Some demo_stripe) = 7" by code_simp+
  then show ?thesis using handlers_terminate [OF demo_interleaving, of 0] by simp
qed

end
