(* ===== verification/Boot.thy ===== *)
theory Boot
  imports Providers Orchestrator Webhook
begin

text \<open>
  What start-up builds from the configuration: \<open>internal/config/config.go\<close> and \<open>cmd/server/main.go\<close>
  of the orchestrator and of the webhook service. Reading a file and decoding YAML are parameters;
  connections, listeners and shutdown are in theory Startup.
\<close>

section \<open>The orchestrator's configuration\<close>

record stripe_section =
  sgAPIKey :: string
  sgMaxRetries :: int
  sgTimeoutSeconds :: int

record provider_entry =
  enName :: string
  enActive :: bool
  enWeight :: int

record orchestrator_config =
  ocEnv :: string
  ocLogLevel :: string
  ocGRPCAddr :: string
  ocHTTPAddr :: string
  ocShutdownTimeout :: int
  ocDatabaseURL :: string
  ocStripe :: stripe_section
  ocCard :: "provider_entry list"
  ocCrypto :: "provider_entry list"
  ocMinSamples :: int

definition orchestrator_defaults :: orchestrator_config where
  "orchestrator_defaults =
     \<lparr>ocEnv = ''development'', ocLogLevel = ''info'', ocGRPCAddr = '':50051'', ocHTTPAddr = '':8081'',
      ocShutdownTimeout = 10 * 10 ^ 9, ocDatabaseURL = [],
      ocStripe = \<lparr>sgAPIKey = [], sgMaxRetries = 0, sgTimeoutSeconds = 0\<rparr>,
      ocCard = [], ocCrypto = [], ocMinSamples = 0\<rparr>"

text \<open>
  \<open>Load\<close>: \<open>os.ReadFile\<close> and \<open>yaml.Unmarshal\<close>, which fills in a configuration that holds the
  defaults, are arguments.
\<close>

definition load_config ::
    "(string \<Rightarrow> string result) \<Rightarrow> (string \<Rightarrow> 'c \<Rightarrow> 'c result) \<Rightarrow> 'c \<Rightarrow> string \<Rightarrow> 'c result" where
  "load_config read_file unmarshal defaults path =
     (case read_file path of
        Inl err \<Rightarrow> Inl (ErrWrap (''read config '' @ path) err)
      | Inr data \<Rightarrow>
          (case unmarshal data defaults of
             Inl err \<Rightarrow> Inl (ErrWrap (''parse config '' @ path) err)
           | Inr cfg \<Rightarrow> Inr cfg))"

definition orchestrator_Load ::
    "(string \<Rightarrow> string result) \<Rightarrow> (string \<Rightarrow> orchestrator_config \<Rightarrow> orchestrator_config result) \<Rightarrow> string \<Rightarrow>
     orchestrator_config result" where
  "orchestrator_Load read_file unmarshal = load_config read_file unmarshal orchestrator_defaults"

section \<open>Registration of the providers\<close>

text \<open>\<open>&mockprovider.Provider{}\<close>, and Stripe's client from the configuration.\<close>

definition zero_mock :: mock_provider where
  "zero_mock = \<lparr>mpSendErr = None, mpCancelErr = None\<rparr>"

definition configured_stripe :: "int \<Rightarrow> orchestrator_config \<Rightarrow> stripe_client" where
  "configured_stripe DefaultMaxNetworkRetries cfg =
     Stripe_New DefaultMaxNetworkRetries
       \<lparr>scAPIKey = sgAPIKey (ocStripe cfg), scMaxRetries = sgMaxRetries (ocStripe cfg),
        scTimeoutSeconds = sgTimeoutSeconds (ocStripe cfg), scBaseURL = []\<rparr>"

definition register_card :: "int \<Rightarrow> orchestrator_config \<Rightarrow> provider_entry \<Rightarrow> client registry \<Rightarrow> client registry" where
  "register_card retries cfg p r =
     (if enName p = ''stripe''
      then RegisterWithMeta ''card'' (StripeClient (configured_stripe retries cfg))
             \<lparr>mProvider = ''stripe'', mIsActive = enActive p, mWeight = enWeight p\<rparr> r
      else if enName p = ''mock_card''
      then RegisterWithMeta ''card'' (MockClient zero_mock)
             \<lparr>mProvider = ''mock_card'', mIsActive = enActive p, mWeight = enWeight p\<rparr> r
      else r)"

definition register_crypto :: "provider_entry \<Rightarrow> client registry \<Rightarrow> client registry" where
  "register_crypto p r =
     (if enName p = ''crypto_sim''
      then RegisterWithMeta ''crypto'' (MockClient zero_mock)
             \<lparr>mProvider = ''crypto_sim'', mIsActive = enActive p, mWeight = enWeight p\<rparr> r
      else r)"

definition boot_registry :: "int \<Rightarrow> orchestrator_config \<Rightarrow> client registry" where
  "boot_registry retries cfg =
     fold register_crypto (ocCrypto cfg) (fold (register_card retries cfg) (ocCard cfg) NewRegistry)"

text \<open>The routing algorithm is fixed to priority; the registry is shared with the router.\<close>

definition boot_orchestrator :: "int \<Rightarrow> orchestrator_config \<Rightarrow> client orchestrator" where
  "boot_orchestrator retries cfg =
     (let registry = boot_registry retries cfg;
          minSamples = (if ocMinSamples cfg = 0 then 10 else ocMinSamples cfg);
          router = provider_NewRouter registry minSamples
      in NewOrchestrator registry router RoutingPriority)"

text \<open>The calls of the running orchestrator: its clients over the Stripe SDK, and the world around.\<close>

definition boot_rails ::
    "(uuid \<Rightarrow> string) \<Rightarrow> 'p stripe_sdk \<Rightarrow> (int \<Rightarrow> 'p \<Rightarrow> int \<times> 'p) \<Rightarrow> ('p \<Rightarrow> go_time \<times> 'p) \<Rightarrow>
     (rail list \<Rightarrow> 'p \<Rightarrow> rail list \<times> 'p) \<Rightarrow> (client, 'p) rails_env" where
  "boot_rails uuid_string sdk intn now map_order =
     \<lparr>reSendPayout = Client_SendPayout uuid_string sdk, reCancelPayout = Client_CancelPayout sdk,
      reIntn = intn, reNow = now, reMapOrder = map_order\<rparr>"

section \<open>The webhook service\<close>

record webhook_config =
  wcEnv :: string
  wcLogLevel :: string
  wcHTTPAddr :: string
  wcReadTimeout :: int
  wcReadHeaderTimeout :: int
  wcWriteTimeout :: int
  wcIdleTimeout :: int
  wcShutdownTimeout :: int
  wcStripeWebhookSecret :: string
  wcRedisAddr :: string
  wcRedisPassword :: string
  wcOrchestratorAddr :: string

definition webhook_defaults :: webhook_config where
  "webhook_defaults =
     \<lparr>wcEnv = ''development'', wcLogLevel = ''info'', wcHTTPAddr = '':8082'', wcReadTimeout = 5 * 10 ^ 9,
      wcReadHeaderTimeout = 2 * 10 ^ 9, wcWriteTimeout = 10 * 10 ^ 9, wcIdleTimeout = 30 * 10 ^ 9,
      wcShutdownTimeout = 10 * 10 ^ 9, wcStripeWebhookSecret = [], wcRedisAddr = [], wcRedisPassword = [],
      wcOrchestratorAddr = ''localhost:9090''\<rparr>"

definition webhook_Load ::
    "(string \<Rightarrow> string result) \<Rightarrow> (string \<Rightarrow> webhook_config \<Rightarrow> webhook_config result) \<Rightarrow> string \<Rightarrow>
     webhook_config result" where
  "webhook_Load read_file unmarshal = load_config read_file unmarshal webhook_defaults"

text \<open>
  \<open>NewRouter\<close>'s handler: the configured secret, and the deduplicator with the default TTL. Without a
  Redis address there is no Redis client, and the first event that reaches the deduplication panics
  on the nil interface; theory WebhookRouter has that case.
\<close>

definition boot_webhook :: "webhook_config \<Rightarrow> webhook_handler" where
  "boot_webhook cfg = \<lparr>whSecret = wcStripeWebhookSecret cfg, whTTL = dedup_NewService 0\<rparr>"

section \<open>What is registered\<close>

definition card_entry :: "int \<Rightarrow> orchestrator_config \<Rightarrow> provider_entry \<Rightarrow> client provider_with_meta" where
  "card_entry retries cfg p =
     \<lparr>pwClient = (if enName p = ''stripe'' then StripeClient (configured_stripe retries cfg) else MockClient zero_mock),
      pwMeta = \<lparr>mProvider = enName p, mIsActive = enActive p, mWeight = enWeight p\<rparr>\<rparr>"

lemma fold_card:
  "GetProviders rl (fold (register_card retries cfg) ps r) =
     GetProviders rl r @ (if rl = ''card''
       then map (card_entry retries cfg) (filter (\<lambda>p. enName p \<in> {''stripe'', ''mock_card''} \<and> enActive p) ps) else [])"
proof (induction ps arbitrary: r)
  case (Cons p ps)
  show ?case
    using Cons [of "register_card retries cfg p r"]
    by (auto simp: register_card_def GetProviders_RegisterWithMeta card_entry_def)
qed simp

lemma fold_crypto:
  "GetProviders rl (fold register_crypto ps r) =
     GetProviders rl r @ (if rl = ''crypto''
       then map (\<lambda>p. \<lparr>pwClient = MockClient zero_mock,
           pwMeta = \<lparr>mProvider = ''crypto_sim'', mIsActive = enActive p, mWeight = enWeight p\<rparr>\<rparr>)
         (filter (\<lambda>p. enName p = ''crypto_sim'' \<and> enActive p) ps) else [])"
proof (induction ps arbitrary: r)
  case (Cons p ps)
  show ?case
    using Cons [of "register_crypto p r"]
    by (auto simp: register_crypto_def GetProviders_RegisterWithMeta)
qed simp

lemma boot_card_providers:
  "GetProviders ''card'' (boot_registry retries cfg) = map (card_entry retries cfg)
     (filter (\<lambda>p. enName p \<in> {''stripe'', ''mock_card''} \<and> enActive p) (ocCard cfg))"
  by (simp add: boot_registry_def fold_crypto fold_card) (simp add: GetProviders_def NewRegistry_def)

end
