(* ===== verification/BootFacts.thy ===== *)
theory BootFacts
  imports Boot ServiceProps
begin

text \<open>
  What the orchestrator that start-up builds does: registration order is priority, and a card payout in
  the shipped local configuration, composed from the configuration down to the stored row.
\<close>


section \<open>A card payout in the local deployment\<close>

definition known_card :: "provider_entry \<Rightarrow> bool" where
  "known_card p \<longleftrightarrow> enName p \<in> {''stripe'', ''mock_card''} \<and> enActive p"

text \<open>What Stripe answers to the payment of a payout with an amount and a currency.\<close>

definition stripe_answer :: "'p stripe_sdk \<Rightarrow> stripe_client \<Rightarrow> int \<Rightarrow> string \<Rightarrow> 'p \<Rightarrow> string result" where
  "stripe_answer sdk c amount currency w =
     fst (PaymentIntents_Create sdk c
       \<lparr>piAmount = amount, piCurrency = currency, piPaymentMethodTypes = [''card''],
        piPaymentMethod = ''pm_card_visa'', piConfirm = True, piOffSession = True\<rparr> w)"

lemma boot_send:
  assumes cards: "filter known_card (ocCard cfg) = [a, b]" "enName a = ''stripe''" "enName b = ''mock_card''"
    and "pRail p = ''card''"
  shows "fst (SendPayoutWithFallback (boot_rails us sdk intn now order) (boot_orchestrator retries cfg) p o0) =
    (case stripe_answer sdk (configured_stripe retries cfg) (pAmountCents p) (pCurrency p) (osRails o0) of
       Inr x \<Rightarrow> \<lparr>srExternalID = x, srUsedProvider = ''stripe'', srTriedProviders = [''stripe''], srSuccess = True\<rparr>
     | Inl err \<Rightarrow>
         if isRetryable (classifyError err)
         then \<lparr>srExternalID = ''mock-ext-'' @ us (pID p), srUsedProvider = ''mock_card'',
               srTriedProviders = [''stripe'', ''mock_card''], srSuccess = True\<rparr>
         else \<lparr>srExternalID = [], srUsedProvider = [], srTriedProviders = [''stripe''], srSuccess = False\<rparr>)"
proof -
  have g: "GetProviders ''card'' (boot_registry retries cfg) =
      [card_entry retries cfg a, card_entry retries cfg b]"
    using cards(1) by (simp add: boot_card_providers known_card_def [abs_def])
  show ?thesis
    using assms
    by (simp add: SendPayoutWithFallback_def SelectProviders_def boot_orchestrator_def NewOrchestrator_def provider_NewRouter_def Let_def g boot_rails_def
        card_entry_def Stripe_SendPayout_def stripe_answer_def Mock_SendPayout_def zero_mock_def empty_result_def
        split: prod.split sum.split)
qed

text \<open>
  C23: what happens to a card payout in the local deployment (Stripe first, the mock provider as its
  fallback), from the request over routing, the Stripe client and the fallback to the stored row. If
  Stripe accepts, only Stripe is asked and the payout is sent with Stripe's id. If Stripe refuses for
  good, the mock provider is not asked and the payout has failed. If Stripe fails in a way that may be
  retried, the mock provider is asked next and accepts with its own id, the database refuses to record
  that provider, and the payout stays created although the caller was answered.
\<close>

theorem local_deployment_card:
  assumes "reliable (sePg V)" and "tables_ok (ssPg s)" and "storable (sePg V) req (ssPg s)"
    and "crRail req = ''card''" and "seRails V = boot_rails us sdk intn now order"
    and "filter known_card (ocCard cfg) = [a, b]" "enName a = ''stripe''" "enName b = ''mock_card''"
  shows "\<exists>p0 p. let (res, s') = Service_CreatePayout V (Some (boot_orchestrator retries cfg)) req s;
      (result, o1) = SendPayoutWithFallback (seRails V) (boot_orchestrator retries cfg) p0 (ssOrch s) in
    res = Inr \<lparr>caPayoutId = seString V (pID p0), caStatus = pState p\<rparr> \<and> ssOrch s' = o1 \<and>
    store_of (ssPg s) (pID p0) = None \<and> store_of (ssPg s') = (store_of (ssPg s))(pID p0 \<mapsto> p) \<and>
    (pAmountCents p0, pCurrency p0, pRail p0) = (crAmount req, crCurrency req, ''card'') \<and>
    (result, pState p, pProvider p, pExternalID p) =
      (case stripe_answer sdk (configured_stripe retries cfg) (crAmount req) (crCurrency req) (osRails (ssOrch s)) of
         Inr x \<Rightarrow>
           (\<lparr>srExternalID = x, srUsedProvider = ''stripe'', srTriedProviders = [''stripe''], srSuccess = True\<rparr>,
            if Some x \<in> rExternalID ` set (tbl_payouts (ssPg s)) then (''created'', [], None)
            else (''sent'', ''stripe'', Some x))
       | Inl err \<Rightarrow>
           if isRetryable (classifyError err)
           then (\<lparr>srExternalID = ''mock-ext-'' @ us (pID p0), srUsedProvider = ''mock_card'',
                   srTriedProviders = [''stripe'', ''mock_card''], srSuccess = True\<rparr>, ''created'', [], None)
           else (\<lparr>srExternalID = [], srUsedProvider = [], srTriedProviders = [''stripe''], srSuccess = False\<rparr>,
                 ''failed'', ''stripe'', None))"
proof -
  let ?orc = "boot_orchestrator retries cfg"
  let ?ans = "stripe_answer sdk (configured_stripe retries cfg) (crAmount req) (crCurrency req) (osRails (ssOrch s))"
  obtain res s' where run: "Service_CreatePayout V (Some ?orc) req s = (res, s')" by (metis prod.collapse)
  obtain p0 p :: payout and result o1 where
      send: "SendPayoutWithFallback (seRails V) ?orc p0 (ssOrch s) = (result, o1)"
    and p0: "pState p0 = ''created''" "pAmountCents p0 = crAmount req" "pCurrency p0 = crCurrency req"
      "pRail p0 = crRail req" "pProvider p0 = []" "pExternalID p0 = None" "store_of (ssPg s) (pID p0) = None"
    and res: "res = Inr \<lparr>caPayoutId = seString V (pID p0), caStatus = pState p\<rparr>" "ssOrch s' = o1"
    and st: "store_of (ssPg s') = (store_of (ssPg s))(pID p0 \<mapsto> p)"
    and p: "if recordable result (ssPg s)
       then \<exists>t. p = p0\<lparr>pState := (if srSuccess result then ''sent'' else ''failed''),
              pProvider := reported_provider result,
              pExternalID := (if srSuccess result then Some (srExternalID result) else None), pUpdatedAt := t\<rparr>
       else p = p0"
  proof -
    from CreatePayout_sent [OF assms(1-3), of ?orc, unfolded run Let_def split_beta prod.case] show thesis
    proof (elim exE conjE, goal_cases)
      case (1 p0 p krow)
      then show thesis by (intro that [OF prod.collapse [symmetric], of p0 p]) simp_all
    qed
  qed
  have r: "result = (case ?ans of
       Inr x \<Rightarrow> \<lparr>srExternalID = x, srUsedProvider = ''stripe'', srTriedProviders = [''stripe''], srSuccess = True\<rparr>
     | Inl err \<Rightarrow>
         if isRetryable (classifyError err)
         then \<lparr>srExternalID = ''mock-ext-'' @ us (pID p0), srUsedProvider = ''mock_card'',
               srTriedProviders = [''stripe'', ''mock_card''], srSuccess = True\<rparr>
         else \<lparr>srExternalID = [], srUsedProvider = [], srTriedProviders = [''stripe''], srSuccess = False\<rparr>)"
    using boot_send [OF assms(6-8), of p0 us sdk intn now order retries "ssOrch s"] send p0 assms(4,5) by simp
  show ?thesis
    using p p0 assms(4) run send res st
    by (intro exI [of _ p0] exI [of _ p], cases ?ans)
      (auto simp: r recordable_def reported_provider_def db_providers_def split: if_splits)
qed

text \<open>\<open>deploy/configs/orchestrator-local.yaml\<close>, with a Stripe that cannot be reached.\<close>

definition local_config :: orchestrator_config where
  "local_config = orchestrator_defaults
     \<lparr>ocStripe := \<lparr>sgAPIKey = ''sk_test_REPLACE_ME'', sgMaxRetries = 2, sgTimeoutSeconds = 30\<rparr>,
      ocCard := [\<lparr>enName = ''stripe'', enActive = True, enWeight = 70\<rparr>,
                 \<lparr>enName = ''mock_card'', enActive = True, enWeight = 30\<rparr>],
      ocCrypto := [\<lparr>enName = ''crypto_sim'', enActive = True, enWeight = 100\<rparr>], ocMinSamples := 10\<rparr>"

definition dead_stripe :: "unit stripe_sdk" where
  "dead_stripe = \<lparr>PaymentIntents_Create = (\<lambda>c params w. (Inl (ErrText ''connection refused''), w)),
     PaymentIntents_Cancel = (\<lambda>c x w. (Some (ErrText ''connection refused''), w))\<rparr>"

definition outage_service :: "(client, unit, uuid) service_env" where
  "outage_service = \<lparr>sePg = demo_pg,
     seRails = boot_rails (\<lambda>u. ''7'') dead_stripe (\<lambda>n w. (0, w)) (\<lambda>w. (7, w)) (\<lambda>order w. (order, w)),
     seParse = (\<lambda>x. None), seString = (\<lambda>u. ''7'')\<rparr>"

theorem local_deployment_card_witness:
  "fst (Service_CreatePayout outage_service (Some (boot_orchestrator 2 local_config)) (demo_request ''h'') demo_empty) =
     Inr \<lparr>caPayoutId = ''7'', caStatus = ''created''\<rparr>"
proof -
  let ?a = "\<lparr>enName = ''stripe'', enActive = True, enWeight = 70\<rparr>"
    and ?b = "\<lparr>enName = ''mock_card'', enActive = True, enWeight = 30\<rparr>"
  have "reliable (sePg outage_service)" by (simp add: reliable_def outage_service_def demo_pg_def)
  moreover have "storable (sePg outage_service) (demo_request ''h'') (ssPg demo_empty)"
    by (simp add: storable_def demo_request_def demo_empty_def db_rails_def)
  moreover have "crRail (demo_request ''h'') = ''card''" by (simp add: demo_request_def)
  moreover have "seRails outage_service =
      boot_rails (\<lambda>u. ''7'') dead_stripe (\<lambda>n w. (0, w)) (\<lambda>w. (7, w)) (\<lambda>order w. (order, w))"
    by (simp add: outage_service_def)
  moreover have "filter known_card (ocCard local_config) = [?a, ?b]"
    by (simp add: local_config_def known_card_def)
  moreover have "stripe_answer dead_stripe c n x w = Inl (ErrText ''connection refused'')" for c n x w
    by (simp add: stripe_answer_def dead_stripe_def)
  moreover have "isRetryable (classifyError (ErrText ''connection refused''))"
    by (simp add: isRetryable_def classifyError_def)
  ultimately show ?thesis
    using local_deployment_card [OF _ demo_empty_ok, of outage_service "demo_request ''h''" "\<lambda>u. ''7''" dead_stripe
        "\<lambda>n w. (0, w)" "\<lambda>w. (7, w)" "\<lambda>order w. (order, w)" local_config ?a ?b 2]
    by (auto simp: Let_def outage_service_def)
qed

end
