(* ===== verification/ConcurrentAnswers.thy ===== *)
theory ConcurrentAnswers
  imports Interleaving
begin

text \<open>
  What concurrent requests are answered: a run remembers with each handler the request it started with,
  and every answer to a creation is tied to the one key and payout that its idempotency key stands for.
\<close>

section \<open>What a creation knows\<close>

text \<open>The key of a request is stored, with its hash and the id of its payout.\<close>

definition claimed :: "'d pg \<Rightarrow> create_request \<Rightarrow> uuid \<Rightarrow> bool" where
  "claimed db req i \<longleftrightarrow> (\<exists>k \<in> set (tbl_keys db).
     ikKey k = crIdempotencyKey req \<and> ikRequestHash k = crRequestHash req \<and> ikPayoutID k = i)"

abbreviation reached_states :: "payout_state set" where
  "reached_states \<equiv> {''created'', ''sent'', ''failed'', ''canceled'', ''completed''}"

definition right_answer ::
    "('c, 'p, 'd) service_env \<Rightarrow> 'd pg \<Rightarrow> create_request \<Rightarrow> create_response \<Rightarrow> bool" where
  "right_answer V db req a \<longleftrightarrow>
     (\<exists>i. claimed db req i \<and> caPayoutId a = seString V i) \<and> caStatus a \<in> reached_states"

fun creation_ok ::
    "('c, 'p, 'd) service_env \<Rightarrow> 'd pg \<Rightarrow> create_request \<Rightarrow> 'c handler \<Rightarrow> bool" where
  "creation_ok V db req (HCreate (CBegin r)) \<longleftrightarrow> r = req"
| "creation_ok V db req (HCreate (CFetch i)) \<longleftrightarrow> claimed db req i"
| "creation_ok V db req (HCreate (CSend r p)) \<longleftrightarrow> claimed db req (pID p) \<and> pState p = ''created''"
| "creation_ok V db req (HCreate (CTry r p ps result)) \<longleftrightarrow> claimed db req (pID p) \<and> pState p = ''created''"
| "creation_ok V db req (HCreate (CNote r p q ps result res)) \<longleftrightarrow> claimed db req (pID p) \<and> pState p = ''created''"
| "creation_ok V db req (HCreate (CRecord p u dflt)) \<longleftrightarrow>
     claimed db req (pID p) \<and> pID dflt = pID p \<and> pState dflt = ''created'' \<and> upState u \<in> {''sent'', ''failed''}"
| "creation_ok V db req (HCreate (CDone (Inr a))) \<longleftrightarrow> right_answer V db req a"
| "creation_ok V db req (HCreate (CDone (Inl e))) \<longleftrightarrow> True"
| "creation_ok V db req h \<longleftrightarrow> False"

lemma claimed_mono: "db_le db db' \<Longrightarrow> claimed db req i \<Longrightarrow> claimed db' req i"
  by (auto simp: claimed_def db_le_def evolves_def)

lemma creation_ok_mono: "db_le db db' \<Longrightarrow> creation_ok V db req h \<Longrightarrow> creation_ok V db' req h"
  by (cases "(V, db, req, h)" rule: creation_ok.cases) (auto simp: right_answer_def intro: claimed_mono)

lemma claimed_unique:
  assumes "tables_ok db" and "claimed db r i" and "claimed db r' j" and "crIdempotencyKey r = crIdempotencyKey r'"
  shows "i = j" and "crRequestHash r = crRequestHash r'"
proof -
  have "inj_on ikKey (set (tbl_keys db))" using assms(1) by (simp add: tables_ok_def distinct_map)
  then have "k = k'" if "k \<in> set (tbl_keys db)" "k' \<in> set (tbl_keys db)" "ikKey k = ikKey k'" for k k'
    using that by (simp add: inj_on_def)
  then show "i = j" "crRequestHash r = crRequestHash r'"
    using assms(2-4) unfolding claimed_def by metis+
qed

lemma stored_state:
  assumes "service_inv db" and "store_of db i = Some p"
  shows "pID p = i" and "pState p \<in> reached_states"
  using assms by (auto simp: service_inv_def store_of_id elim!: store_row)

lemma answer_stored:
  "claimed db req (pID p) \<Longrightarrow> pState p \<in> reached_states \<Longrightarrow> creation_ok V db req (HCreate (CDone (create_answer V p)))"
  by (auto simp: create_answer_def right_answer_def)

lemma try_next_ok:
  "claimed db req (pID p) \<Longrightarrow> pState p = ''created'' \<Longrightarrow> creation_ok V db req (HCreate (try_next r p ps result))"
  by (simp add: try_next_def result_update_def)

lemma record_ok:
  "claimed db req (pID p) \<Longrightarrow> pState p = ''created'' \<Longrightarrow> creation_ok V db req (HCreate (CRecord p (result_update result) p))"
  by (simp add: result_update_def)

lemma handler_step_db_le:
  assumes "handler_step V srv h s = (h', s')" and "proper_handler h"
  shows "db_le (ssPg s) (ssPg s')"
  using assms by (cases rule: handler_step_effect) (simp_all add: tables_step_def)

lemma begin_ok:
  assumes "create_step V srv (CBegin req) s = (pc, s')"
  shows "creation_ok V (ssPg s') req (HCreate pc)"
proof (cases "crIdempotencyKey req = [] \<or> crRequestHash req = []")
  case True
  then show ?thesis using assms by (auto simp: create_step_def split: if_splits)
next
  case False
  obtain err r db1 where tx: "RunInTx (sePg V) (create_tx (sePg V) req) zero_tx_result (ssPg s) = ((err, r), db1)"
    by (metis prod.collapse)
  note step = assms [unfolded create_step_def, simplified, unfolded tx]
  from tx show ?thesis
  proof (cases rule: RunInTx_create_cases)
    case (created row krow)
    then show ?thesis using step False by (auto simp: claimed_def)
  next
    case (existing krow)
    then have "krow \<in> set (tbl_keys db1)" by (simp add: same_tables_def)
    then show ?thesis using step False existing
      by (auto simp: claimed_def toDomainIdempotencyKey_def split: if_splits)
  qed (use step False in auto)
qed

lemma creation_step:
  assumes "handler_step V (Some orc) h s = (h', s')" and ok: "creation_ok V (ssPg s) req h" "service_inv (ssPg s)"
    and proper: "proper_handler h"
  shows "creation_ok V (ssPg s') req h'"
proof -
  have le: "db_le (ssPg s) (ssPg s')" by (rule handler_step_db_le [OF assms(1) proper])
  obtain pc pc' where h: "h = HCreate pc" and h': "h' = HCreate pc'"
    and step: "create_step V (Some orc) pc s = (pc', s')"
    using assms(1) ok(1) by (cases "(V, ssPg s, req, h)" rule: creation_ok.cases) (auto simp: handler_step_def apfst_eq_iff)
  show ?thesis
  proof (cases pc)
    case (CBegin r)
    then show ?thesis using begin_ok step ok(1) h h' by simp
  next
    case (CFetch i)
    obtain res db where get: "PayoutRepo_GetPayout (sePg V) i (ssPg s) = (res, db)" by (metis prod.collapse)
    show ?thesis
    proof (cases res)
      case (Inr p)
      then have "store_of (ssPg s) i = Some p" using get repo_get_answer by metis
      then show ?thesis
        using stored_state [OF ok(2)] step get Inr CFetch ok(1) h h' claimed_mono [OF le]
        by (auto simp: create_step_def intro!: answer_stored)
    qed (use step get CFetch h h' in \<open>auto simp: create_step_def\<close>)
  next
    case (CSend r p)
    then have "claimed (ssPg s') req (pID p)" "pState p = ''created''" using ok(1) h claimed_mono [OF le] by auto
    from try_next_ok [OF this] record_ok [OF this] show ?thesis
      using step h' CSend by (auto simp: create_step_def simp del: creation_ok.simps split: prod.splits sum.splits)
  next
    case (CTry r p ps result)
    then have c: "claimed (ssPg s') req (pID p)" "pState p = ''created''" using ok(1) h claimed_mono [OF le] by auto
    then show ?thesis
      using step h' CTry record_ok [OF c, of V result]
      by (auto simp: create_step_def split: prod.splits list.splits)
  next
    case (CNote r p q ps result res)
    then have "claimed (ssPg s') req (pID p)" "pState p = ''created''" using ok(1) h claimed_mono [OF le] by auto
    from try_next_ok [OF this] record_ok [OF this] show ?thesis
      using step h' CNote
      by (auto simp: create_step_def simp del: creation_ok.simps split: prod.splits sum.splits if_splits)
  next
    case (CRecord p u dflt)
    obtain res db where upd: "PayoutRepo_UpdatePayoutState (sePg V) (pID p) u (ssPg s) = (res, db)" by (metis prod.collapse)
    show ?thesis
    proof (cases res)
      case (Inl e)
      then show ?thesis using step upd CRecord ok(1) h h' claimed_mono [OF le]
        by (auto simp: create_step_def intro!: answer_stored)
    next
      case (Inr q)
      with upd obtain q0 t where "store_of (ssPg s) (pID p) = Some q0"
        and "q = q0\<lparr>pState := upState u, pProvider := upProvider u, pExternalID := upExternalID u, pUpdatedAt := t\<rparr>"
        by (auto elim!: repo_update_answer)
      then have "pID q = pID p" "pState q \<in> {''sent'', ''failed''}"
        using stored_state(1) [OF ok(2)] CRecord ok(1) h by auto
      then show ?thesis using step upd Inr CRecord ok(1) h h' claimed_mono [OF le]
        by (auto simp: create_step_def intro!: answer_stored)
    qed
  next
    case (CDone res)
    then show ?thesis using step ok(1) h h' by (auto simp: create_step_def)
  qed
qed

text \<open>Every creation in a run knows what it should.\<close>

lemma service_history_ok:
  assumes "service_history V (Some orc) s0 c" and "service_inv (ssPg s0)"
  shows "\<forall>(h0, h) \<in> set (fst c). \<forall>req. h0 = HCreate (CBegin req) \<longrightarrow> creation_ok V (ssPg (snd c)) req h"
  using assms(1)
proof (induction rule: inter_history.induct)
  case (arrives es s h)
  then show ?case by auto
next
  case (moves es s i h' s')
  have inv: "service_inv (ssPg s)" and "list_all proper_handler (map snd es)"
    using service.history_inv [OF moves(1) assms(2)] by simp_all
  then have proper: "proper_handler (snd (es ! i))" using moves(2) by (simp add: list_all_length)
  note le = handler_step_db_le [OF moves(3) proper]
  have mine: "creation_ok V (ssPg s') req h'" if "fst (es ! i) = HCreate (CBegin req)" for req
  proof (rule creation_step [OF moves(3) _ inv proper])
    have "es ! i \<in> set es" using moves(2) by simp
    then show "creation_ok V (ssPg s) req (snd (es ! i))" using moves.IH that by (auto simp: split_beta)
  qed
  have "creation_ok V (ssPg s') req h" if "(h0, h) \<in> set es" "h0 = HCreate (CBegin req)" for h0 h req
    using moves.IH that creation_ok_mono [OF le] by fastforce
  then show ?case using mine by (auto dest!: set_update_subset_insert [THEN subsetD])
next
  case (elsewhere es s s')
  have "db_le (ssPg s) (ssPg s')"
    using outside_tables [OF elsewhere(2)] by (simp add: tables_step_def)
  from creation_ok_mono [OF this] show ?case using elsewhere.IH by fastforce
qed simp

lemma claimed_payout:
  assumes "service_inv db" and "claimed db req i"
  shows "store_of db i \<noteq> None"
proof -
  have "i \<in> ikPayoutID ` set (tbl_keys db)" using assms(2) by (auto simp: claimed_def)
  moreover have "mset (map ikPayoutID (tbl_keys db)) = mset (map rID (tbl_payouts db))"
    using assms(1) by (simp add: service_inv_def)
  then have "ikPayoutID ` set (tbl_keys db) = rID ` set (tbl_payouts db)"
    by (metis mset_eq_setD set_map)
  ultimately show ?thesis by (auto simp: store_of_def find_None_iff)
qed

text \<open>
  C7: well-formed answers. In any interleaving, every successful answer to a creation names a payout
  that is stored, whose key and hash in the table are those of the request, and gives one of the five
  states; no answer carries the zero payout or a state that the code never writes.
\<close>

theorem concurrent_answers:
  assumes "service_history V (Some orc) s0 (es, s)" and "service_inv (ssPg s0)"
    and "(HCreate (CBegin req), HCreate (CDone (Inr a))) \<in> set es"
  shows "\<exists>i. claimed (ssPg s) req i \<and> store_of (ssPg s) i \<noteq> None \<and> caPayoutId a = seString V i \<and>
    caStatus a \<in> reached_states"
proof -
  have "right_answer V (ssPg s) req a"
    using service_history_ok [OF assms(1,2)] assms(3) by force
  then show ?thesis
    using claimed_payout [OF conjunct1 [OF service.history_inv [OF assms(1,2)]]] by (auto simp: right_answer_def)
qed

text \<open>
  One payout per key, also in a race. Two requests with the same idempotency key, however their
  steps and those of others are interleaved, get the same payout id, and only if their hashes are equal.
\<close>

lemma concurrent_same_payout:
  assumes "service_history V (Some orc) s0 (es, s)" and "service_inv (ssPg s0)"
    and "(HCreate (CBegin r1), HCreate (CDone (Inr a1))) \<in> set es"
    and "(HCreate (CBegin r2), HCreate (CDone (Inr a2))) \<in> set es"
    and "crIdempotencyKey r1 = crIdempotencyKey r2"
  shows "caPayoutId a1 = caPayoutId a2 \<and> crRequestHash r1 = crRequestHash r2"
proof -
  have inv: "tables_ok (ssPg s)"
    using conjunct1 [OF service.history_inv [OF assms(1,2)]] by (simp add: service_inv_def)
  have "right_answer V (ssPg s) r1 a1" "right_answer V (ssPg s) r2 a2"
    using service_history_ok [OF assms(1,2)] assms(3,4) by force+
  then obtain i j where ij: "claimed (ssPg s) r1 i" "claimed (ssPg s) r2 j"
      "caPayoutId a1 = seString V i" "caPayoutId a2 = seString V j"
    by (auto simp: right_answer_def)
  from claimed_unique [OF inv ij(1,2) assms(5)] show ?thesis using ij by simp
qed

section \<open>A race of two requests\<close>

text \<open>
  Two requests with one key: the second begins while the first has stored the payout and not sent it
  yet, is answered with the payout as it is created, and then the first sends it.
\<close>

definition demo_race :: "(nat handler \<times> nat handler) list \<times> (unit, uuid) service_state" where
  "demo_race = run_handlers (handler_step demo_service (Some demo_stripe)) [0, 1, 1, 0, 0, 0, 0]
      ([(demo_post, demo_post), (demo_post, demo_post)], demo_empty)"

lemma demo_race_answers:
  "fst demo_race =
     [(demo_post, HCreate (CDone (Inr \<lparr>caPayoutId = ''1'', caStatus = ''sent''\<rparr>))),
      (demo_post, HCreate (CDone (Inr \<lparr>caPayoutId = ''1'', caStatus = ''created''\<rparr>)))]"
  by code_simp

lemma demo_race_history: "service_history demo_service (Some demo_stripe) demo_empty (fst demo_race, snd demo_race)"
  using scheduled_history [of starting "[demo_post, demo_post]" "handler_step demo_service (Some demo_stripe)"
      outside_world demo_empty "[0, 1, 1, 0, 0, 0, 0]"]
  by (simp add: demo_race_def starting_def)

theorem concurrent_answers_witness:
  "\<exists>i. claimed (ssPg (snd demo_race)) (demo_request ''h'') i \<and> ''1'' = seString demo_service i"
  using concurrent_answers [OF demo_race_history demo_empty_inv, of "demo_request ''h''"
      "\<lparr>caPayoutId = ''1'', caStatus = ''created''\<rparr>"]
  by (auto simp: demo_race_answers)

lemma concurrent_same_payout_witness:
  "caPayoutId \<lparr>caPayoutId = ''1'', caStatus = ''sent''\<rparr> = caPayoutId \<lparr>caPayoutId = ''1'', caStatus = ''created''\<rparr>"
  using concurrent_same_payout [OF demo_race_history demo_empty_inv, of "demo_request ''h''" _ "demo_request ''h''"]
  by (auto simp: demo_race_answers)

end
