(* ===== verification/ConcurrentApi.thy ===== *)
theory ConcurrentApi
  imports ApiFacts ConcurrentAnswers
begin

text \<open>
  Posts that race, seen at the public API: what \<open>createPayoutHandler\<close> makes of the orchestrator's answers
  in any interleaving of the orchestrator's handlers.
\<close>

section \<open>The reply to a post\<close>

text \<open>The end of \<open>createPayoutHandlerWithClient\<close>, from the answer to the call on.\<close>

definition create_reply :: "create_response result \<Rightarrow> api_response" where
  "create_reply answer =
     (case answer of
        Inl err \<Rightarrow>
          (case status_FromError err of
             Some (GrpcAlreadyExists, m) \<Rightarrow>
               writeError 409 CodeIdempotencyConflict ''idempotency key reused with different request''
           | _ \<Rightarrow> writeError 502 CodeInternal ''upstream error'')
      | Inr resp \<Rightarrow> \<lparr>apStatus = 202, apBody = CreatedBody (caPayoutId resp) (caStatus resp)\<rparr>)"

lemma createPayoutHandler_reply:
  assumes "key \<noteq> []" and "decode_create_body v = Some b" and "0 < cbAmount b" and "cbRail b \<noteq> []"
  shows "createPayoutHandler client key (Some v) s = apfst create_reply (pcCreatePayout client (post_request key b) s)"
  using assms
  by (auto simp: createPayoutHandler_def create_reply_def post_request_def
      split: prod.split sum.split option.split grpc_code.split)

lemma reply_created:
  assumes "create_reply r = \<lparr>apStatus = 202, apBody = body\<rparr>"
  obtains a where "r = Inr a" and "body = CreatedBody (caPayoutId a) (caStatus a)"
  using assms
  by (auto simp: create_reply_def writeError_def split: sum.splits option.splits grpc_code.splits)

section \<open>Only posts create payouts\<close>

text \<open>Every creation that arrives is the call of a post; reports, cancellations and queries are free.\<close>

definition from_api :: "'c handler \<Rightarrow> bool" where
  "from_api h \<longleftrightarrow> (\<forall>req. h = HCreate (CBegin req) \<longrightarrow> (\<exists>key b. req = post_request key b))"

definition arriving :: "'c handler \<Rightarrow> bool" where
  "arriving h \<longleftrightarrow> starting h \<and> from_api h"

abbreviation api_history ::
    "('c, 'p, 'd) service_env \<Rightarrow> 'c orchestrator \<Rightarrow> ('p, 'd) service_state \<Rightarrow>
     ('c handler \<times> 'c handler) list \<times> ('p, 'd) service_state \<Rightarrow> bool" where
  "api_history V orc \<equiv> inter_history (handler_step V (Some orc)) arriving outside_world"

text \<open>The hash under a key is the hash of what is stored for the key's payout.\<close>

definition hashes_match :: "'d pg \<Rightarrow> bool" where
  "hashes_match db \<longleftrightarrow> (\<forall>k \<in> set (tbl_keys db). \<forall>r \<in> set (tbl_payouts db). ikPayoutID k = rID r \<longrightarrow>
     ikRequestHash k = canonicalHash (rAmountCents r) (rCurrency r) (rRail r))"

lemma hashes_match_step:
  assumes "hashes_match db" and "service_inv db" and "tables_step db db'"
  shows "hashes_match db'"
  unfolding hashes_match_def
proof (intro ballI impI)
  fix k r' assume k: "k \<in> set (tbl_keys db')" and r': "r' \<in> set (tbl_payouts db')" and "ikPayoutID k = rID r'"
  have step: "db_le db db'" "tbl_keys db' = tbl_keys db" "map rID (tbl_payouts db') = map rID (tbl_payouts db)"
    using assms(3) by (auto simp: tables_step_def dest: moved_ids)
  have "rID r' \<in> rID ` set (tbl_payouts db)" using r' step(3) by (metis image_eqI set_map)
  then obtain r where r: "r \<in> set (tbl_payouts db)" "rID r = rID r'" by auto
  then obtain r2 where r2: "r2 \<in> set (tbl_payouts db')" "same_payout r r2"
    using step(1) by (auto simp: db_le_def evolves_def)
  have "tables_ok db'" using step(1) assms(2) by (simp add: db_le_def service_inv_def)
  then have "inj_on rID (set (tbl_payouts db'))" by (simp add: tables_ok_def rows_ok_def distinct_map)
  then have "r2 = r'" using r r2 r' by (auto simp: same_payout_def dest: inj_onD)
  moreover have "ikRequestHash k = canonicalHash (rAmountCents r) (rCurrency r) (rRail r)"
    using assms(1) k r \<open>ikPayoutID k = rID r'\<close> by (simp add: hashes_match_def step(2))
  ultimately show "ikRequestHash k = canonicalHash (rAmountCents r') (rCurrency r') (rRail r')"
    using r2(2) by (simp add: same_payout_def)
qed

lemma key_ids: "service_inv db \<Longrightarrow> ikPayoutID ` set (tbl_keys db) = rID ` set (tbl_payouts db)"
  by (metis mset_eq_setD set_map service_inv_def)

lemma hashes_match_new:
  assumes "hashes_match db" and "service_inv db"
    and "tbl_payouts db' = tbl_payouts db @ [row]" and "tbl_keys db' = tbl_keys db @ [krow]"
    and "ikPayoutID krow = rID row" and "rID row \<notin> rID ` set (tbl_payouts db)"
    and "ikRequestHash krow = canonicalHash (rAmountCents row) (rCurrency row) (rRail row)"
  shows "hashes_match db'"
  using assms(1,3-7) key_ids [OF assms(2)]
  by (auto simp: hashes_match_def) (metis imageI)

lemma create_step_begins: "create_step V srv pc s \<noteq> (CBegin req, s')"
  by (cases pc) (auto simp: create_step_def try_next_def Let_def
      split: if_splits prod.splits sum.splits option.splits list.splits)

lemma handler_step_from_api: "handler_step V srv h s = (h', s') \<Longrightarrow> from_api h'"
  by (cases h) (auto simp: from_api_def handler_step_def apfst_eq_iff create_step_begins)

interpretation posts: handlers "handler_step V (Some orc)" arriving outside_world
    "\<lambda>s. service_inv (ssPg s) \<and> hashes_match (ssPg s)" "\<lambda>h. proper_handler h \<and> from_api h"
  for V :: "('c, 'p, 'd) service_env" and orc :: "'c orchestrator"
proof
  fix h h' :: "'c handler" and s s' :: "('p, 'd) service_state"
  assume inv: "service_inv (ssPg s) \<and> hashes_match (ssPg s)"
  {
    assume h: "proper_handler h \<and> from_api h" and step: "handler_step V (Some orc) h s = (h', s')"
    then have "proper_handler h" by simp
    with step have "hashes_match (ssPg s')"
    proof (cases rule: handler_step_effect)
      case tables
      then show ?thesis using inv hashes_match_step by blast
    next
      case (new req row krow)
      then obtain key b where "req = post_request key b" using h by (auto simp: from_api_def)
      then have "ikRequestHash krow = canonicalHash (rAmountCents row) (rCurrency row) (rRail row)"
        using new(9,11-13) by (simp add: post_request_def)
      with hashes_match_new [OF _ _ new(3,4,7,10)] inv show ?thesis by simp
    qed
    then show "(service_inv (ssPg s') \<and> hashes_match (ssPg s')) \<and> proper_handler h' \<and> from_api h'"
      using service.step_inv [OF _ _ step] handler_step_from_api [OF step] h inv by simp
  }
  show "outside_world s s' \<Longrightarrow> service_inv (ssPg s') \<and> hashes_match (ssPg s')"
    using inv outside_tables service_inv_tables_step hashes_match_step by blast
qed (auto simp: arriving_def intro: starting_proper)

section \<open>What racing posts are told\<close>

text \<open>Equal hashes of two bodies: the bodies are equal, or they collide under SHA-256.\<close>

definition collision :: "create_body \<Rightarrow> create_body \<Rightarrow> bool" where
  "collision b b' \<longleftrightarrow>
     canonical (cbAmount b) (cbCurrency b) (cbRail b) \<noteq> canonical (cbAmount b') (cbCurrency b') (cbRail b') \<and>
     Sum256 (canonical (cbAmount b) (cbCurrency b) (cbRail b)) =
       Sum256 (canonical (cbAmount b') (cbCurrency b') (cbRail b'))"

lemma same_hash:
  "canonicalHash (cbAmount b) (cbCurrency b) (cbRail b) = canonicalHash (cbAmount b') (cbCurrency b') (cbRail b') \<Longrightarrow>
   b = b' \<or> collision b b'"
  using hex_text_inj [OF Sum256_bytes Sum256_bytes] canonical_unique
  by (auto simp: canonicalHash_def collision_def)

definition payout_body :: "payout \<Rightarrow> create_body" where
  "payout_body p = \<lparr>cbAmount = pAmountCents p, cbCurrency = pCurrency p, cbRail = pRail p\<rparr>"

lemma api_history_ok:
  assumes "api_history V orc s0 (es, s)" and "service_inv (ssPg s0)" and "hashes_match (ssPg s0)"
  shows "service_history V (Some orc) s0 (es, s)" and "service_inv (ssPg s)" and "hashes_match (ssPg s)"
proof -
  show "service_history V (Some orc) s0 (es, s)"
    using assms(1) by (rule inter_history_mono) (simp add: arriving_def)
  show "service_inv (ssPg s)" "hashes_match (ssPg s)"
    using posts.history_inv [OF assms(1)] assms(2,3) by simp_all
qed

lemma accepted_post:
  assumes "api_history V orc s0 (es, s)" and "service_inv (ssPg s0)"
    and "(HCreate (CBegin (post_request key b)), HCreate (CDone r)) \<in> set es"
    and "create_reply r = \<lparr>apStatus = 202, apBody = CreatedBody t st\<rparr>"
  obtains i where "claimed (ssPg s) (post_request key b) i" and "t = seString V i" and "st \<in> reached_states"
proof -
  obtain a where a: "r = Inr a" "t = caPayoutId a" "st = caStatus a" using assms(4) by (rule reply_created) simp
  have "service_history V (Some orc) s0 (es, s)"
    using assms(1) by (rule inter_history_mono) (simp add: arriving_def)
  from service_history_ok [OF this assms(2)] have "right_answer V (ssPg s) (post_request key b) a"
    using assms(3) a(1) by force
  then show thesis using a that by (auto simp: right_answer_def)
qed

lemma claimed_body:
  assumes "service_inv db" and "hashes_match db" and "claimed db (post_request key b) i"
  obtains p where "store_of db i = Some p" and "payout_body p = b \<or> collision (payout_body p) b"
proof -
  obtain k where k: "k \<in> set (tbl_keys db)" "ikRequestHash k = crRequestHash (post_request key b)" "ikPayoutID k = i"
    using assms(3) by (auto simp: claimed_def)
  obtain p where p: "store_of db i = Some p" using claimed_payout [OF assms(1,3)] by auto
  then obtain r where r: "r \<in> set (tbl_payouts db)" "p = toDomainPayout r" "rID r = i" by (rule store_row)
  then have "ikRequestHash k = canonicalHash (rAmountCents r) (rCurrency r) (rRail r)"
    using assms(2) k by (simp add: hashes_match_def)
  then have "payout_body p = b \<or> collision (payout_body p) b"
    using k(2) r(2) by (intro same_hash) (simp add: payout_body_def post_request_def toDomainPayout_def)
  then show thesis using p by (rule that [rotated])
qed

text \<open>
  C3: posts that race for one key. However the steps of the orchestrator's handlers are interleaved,
  while every creation comes from the API: all posts with the same Idempotency-Key that are answered
  with 202 are told the same payout id; the payout is stored, with the amount, the currency and the
  rail that each of them posted, unless bodies collide under SHA-256.
\<close>

theorem racing_posts_agree:
  assumes "api_history V orc s0 (es, s)" and "service_inv (ssPg s0)" and "hashes_match (ssPg s0)"
    and "(HCreate (CBegin (post_request key b1)), HCreate (CDone r1)) \<in> set es"
    and "(HCreate (CBegin (post_request key b2)), HCreate (CDone r2)) \<in> set es"
    and "create_reply r1 = \<lparr>apStatus = 202, apBody = CreatedBody t1 st1\<rparr>"
    and "create_reply r2 = \<lparr>apStatus = 202, apBody = CreatedBody t2 st2\<rparr>"
  shows "t1 = t2 \<and> (\<exists>i p. t1 = seString V i \<and> store_of (ssPg s) i = Some p \<and>
    (\<forall>b \<in> {b1, b2}. payout_body p = b \<or> collision (payout_body p) b))"
proof -
  note inv = api_history_ok(2,3) [OF assms(1-3)]
  obtain i where i: "claimed (ssPg s) (post_request key b1) i" "t1 = seString V i"
    by (rule accepted_post [OF assms(1,2,4,6)])
  obtain j where j: "claimed (ssPg s) (post_request key b2) j" "t2 = seString V j"
    by (rule accepted_post [OF assms(1,2,5,7)])
  have "tables_ok (ssPg s)" using inv(1) by (simp add: service_inv_def)
  from claimed_unique(1) [OF this i(1) j(1)] have ij: "j = i" by (simp add: post_request_def)
  obtain p where p: "store_of (ssPg s) i = Some p" "payout_body p = b1 \<or> collision (payout_body p) b1"
    by (rule claimed_body [OF inv i(1)])
  obtain q where "store_of (ssPg s) i = Some q" "payout_body q = b2 \<or> collision (payout_body q) b2"
    by (rule claimed_body [OF inv j(1) [unfolded ij]])
  then show ?thesis using p i(2) j(2) ij by auto
qed

text \<open>
  Two posts of one body: the second begins while the first has stored the payout and not sent it yet.
  The run is evaluated for any hash that is not empty.
\<close>

definition demo_posts :: "string \<Rightarrow> (nat handler \<times> nat handler) list \<times> (unit, uuid) service_state" where
  "demo_posts h = run_handlers (handler_step demo_service (Some demo_stripe)) [0, 1, 1, 0, 0, 0, 0]
     (map (\<lambda>h. (h, h)) (replicate 2 (HCreate (CBegin (demo_request h)))), demo_empty)"

lemma demo_posts_answers:
  "fst (demo_posts (c # cs)) =
     [(HCreate (CBegin (demo_request (c # cs))), HCreate (CDone (Inr \<lparr>caPayoutId = ''1'', caStatus = ''sent''\<rparr>))),
      (HCreate (CBegin (demo_request (c # cs))), HCreate (CDone (Inr \<lparr>caPayoutId = ''1'', caStatus = ''created''\<rparr>)))]"
  by code_simp

definition demo_create_body :: create_body where
  "demo_create_body = \<lparr>cbAmount = 100, cbCurrency = ''USD'', cbRail = ''card''\<rparr>"

lemma demo_post_request: "demo_request (canonicalHash 100 ''USD'' ''card'') = post_request ''k'' demo_create_body"
  by (simp add: demo_request_def post_request_def demo_create_body_def)

theorem racing_posts_agree_witness:
  "\<exists>i p. ''1'' = seString demo_service i \<and>
     store_of (ssPg (snd (demo_posts (canonicalHash 100 ''USD'' ''card'')))) i = Some p \<and>
     (payout_body p = demo_create_body \<or> collision (payout_body p) demo_create_body)"
proof -
  let ?h = "canonicalHash 100 ''USD'' ''card''"
  obtain c cs where "?h = c # cs" using canonicalHash_nonempty by (cases ?h) auto
  note answers = demo_posts_answers [of c cs, folded this, unfolded demo_post_request]
  have "list_all arriving (replicate 2 (HCreate (CBegin (demo_request ?h)) :: nat handler))"
    by (auto simp: arriving_def starting_def from_api_def demo_post_request numeral_2_eq_2)
  from scheduled_history [OF this, of "handler_step demo_service (Some demo_stripe)" outside_world demo_empty "[0, 1, 1, 0, 0, 0, 0]"]
  have run: "api_history demo_service demo_stripe demo_empty (fst (demo_posts ?h), snd (demo_posts ?h))"
    by (simp add: demo_posts_def)
  have "hashes_match (ssPg demo_empty)" by (simp add: hashes_match_def demo_empty_def)
  note agree = racing_posts_agree [OF run demo_empty_inv this, of "''k''" demo_create_body
      "Inr \<lparr>caPayoutId = ''1'', caStatus = ''sent''\<rparr>" demo_create_body "Inr \<lparr>caPayoutId = ''1'', caStatus = ''created''\<rparr>"
      "''1''" "''sent''" "''1''" "''created''"]
  have "''1'' = ''1'' \<and> (\<exists>i p. ''1'' = seString demo_service i \<and> store_of (ssPg (snd (demo_posts ?h))) i = Some p \<and>
      (\<forall>b \<in> {demo_create_body, demo_create_body}. payout_body p = b \<or> collision (payout_body p) b))"
    by (rule agree) (simp_all only: answers list.set insert_iff simp_thms, simp_all add: create_reply_def)
  then show ?thesis by blast
qed

end
