(* ===== verification/WebhookSteps.thy ===== *)
theory WebhookSteps
  imports WebhookFacts Interleaved
begin

text \<open>
  Deliveries that are handled at the same time, by one process of the webhook service or by several:
  \<open>stripe_handler.go\<close> and \<open>dedup.go\<close> cut at the commands to Redis and the call to the orchestrator.
  Within one TTL an event is forwarded at most once in any interleaving, because SETNX is one command.
\<close>

section \<open>A delivery in steps\<close>

text \<open>Before everything, after SETNX took the mark, after EXPIRE, and answered.\<close>

datatype webhook_pc =
    WBegin http_request
  | WExpire provider_event
  | WForward provider_event
  | WDone http_response

definition webhook_step ::
    "('w, 'o) webhook_env \<Rightarrow> webhook_handler \<Rightarrow> webhook_pc \<Rightarrow> ('w, 'o) webhook_state \<Rightarrow>
     webhook_pc \<times> ('w, 'o) webhook_state" where
  "webhook_step V h pc s =
     (case pc of
        WBegin r \<Rightarrow>
          if hqMethod r \<noteq> ''POST'' then (WDone (http_error 405 ''method not allowed''), s)
          else (case hqBody r of
            None \<Rightarrow> (WDone (http_error 400 ''failed to read body''), s)
          | Some payload \<Rightarrow>
              if hqSignature r = [] then (WDone (http_error 400 ''missing stripe signature''), s)
              else (case weConstructEvent V payload (hqSignature r) (whSecret h) of
                Inl err \<Rightarrow> (WDone (http_error 400 ''invalid signature''), s)
              | Inr event \<Rightarrow>
                  (case EventParser_Parse event of
                     Inl err \<Rightarrow> (WDone writeOK, s)
                   | Inr providerEvent \<Rightarrow>
                       (case redis_do (weRedis V) (redis_setnx (dedup_key (peEventID providerEvent)) ''1'') (wsRedis s) of
                          (Inl err, rd) \<Rightarrow> (WDone (http_error 500 ''dedup check failed''), s\<lparr>wsRedis := rd\<rparr>)
                        | (Inr result, rd) \<Rightarrow>
                            (if \<not> result then WDone writeOK else WExpire providerEvent, s\<lparr>wsRedis := rd\<rparr>)))))
      | WExpire pe \<Rightarrow>
          (WForward pe,
           s\<lparr>wsRedis := snd (redis_do (weRedis V)
                (redis_expire (dedup_key (peEventID pe)) (whole_seconds (whTTL h))) (wsRedis s))\<rparr>)
      | WForward pe \<Rightarrow>
          (case forwardToOrchestrator V pe (wsOrch s) of
             (Some err, o2) \<Rightarrow> (WDone (http_error 500 ''forward failed''), s\<lparr>wsOrch := o2\<rparr>)
           | (None, o2) \<Rightarrow> (WDone writeOK, s\<lparr>wsOrch := o2\<rparr>))
      | WDone resp \<Rightarrow> (pc, s))"

lemma webhook_alone:
  "run_alone (webhook_step V h) 3 (WBegin r, s) = apfst WDone (Webhook_ServeHTTP V h r s)"
  by (auto simp: run_alone_3 webhook_step_def Webhook_ServeHTTP_def IsProcessed_def Let_def
      split: option.split sum.split prod.split)

definition delivery :: "webhook_pc \<Rightarrow> bool" where
  "delivery pc \<longleftrightarrow> (case pc of WBegin _ \<Rightarrow> True | _ \<Rightarrow> False)"

definition acknowledged :: "webhook_pc \<Rightarrow> bool" where
  "acknowledged pc \<longleftrightarrow> (case pc of WDone _ \<Rightarrow> True | _ \<Rightarrow> False)"

text \<open>Outside, Redis's connection and clock and the orchestrator go on; the keys are the service's own.\<close>

definition around :: "('w, 'o) webhook_state \<Rightarrow> ('w, 'o) webhook_state \<Rightarrow> bool" where
  "around s s' \<longleftrightarrow> (\<exists>w o'. s' = s\<lparr>wsRedis := (wsRedis s)\<lparr>rd_world := w\<rparr>, wsOrch := o'\<rparr>)"

abbreviation deliveries_together ::
    "('w, 'o) webhook_env \<Rightarrow> webhook_handler \<Rightarrow> ('w, 'o) webhook_state \<Rightarrow> webhook_pc activity list \<Rightarrow>
     webhook_pc list \<times> ('w, 'o) webhook_state \<Rightarrow> bool" where
  "deliveries_together V h \<equiv> inter_run (webhook_step V h) delivery around"

section \<open>The mark and the forwarding\<close>

definition holds_mark :: "string \<Rightarrow> webhook_pc \<Rightarrow> bool" where
  "holds_mark eid pc \<longleftrightarrow> (\<exists>pe. peEventID pe = eid \<and> (pc = WExpire pe \<or> pc = WForward pe))"

definition forwarding :: "string \<Rightarrow> webhook_pc \<Rightarrow> bool" where
  "forwarding eid pc \<longleftrightarrow> (\<exists>pe. peEventID pe = eid \<and> pc = WForward pe)"

lemma forwarding_holds: "forwarding eid pc \<Longrightarrow> holds_mark eid pc"
  by (auto simp: forwarding_def holds_mark_def)

lemma webhook_step_marks:
  assumes "in_window (weRedis V) (whTTL h) t0" and "webhook_step V h pc s = (pc', s')"
    and "marked_until (whTTL h) t0 (wsRedis s) e"
  shows "marked_until (whTTL h) t0 (wsRedis s') e"
  using assms(2,3) setnx_do_marked [OF assms(1,3)] expire_do_marked [OF assms(1,3)]
  by (auto simp: webhook_step_def split: webhook_pc.splits if_splits option.splits sum.splits prod.splits)
    (metis snd_conv)+

lemma webhook_step_claims:
  assumes win: "in_window (weRedis V) (whTTL h) t0" and step: "webhook_step V h pc s = (pc', s')"
    and "holds_mark e pc'" and "\<not> holds_mark e pc"
  shows "\<not> marked_until (whTTL h) t0 (wsRedis s) e \<and> marked_until (whTTL h) t0 (wsRedis s') e"
proof -
  obtain rd where rd: "redis_do (weRedis V) (redis_setnx (dedup_key e) ''1'') (wsRedis s) = (Inr True, rd)"
    and s': "wsRedis s' = rd"
    using step assms(3,4)
    by (auto simp: webhook_step_def holds_mark_def
        split: webhook_pc.splits if_splits option.splits sum.splits prod.splits)
  show ?thesis
    by (cases rule: redis_do_time [OF win, of "redis_setnx (dedup_key e) ''1''" "wsRedis s"])
      (use rd s' setnx_marked(2) [of "whTTL h" t0 "wsRedis s\<lparr>rd_world := _\<rparr>" e]
       in \<open>auto intro: setnx_new_marks\<close>)
qed

interpretation forwarder: claiming "webhook_step V h" delivery around "\<lambda>_. in_window (weRedis V) (whTTL h) t0" "\<lambda>_. True"
    "holds_mark eid" "forwarding eid" "\<lambda>s. marked_until (whTTL h) t0 (wsRedis s) eid"
  for V :: "('w, 'o) webhook_env" and h :: webhook_handler and t0 :: int and eid :: string
proof
  fix pc pc' and s s' :: "('w, 'o) webhook_state"
  show "delivery pc \<Longrightarrow> \<not> holds_mark eid pc" by (auto simp: delivery_def holds_mark_def)
  show "forwarding eid pc \<Longrightarrow> holds_mark eid pc" by (rule forwarding_holds)
  show "forwarding eid pc \<Longrightarrow> webhook_step V h pc s = (pc', s') \<Longrightarrow> \<not> holds_mark eid pc'"
    by (auto simp: forwarding_def holds_mark_def webhook_step_def split: prod.splits option.splits)
  show "around s s' \<Longrightarrow> marked_until (whTTL h) t0 (wsRedis s) eid \<Longrightarrow> marked_until (whTTL h) t0 (wsRedis s') eid"
    by (auto simp: around_def)
qed (use webhook_step_marks webhook_step_claims in blast)+

fun webhook_steps_left :: "webhook_pc \<Rightarrow> nat" where
  "webhook_steps_left (WBegin r) = 3"
| "webhook_steps_left (WExpire pe) = 2"
| "webhook_steps_left (WForward pe) = 1"
| "webhook_steps_left (WDone resp) = 0"

interpretation forwarder: ending "webhook_step V h" delivery webhook_steps_left 3
  for V :: "('w, 'o) webhook_env" and h :: webhook_handler
proof
  fix pc pc' and s s' :: "('w, 'o) webhook_state"
  show "delivery pc \<Longrightarrow> webhook_steps_left pc \<le> 3" by (cases pc) auto
  show "webhook_step V h pc s = (pc', s') \<Longrightarrow> webhook_steps_left pc' \<le> webhook_steps_left pc - 1"
    by (cases pc) (auto simp: webhook_step_def split: if_splits option.splits sum.splits prod.splits)
qed

lemma deliveries_acknowledged:
  assumes "deliveries_together V h s tr (hs, s')" and "i < length hs" and "3 \<le> length (filter (moves_by i) tr)"
  shows "acknowledged (hs ! i)"
  using forwarder.ends(2) [OF assms] by (cases "hs ! i") (simp_all add: acknowledged_def)

text \<open>
  C12: deliveries that race. However the steps of concurrent deliveries are interleaved, in one process
  or several on one Redis, and whatever is lost on the way to it, within one TTL the orchestrator is
  called at most once for one event.
\<close>

theorem concurrent_deliveries_once:
  assumes "in_window (weRedis V) (whTTL h) t0" and "deliveries_together V h s tr (hs, s')"
  shows "length (filter (moves_of (forwarding eid)) tr) \<le> 1"
  by (rule forwarder.acts_at_most_once [OF assms(2,1)])

text \<open>Two deliveries of one event, their steps in turn.\<close>

definition demo_deliveries :: "webhook_pc activity list \<times> (webhook_pc list \<times> (unit, unit) webhook_state)" where
  "demo_deliveries = apfst (append [Arrives, Arrives])
     (run_trace (webhook_step (demo_webhook failing_peer) demo_handler) [0, 1, 0, 1, 0]
       ([WBegin (demo_delivery ''good''), WBegin (demo_delivery ''good'')], demo_webhook_state ()))"

theorem concurrent_deliveries_once_witness:
  "length (filter (moves_of (forwarding ''evt_1'')) (fst demo_deliveries)) \<le> 1"
proof (rule concurrent_deliveries_once [OF demo_in_window])
  show "deliveries_together (demo_webhook failing_peer) demo_handler (demo_webhook_state ()) (fst demo_deliveries)
      (fst (snd demo_deliveries), snd (snd demo_deliveries))"
    using scheduled_run [of delivery "[WBegin (demo_delivery ''good''), WBegin (demo_delivery ''good'')]"
        "webhook_step (demo_webhook failing_peer) demo_handler" around "demo_webhook_state ()" "[0, 1, 0, 1, 0]"]
    by (simp add: demo_deliveries_def delivery_def)
qed

section \<open>A mark without an expiry\<close>

text \<open>
  SETNX and EXPIRE are two commands. A handler that stops between them, or whose EXPIRE is lost,
  leaves a mark that never expires: no later delivery of the event, however late, is forwarded.
\<close>

lemma setnx_taken: "redis_do E (redis_setnx k v) r = (Inr True, r') \<Longrightarrow> rd_keys r' k = Some (RString v, None)"
  by (cases rule: redis_do_cases [of E "redis_setnx k v" r]) (auto simp: redis_setnx_def split: option.splits)

lemma mark_before_expiry:
  assumes "webhook_step V h (WBegin r) s = (WExpire pe, s1)"
  shows "rd_keys (wsRedis s1) (dedup_key (peEventID pe)) = Some (RString ''1'', None)"
proof -
  have "redis_do (weRedis V) (redis_setnx (dedup_key (peEventID pe)) ''1'') (wsRedis s) = (Inr True, wsRedis s1)"
    using assms by (auto simp: webhook_step_def split: if_splits option.splits sum.splits prod.splits)
  then show ?thesis by (rule setnx_taken)
qed

lemma mark_for_ever:
  assumes "rd_keys (wsRedis s) (dedup_key (peEventID pe)) = Some (v, None)" and "accepted V h r = Some pe"
  shows "wsOrch (snd (Webhook_ServeHTTP V h r s)) = wsOrch s \<and>
    rd_keys (wsRedis (snd (Webhook_ServeHTTP V h r s))) (dedup_key (peEventID pe)) = Some (v, None)"
proof -
  let ?k = "dedup_key (peEventID pe)"
  have "rd_keys (snd (IsProcessed (weRedis V) (whTTL h) (peEventID pe) (wsRedis s))) ?k = Some (v, None) \<and>
      fst (IsProcessed (weRedis V) (whTTL h) (peEventID pe) (wsRedis s)) \<noteq> Inr False"
    by (cases rule: redis_do_cases [of "weRedis V" "redis_setnx ?k ''1''" "wsRedis s"])
      (use assms(1) in \<open>auto simp: IsProcessed_def Let_def redis_setnx_def live_def\<close>)
  then show ?thesis
    using assms(2) ServeHTTP_orch [of V h r s] ServeHTTP_redis [of V h r s] by (simp add: forwards_def)
qed

end
