(* ===== verification/ApiServer.thy ===== *)
theory ApiServer
  imports Api RateLimit
begin

text \<open>
  The API process: its configuration from the environment (\<open>internal/config/config.go\<close>), and the chain
  that \<open>NewRouterWithClient\<close> of \<open>internal/http/router.go\<close> builds, the rate limiter before every route.
  Which route a request matches is decided by the chi router and is an input; request ids, the access
  log and the metrics middleware pass a request on unchanged and are left out.
\<close>

section \<open>time.ParseDuration\<close>

text \<open>
  The leading digits as an integer, or an error beyond \<open>2^63\<close>; the digits of a fraction, dropped where
  they no longer fit, with the power of ten they are counted in.
\<close>

definition leading_int :: "string \<Rightarrow> int option" where
  "leading_int ds = (if digits_value ds \<le> 2 ^ 63 then Some (digits_value ds) else None)"

fun leading_fraction :: "string \<Rightarrow> int \<Rightarrow> rat \<Rightarrow> int \<times> rat" where
  "leading_fraction [] x scale = (x, scale)"
| "leading_fraction (c # cs) x scale =
     (let y = 10 * x + (of_char c - 48)
      in if x > (2 ^ 63 - 1) div 10 \<or> y > 2 ^ 63 then (x, scale)
         else leading_fraction cs y (fmul scale 10))"

text \<open>The units in nanoseconds; the micro sign comes in two encodings.\<close>

definition duration_unit :: "string \<Rightarrow> int option" where
  "duration_unit u =
     (if u = ''ns'' then Some 1
      else if u \<in> {''us'', [char_of (194::nat), char_of (181::nat), CHR ''s''],
                    [char_of (206::nat), char_of (188::nat), CHR ''s'']} then Some (10 ^ 3)
      else if u = ''ms'' then Some (10 ^ 6)
      else if u = ''s'' then Some (10 ^ 9)
      else if u = ''m'' then Some (60 * 10 ^ 9)
      else if u = ''h'' then Some (3600 * 10 ^ 9) else None)"

definition unit_char :: "char \<Rightarrow> bool" where
  "unit_char c \<longleftrightarrow> c \<noteq> CHR ''.'' \<and> \<not> is_digit c"

text \<open>One number with its unit: its value in nanoseconds and the rest of the text.\<close>

definition duration_term :: "string \<Rightarrow> (int \<times> string) option" where
  "duration_term s =
     (let ip = takeWhile is_digit s;
          s1 = dropWhile is_digit s;
          dot = (s1 \<noteq> [] \<and> hd s1 = CHR ''.'');
          fp = (if dot then takeWhile is_digit (tl s1) else []);
          s2 = (if dot then dropWhile is_digit (tl s1) else s1);
          u = takeWhile unit_char s2
      in if s = [] \<or> \<not> (hd s = CHR ''.'' \<or> is_digit (hd s)) \<or> ip = [] \<and> fp = [] then None
         else case (leading_int ip, duration_unit u) of
           (Some v, Some n) \<Rightarrow>
             if v > 2 ^ 63 div n then None
             else let (f, scale) = leading_fraction fp 0 1;
                      v2 = v * n + (if f > 0 then \<lfloor>fmul (float64_of_int f) (fdiv (float64_of_int n) scale)\<rfloor> else 0)
                  in if v2 > 2 ^ 63 then None else Some (v2, dropWhile unit_char s2)
         | _ \<Rightarrow> None)"

text \<open>The loop, with the length of the text as fuel: every term takes at least one character.\<close>

fun duration_sum :: "nat \<Rightarrow> string \<Rightarrow> int \<Rightarrow> int option" where
  "duration_sum fuel [] d = Some d"
| "duration_sum 0 s d = None"
| "duration_sum (Suc fuel) s d =
     (case duration_term s of
        None \<Rightarrow> None
      | Some (v, rest) \<Rightarrow>
          let d' = (d + v) mod 2 ^ 64
          in if d' > 2 ^ 63 then None else duration_sum fuel rest d')"

definition ParseDuration :: "string \<Rightarrow> int option" where
  "ParseDuration lit =
     (case split_sign lit of (neg, s) \<Rightarrow>
        if s = ''0'' then Some 0
        else if s = [] then None
        else (case duration_sum (length s) s 0 of
                None \<Rightarrow> None
              | Some d \<Rightarrow> if neg then Some (- d) else if d > 2 ^ 63 - 1 then None else Some d))"

section \<open>Configuration\<close>

record api_config =
  acEnv :: string
  acHTTPAddr :: string
  acLogLevel :: string
  acOrchestratorAddr :: string
  acReadTimeout :: int
  acReadHeaderTimeout :: int
  acWriteTimeout :: int
  acIdleTimeout :: int
  acShutdownTimeout :: int
  acRedisAddr :: string
  acRedisPassword :: string
  acRateLimitEnabled :: bool
  acRateLimitRequestsPerSecond :: rat
  acRateLimitBurstSize :: int

text \<open>The environment, the \<open>.env\<close> file included, is the function \<open>env\<close>; an unset variable is empty.\<close>

definition getEnv :: "(string \<Rightarrow> string) \<Rightarrow> string \<Rightarrow> string \<Rightarrow> string" where
  "getEnv env key fallback = (let value = env key in if value = [] then fallback else value)"

text \<open>
  A text that is no duration may be a number of seconds. (Of the error's text only the general form is
  kept: Go also tells a missing and an unknown unit.)
\<close>

definition getDurationEnv :: "(string \<Rightarrow> string) \<Rightarrow> string \<Rightarrow> int \<Rightarrow> int result" where
  "getDurationEnv env key fallback =
     (let value = env key in
      if value = [] then Inr fallback
      else case ParseDuration value of
        Some duration \<Rightarrow> Inr duration
      | None \<Rightarrow>
          (case ParseInt64 value of
             None \<Rightarrow> Inl (ErrText (''time: invalid duration '' @ time_quote value))
           | Some seconds \<Rightarrow> Inr (wrap64 (seconds * 10 ^ 9))))"

text \<open>
  \<open>strconv.ParseFloat\<close> reads more forms than the decimals here (exponents, hexadecimal, and texts for
  infinity and NaN, which are no rationals): it is the argument \<open>parse_float\<close>.
\<close>

definition getFloatEnv :: "(string \<Rightarrow> rat option) \<Rightarrow> (string \<Rightarrow> string) \<Rightarrow> string \<Rightarrow> rat \<Rightarrow> rat" where
  "getFloatEnv parse_float env key fallback =
     (let value = env key in
      if value = [] then fallback
      else case parse_float value of None \<Rightarrow> fallback | Some f \<Rightarrow> f)"

definition getInt64Env :: "(string \<Rightarrow> string) \<Rightarrow> string \<Rightarrow> int \<Rightarrow> int" where
  "getInt64Env env key fallback =
     (let value = env key in
      if value = [] then fallback
      else case ParseInt64 value of None \<Rightarrow> fallback | Some i \<Rightarrow> i)"

text \<open>The five timeouts are read one after the other; the first that cannot be read is the error.\<close>

definition read_timeout ::
    "(string \<Rightarrow> string) \<Rightarrow> string \<Rightarrow> int \<Rightarrow> (int \<Rightarrow> api_config \<Rightarrow> api_config) \<Rightarrow> api_config result \<Rightarrow>
     api_config result" where
  "read_timeout env key fallback store cfg =
     (case cfg of
        Inl err \<Rightarrow> Inl err
      | Inr c \<Rightarrow>
          (case getDurationEnv env key fallback of
             Inl err \<Rightarrow> Inl (ErrWrap (''parse '' @ key) err)
           | Inr d \<Rightarrow> Inr (store d c)))"

definition api_Load :: "(string \<Rightarrow> rat option) \<Rightarrow> (string \<Rightarrow> string) \<Rightarrow> api_config result" where
  "api_Load parse_float env =
     (let cfg =
        \<lparr>acEnv = getEnv env ''API_ENV'' ''development'', acHTTPAddr = getEnv env ''API_HTTP_ADDR'' '':8080'',
         acLogLevel = getEnv env ''API_LOG_LEVEL'' ''info'',
         acOrchestratorAddr = getEnv env ''API_ORCHESTRATOR_ADDR'' ''localhost:50051'',
         acReadTimeout = 0, acReadHeaderTimeout = 0, acWriteTimeout = 0, acIdleTimeout = 0, acShutdownTimeout = 0,
         acRedisAddr = getEnv env ''API_REDIS_ADDR'' ''localhost:6379'',
         acRedisPassword = getEnv env ''API_REDIS_PASSWORD'' [],
         acRateLimitEnabled = (getEnv env ''API_RATE_LIMIT_ENABLED'' ''false'' = ''true''),
         acRateLimitRequestsPerSecond = getFloatEnv parse_float env ''API_RATE_LIMIT_RPS'' 10,
         acRateLimitBurstSize = getInt64Env env ''API_RATE_LIMIT_BURST'' 20\<rparr>
      in read_timeout env ''API_SHUTDOWN_TIMEOUT'' (10 * 10 ^ 9) (\<lambda>d c. c\<lparr>acShutdownTimeout := d\<rparr>)
        (read_timeout env ''API_IDLE_TIMEOUT'' (30 * 10 ^ 9) (\<lambda>d c. c\<lparr>acIdleTimeout := d\<rparr>)
          (read_timeout env ''API_WRITE_TIMEOUT'' (10 * 10 ^ 9) (\<lambda>d c. c\<lparr>acWriteTimeout := d\<rparr>)
            (read_timeout env ''API_READ_HEADER_TIMEOUT'' (2 * 10 ^ 9) (\<lambda>d c. c\<lparr>acReadHeaderTimeout := d\<rparr>)
              (read_timeout env ''API_READ_TIMEOUT'' (5 * 10 ^ 9) (\<lambda>d c. c\<lparr>acReadTimeout := d\<rparr>) (Inr cfg))))))"

section \<open>The routes\<close>

text \<open>
  What chi matched, with the header and the decoded body of a POST and the id of the path (or the
  status of its own answer, 404 or 405), and what is answered; the text of the metrics is the
  Prometheus client's.
\<close>

datatype api_route =
    RMetrics | RHealth | RCreate string "json option" | RGet string | RCancel string | RUnmatched nat

datatype api_answer = Metrics | Healthy | Payout api_response | RouteNotFound nat

definition api_dispatch :: "'o payout_client \<Rightarrow> api_route \<Rightarrow> 'o \<Rightarrow> api_answer \<times> 'o" where
  "api_dispatch client route o1 =
     (case route of
        RMetrics \<Rightarrow> (Metrics, o1)
      | RHealth \<Rightarrow> (Healthy, o1)
      | RCreate key body \<Rightarrow> apfst Payout (createPayoutHandler client key body o1)
      | RGet i \<Rightarrow> apfst Payout (getPayoutHandler client i o1)
      | RCancel i \<Rightarrow> apfst Payout (cancelPayoutHandler client i o1)
      | RUnmatched status \<Rightarrow> (RouteNotFound status, o1))"

definition router_limits :: "api_config \<Rightarrow> rate_limit_config" where
  "router_limits cfg =
     \<lparr>rlKeyPrefix = ''ratelimit:global'', rlRequestsPerSecond = acRateLimitRequestsPerSecond cfg,
      rlBurstSize = acRateLimitBurstSize cfg\<rparr>"

definition NewRouterWithClient ::
    "'o payout_client \<Rightarrow> 'w redis_env option \<Rightarrow> api_config \<Rightarrow> int \<Rightarrow> api_route \<Rightarrow> 'w limiter_state \<times> 'o \<Rightarrow>
     api_answer limited \<times> ('w limiter_state \<times> 'o)" where
  "NewRouterWithClient client redis cfg now route st =
     RateLimitWithConfig redis (acRateLimitEnabled cfg) (router_limits cfg) now (api_dispatch client route) st"

end
