(* ===== verification/ApiServerFacts.thy ===== *)
theory ApiServerFacts
  imports ApiServer RateLimitFacts
begin

text \<open>
  The API service as it is put together: its configuration with nothing set, the two ways of writing a
  timeout, and the rate limiter in front of every route. The laws of the limiter come from
  \<^verbatim>\<open>RateLimitFacts\<close>.
\<close>

section \<open>Configuration\<close>

text \<open>With nothing set, the service starts with its defaults, and the limiter off.\<close>

lemma api_Load_defaults:
  "api_Load parse_float (\<lambda>_. []) = Inr
     \<lparr>acEnv = ''development'', acHTTPAddr = '':8080'', acLogLevel = ''info'',
      acOrchestratorAddr = ''localhost:50051'', acReadTimeout = 5 * 10 ^ 9, acReadHeaderTimeout = 2 * 10 ^ 9,
      acWriteTimeout = 10 * 10 ^ 9, acIdleTimeout = 30 * 10 ^ 9, acShutdownTimeout = 10 * 10 ^ 9,
      acRedisAddr = ''localhost:6379'', acRedisPassword = [], acRateLimitEnabled = False,
      acRateLimitRequestsPerSecond = 10, acRateLimitBurstSize = 20\<rparr>"
  by (simp add: api_Load_def getEnv_def getFloatEnv_def getInt64Env_def read_timeout_def getDurationEnv_def)

text \<open>A plain number is a number of seconds: as a duration its unit would be missing.\<close>

lemma ParseDuration_number:
  assumes "list_all is_digit ds" and "ds \<noteq> []" and "ds \<noteq> ''0''"
  shows "ParseDuration ds = None"
proof -
  have "duration_unit [] = None" by (simp add: duration_unit_def)
  have "takeWhile is_digit ds = ds" "dropWhile is_digit ds = []"
    using assms(1) by (auto simp: list_all_iff)
  note tw = this
  from \<open>duration_unit [] = None\<close> have "duration_term ds = None"
    using assms(2) unfolding duration_term_def Let_def tw by (simp split: option.split)
  moreover obtain c cs where "ds = c # cs" using assms(2) by (cases ds) auto
  ultimately show ?thesis
    using assms by (simp add: ParseDuration_def split_sign_digits)
qed

lemma getDurationEnv_seconds:
  assumes "env key = nat_text n" and "n < 9000000000" and "0 < n"
  shows "getDurationEnv env key fallback = Inr (int n * 10 ^ 9)"
proof -
  note d = digits_value_text [of n]
  have "nat_text n \<noteq> ''0''" using d assms(3) by (auto simp: digits_value_def)
  then have "ParseDuration (nat_text n) = None" using d by (intro ParseDuration_number) auto
  moreover have "ParseInt64 (nat_text n) = Some (int n)"
    using ParseInt_text [of "int n"] assms(2) by (simp add: ParseInt64_def int_text_def)
  ultimately show ?thesis
    using assms(1,2) d wrap64_id [of "int n * 10 ^ 9"] by (simp add: getDurationEnv_def Let_def)
qed

section \<open>The rate limiter before the routes\<close>

text \<open>A sequence of requests with the times at which they arrive.\<close>

fun api_run ::
    "'o payout_client \<Rightarrow> 'w redis_env option \<Rightarrow> api_config \<Rightarrow> (int \<times> api_route) list \<Rightarrow>
     'w limiter_state \<times> 'o \<Rightarrow> api_answer limited list \<times> ('w limiter_state \<times> 'o)" where
  "api_run client redis cfg [] st = ([], st)"
| "api_run client redis cfg ((now, route) # rs) st =
     (case NewRouterWithClient client redis cfg now route st of (a, st1) \<Rightarrow>
      case api_run client redis cfg rs st1 of (as, st') \<Rightarrow> (a # as, st'))"

definition refused :: "'r limited \<Rightarrow> bool" where
  "refused a \<longleftrightarrow> (case a of TooManyRequests _ \<Rightarrow> True | Served _ \<Rightarrow> False)"

lemma refused_simps [simp]: "refused (TooManyRequests n)" "\<not> refused (Served r)"
  by (simp_all add: refused_def)

text \<open>The other side after the requests that were served.\<close>

fun dispatch_served ::
    "'o payout_client \<Rightarrow> (api_answer limited \<times> api_route) list \<Rightarrow> 'o \<Rightarrow> 'o" where
  "dispatch_served client [] o1 = o1"
| "dispatch_served client ((a, route) # ars) o1 =
     dispatch_served client ars (if refused a then o1 else snd (api_dispatch client route o1))"

lemma NewRouter_step:
  assumes "acRateLimitEnabled cfg" and "Allow E (router_limits cfg) ''global'' now l = (res, l')"
  shows "NewRouterWithClient client (Some E) cfg now route (l, o1) =
    (if res = Inr False then (TooManyRequests 1, (l', o1))
     else (Served (fst (api_dispatch client route o1)), (l', snd (api_dispatch client route o1))))"
  using assms
  by (auto simp: NewRouterWithClient_def RateLimitWithConfig_def split_beta split: sum.split)

lemma api_run_gate:
  assumes "acRateLimitEnabled cfg"
  shows "case api_run client (Some E) cfg rs (l, ob) of (as, (l', o')) \<Rightarrow>
    case allow_run E (router_limits cfg) ''global'' (map fst rs) l of (res, l2) \<Rightarrow>
      l' = l2 \<and> map refused as = map (\<lambda>r. r = Inr False) res \<and>
      o' = dispatch_served client (zip as (map snd rs)) ob"
proof (induction rs arbitrary: l ob)
  case (Cons r rs)
  obtain now route where r: "r = (now, route)" by (cases r)
  obtain res l1 where a: "Allow E (router_limits cfg) ''global'' now l = (res, l1)" by (metis prod.collapse)
  define ob1 where "ob1 = (if res = Inr False then ob else snd (api_dispatch client route ob))"
  obtain as l2 ob2 where run: "api_run client (Some E) cfg rs (l1, ob1) = (as, (l2, ob2))" by (metis prod.collapse)
  obtain ress l3 where al: "allow_run E (router_limits cfg) ''global'' (map fst rs) l1 = (ress, l3)"
    by (metis prod.collapse)
  have "l2 = l3" "map refused as = map (\<lambda>r. r = Inr False) ress" "ob2 = dispatch_served client (zip as (map snd rs)) ob1"
    using Cons.IH [where l = l1 and ob = ob1] by (simp_all add: run al)
  then show ?case
    using NewRouter_step [OF assms a, of client route ob] run
    by (cases "res = Inr False") (simp_all add: r a al ob1_def)
qed simp

text \<open>
  C17: what the rate limiter lets through. Over any requests at times that do not decrease, in five
  minutes of a Redis server that answers, no more of them are served than the burst and the refill of
  that time allow (up to 0.6 percent), the others are answered with 429, and the orchestrator has seen
  exactly the requests that were served, in their order.
\<close>

theorem api_rate_limited:
  assumes "acRateLimitEnabled cfg" and "redis_reliable E" and "clock_within E t0"
    and "stored_bucket t0 (rd_keys (lsRedis l) ''ratelimit:global:global'') None"
    and "0 \<le> acRateLimitRequestsPerSecond cfg" "0 \<le> acRateLimitBurstSize cfg" "acRateLimitBurstSize cfg \<le> 2 ^ 40"
    and "sorted (map fst ((start, route) # rs))" "\<forall>now \<in> set (map fst ((start, route) # rs)). 0 \<le> now \<and> now \<le> T"
    and "T < 2 ^ 63"
  shows "case api_run client (Some E) cfg ((start, route) # rs) (l, o1) of (as, (l', o')) \<Rightarrow>
    of_nat (length (filter (\<lambda>a. \<not> refused a) as)) * (994 / 1000) \<le>
      of_int (acRateLimitBurstSize cfg) + of_int (T - start) / 1000 * acRateLimitRequestsPerSecond cfg * (1 + 1 / 2 ^ 50) \<and>
    o' = dispatch_served client (zip as (route # map snd rs)) o1"
proof -
  let ?lim = "router_limits cfg" and ?nows = "map fst ((start, route) # rs)"
  have key: "bucket_key ?lim ''global'' = ''ratelimit:global:global''" by (simp add: bucket_key_def router_limits_def)
  have lim: "rlRequestsPerSecond ?lim = acRateLimitRequestsPerSecond cfg" "rlBurstSize ?lim = acRateLimitBurstSize cfg"
    by (simp_all add: router_limits_def)
  obtain as l' o' where run: "api_run client (Some E) cfg ((start, route) # rs) (l, o1) = (as, (l', o'))"
    by (metis prod.collapse)
  obtain res l2 where al: "allow_run E ?lim ''global'' ?nows l = (res, l2)" by (metis prod.collapse)
  have gate: "map refused as = map (\<lambda>r. r = Inr False) res"
      "o' = dispatch_served client (zip as (route # map snd rs)) o1"
    using api_run_gate [OF assms(1), where client = client and E = E and rs = "(start, route) # rs" and l = l and ob = o1] run al by auto
  obtain oks b2 where br: "bucket_run ?lim ?nows None = (oks, b2)" by (metis prod.collapse)
  have "\<forall>now \<in> set ?nows. 0 \<le> now \<and> now < 2 ^ 63" using assms(9,10) by force
  from allow_run_refines [OF assms(2,3) _ this, of l ?lim "''global''" None]
  have "res = map Inr oks" using assms(4) by (simp only: key al br prod.case)
  then have "map refused as = map Not oks" using gate(1) by (auto simp: o_def)
  then have "length (filter (\<lambda>b. \<not> b) (map refused as)) = length (filter (\<lambda>b. \<not> b) (map Not oks))" by simp
  then have "length (filter (\<lambda>a. \<not> refused a) as) = allowed_count res"
    by (simp add: allowed_count_def \<open>res = map Inr oks\<close> filter_map o_def)
  moreover have "of_nat (allowed_count res) * (994 / 1000) \<le> of_int (acRateLimitBurstSize cfg) +
      of_int (T - start) / 1000 * acRateLimitRequestsPerSecond cfg * (1 + 1 / 2 ^ 50)"
    using rate_bounded [OF assms(3), of l ?lim "''global''" start "map fst rs" T] assms(4-10) al
    by (simp add: key lim)
  ultimately show ?thesis using run gate(2) by simp
qed

text \<open>A client that counts its calls.\<close>

definition counting_client :: "nat payout_client" where
  "counting_client =
     \<lparr>pcCreatePayout = (\<lambda>req n. (Inr \<lparr>caPayoutId = ''1'', caStatus = ''sent''\<rparr>, n + 1)),
      pcGetPayout = (\<lambda>i n. (Inl (StatusError GrpcNotFound CodeNotFound), n + 1)),
      pcCancelPayout = (\<lambda>i n. (Inr True, n + 1))\<rparr>"

definition limited_config :: api_config where
  "limited_config =
     \<lparr>acEnv = [], acHTTPAddr = [], acLogLevel = [], acOrchestratorAddr = [], acReadTimeout = 0,
      acReadHeaderTimeout = 0, acWriteTimeout = 0, acIdleTimeout = 0, acShutdownTimeout = 0, acRedisAddr = [],
      acRedisPassword = [], acRateLimitEnabled = True, acRateLimitRequestsPerSecond = 1, acRateLimitBurstSize = 2\<rparr>"

theorem api_rate_limited_witness:
  "of_nat (length (filter (\<lambda>a. \<not> refused a) (fst (api_run counting_client (Some steady_redis) limited_config
     [(0, RGet ''1''), (0, RGet ''1''), (1000, RGet ''1'')] (idle_limiter, 0))))) * (994 / 1000)
     \<le> (3 + 1 / 2 ^ 50 :: rat)"
  using api_rate_limited [OF _ steady_redis_ok idle_limiter_ok, of limited_config 0 "RGet ''1''"
      "[(0, RGet ''1''), (1000, RGet ''1'')]" 1000 counting_client 0]
  by (auto simp: limited_config_def split: prod.splits)

end
