(* ===== verification/HttpMetrics.thy ===== *)
theory HttpMetrics
  imports ApiServerFacts
begin

text \<open>
  \<open>libs/observability/http_metrics.go\<close>: what the HTTP middleware tells Prometheus, as the list of calls
  it makes, with the cache of metrics per namespace; then the API's chain with this middleware outside
  the rate limiter, which records the requests it refuses by itself.
\<close>

section \<open>Calls to the Prometheus client\<close>

text \<open>
  Metrics of a namespace are registered (once: a second registration panics), and a request is
  counted in flight per method (verb), and by method, path and status.
\<close>

abbreviation NamespaceAPI :: string where "NamespaceAPI \<equiv> ''api''"
abbreviation NamespaceWebhook :: string where "NamespaceWebhook \<equiv> ''webhook''"

datatype metric_call =
    RegisterMetrics string
  | InFlightInc string string
  | InFlightDec string string
  | ObserveLatency string string string string
  | RequestsInc string string string string

record metrics_state =
  msCache :: "string list"
  msCalls :: "metric_call list"

definition metric :: "metric_call \<Rightarrow> metrics_state \<Rightarrow> metrics_state" where
  "metric c m = m\<lparr>msCalls := msCalls m @ [c]\<rparr>"

definition getHTTPMetrics :: "string \<Rightarrow> metrics_state \<Rightarrow> metrics_state" where
  "getHTTPMetrics namespace m =
     (if namespace \<in> set (msCache m) then m
      else metric (RegisterMetrics namespace) (m\<lparr>msCache := namespace # msCache m\<rparr>))"

definition RecordRequest :: "string \<Rightarrow> string \<Rightarrow> string \<Rightarrow> string \<Rightarrow> metrics_state \<Rightarrow> metrics_state" where
  "RecordRequest namespace verb path status m =
     metric (RequestsInc namespace verb path status) (getHTTPMetrics namespace m)"

text \<open>The path's label: the pattern chi matched, if there is a routing context and it matched one.\<close>

definition normalizePath :: "string option \<Rightarrow> string \<Rightarrow> string" where
  "normalizePath pattern path =
     (case pattern of
        None \<Rightarrow> path
      | Some p \<Rightarrow> if p = [] \<or> p = ''/*'' then path else p)"

text \<open>
  The middleware of a namespace around a handler that answers with a status and leaves the pattern of
  the route behind. (The duration that is observed is left out.)
\<close>

definition HTTPMetricsMiddleware ::
    "string \<Rightarrow> ('a \<Rightarrow> nat) \<Rightarrow> ('a \<Rightarrow> string option) \<Rightarrow> string \<Rightarrow> string \<Rightarrow>
     (metrics_state \<times> 's \<Rightarrow> 'a \<times> (metrics_state \<times> 's)) \<Rightarrow> metrics_state \<times> 's \<Rightarrow> 'a \<times> (metrics_state \<times> 's)" where
  "HTTPMetricsMiddleware namespace status_of pattern_of verb path nxt st =
     (case st of (m, s) \<Rightarrow>
      case nxt (metric (InFlightInc namespace verb) m, s) of (a, (m1, s1)) \<Rightarrow>
        let status = nat_text (status_of a);
            label = normalizePath (pattern_of a) path
        in (a, (metric (InFlightDec namespace verb)
                 (metric (RequestsInc namespace verb label status)
                   (metric (ObserveLatency namespace verb label status) m1)), s1)))"

section \<open>The chain of the API\<close>

text \<open>The limiter as it is, and the record of a refused request (\<open>observability.RecordRequest\<close>).\<close>

definition limiter_recorded ::
    "string \<Rightarrow> string \<Rightarrow> ('s \<Rightarrow> 'r limited \<times> 's) \<Rightarrow> metrics_state \<times> 's \<Rightarrow> 'r limited \<times> (metrics_state \<times> 's)" where
  "limiter_recorded verb path limiter st =
     (case st of (m, s) \<Rightarrow>
      case limiter s of
        (TooManyRequests n, s') \<Rightarrow> (TooManyRequests n, (RecordRequest ''api'' verb path ''429'' m, s'))
      | (Served r, s') \<Rightarrow> (Served r, (m, s')))"

definition answer_status :: "api_answer limited \<Rightarrow> nat" where
  "answer_status a =
     (case a of
        TooManyRequests _ \<Rightarrow> 429
      | Served r \<Rightarrow>
          (case r of Metrics \<Rightarrow> 200 | Healthy \<Rightarrow> 200 | Payout resp \<Rightarrow> apStatus resp | RouteNotFound status \<Rightarrow> status))"

text \<open>
  The pattern that chi has for a route, nothing while the request has not been routed (\<open>chi_pattern\<close>).
  The limiter runs before the routing.
\<close>

definition api_metered ::
    "(api_route option \<Rightarrow> string) \<Rightarrow> 'o payout_client \<Rightarrow> 'w redis_env option \<Rightarrow> api_config \<Rightarrow>
     int \<Rightarrow> string \<Rightarrow> string \<Rightarrow> api_route \<Rightarrow> metrics_state \<times> ('w limiter_state \<times> 'o) \<Rightarrow>
     api_answer limited \<times> (metrics_state \<times> ('w limiter_state \<times> 'o))" where
  "api_metered chi_pattern client redis cfg now verb path route =
     HTTPMetricsMiddleware NamespaceAPI answer_status
       (\<lambda>a. Some (chi_pattern (if refused a then None else Some route))) verb path
       (limiter_recorded verb path (NewRouterWithClient client redis cfg now route))"

fun metered_run ::
    "(api_route option \<Rightarrow> string) \<Rightarrow> 'o payout_client \<Rightarrow> 'w redis_env option \<Rightarrow> api_config \<Rightarrow>
     (int \<times> string \<times> string \<times> api_route) list \<Rightarrow> metrics_state \<times> ('w limiter_state \<times> 'o) \<Rightarrow>
     api_answer limited list \<times> (metrics_state \<times> ('w limiter_state \<times> 'o))" where
  "metered_run chi_pattern client redis cfg [] st = ([], st)"
| "metered_run chi_pattern client redis cfg ((now, verb, path, route) # rs) st =
     (case api_metered chi_pattern client redis cfg now verb path route st of (a, st1) \<Rightarrow>
      case metered_run chi_pattern client redis cfg rs st1 of (as, st') \<Rightarrow> (a # as, st'))"

section \<open>What is counted\<close>

text \<open>The metrics change nothing else: the answers and the rest of the state are those of the chain without them.\<close>

lemma limiter_recorded_same:
  "limiter_recorded verb path limiter (m, s) = (a, (m', s')) \<Longrightarrow> limiter s = (a, s')"
  by (auto simp: limiter_recorded_def split: prod.splits limited.splits)

lemma api_metered_same:
  assumes "api_metered chi_pattern client redis cfg now verb path route (m, s) = (a, (m', s'))"
  shows "NewRouterWithClient client redis cfg now route s = (a, s')"
  using assms
  by (auto simp: api_metered_def HTTPMetricsMiddleware_def Let_def split: prod.splits dest!: limiter_recorded_same)

lemma metered_run_same:
  "metered_run chi_pattern client redis cfg rs (m, s) = (as, (m', s')) \<Longrightarrow>
   api_run client redis cfg (map (\<lambda>(now, verb, path, route). (now, route)) rs) s = (as, s')"
proof (induction rs arbitrary: m s as)
  case (Cons r rs)
  obtain now verb path route where r: "r = (now, verb, path, route)" by (cases r)
  obtain a m1 s1 where a: "api_metered chi_pattern client redis cfg now verb path route (m, s) = (a, (m1, s1))"
    by (metis prod.collapse)
  obtain as' where "metered_run chi_pattern client redis cfg rs (m1, s1) = (as', (m', s'))" "as = a # as'"
    using Cons.prems a by (auto simp: r split: prod.splits)
  then show ?case using Cons.IH api_metered_same [OF a] by (simp add: r)
qed simp

text \<open>The increments of the request counter that one request makes.\<close>

definition request_counts :: "metric_call list \<Rightarrow> (string \<times> string \<times> string) list" where
  "request_counts cs = concat (map (\<lambda>c. case c of RequestsInc ns verb path status \<Rightarrow> [(verb, path, status)] | _ \<Rightarrow> []) cs)"

definition counted ::
    "(api_route option \<Rightarrow> string) \<Rightarrow> string \<Rightarrow> string \<Rightarrow> api_route \<Rightarrow> api_answer limited \<Rightarrow> (string \<times> string \<times> string) list" where
  "counted chi_pattern verb path route a =
     (if refused a then replicate 2 (verb, path, ''429'')
      else [(verb, normalizePath (Some (chi_pattern (Some route))) path, nat_text (answer_status a))])"

lemma request_counts_simps [simp]:
  "request_counts [] = []"
  "request_counts (cs @ cs') = request_counts cs @ request_counts cs'"
  "request_counts (RequestsInc ns verb path status # cs) = (verb, path, status) # request_counts cs"
  "request_counts (RegisterMetrics ns # cs) = request_counts cs"
  "request_counts (InFlightInc ns verb # cs) = request_counts cs"
  "request_counts (InFlightDec ns verb # cs) = request_counts cs"
  "request_counts (ObserveLatency ns verb path status # cs) = request_counts cs"
  by (simp_all add: request_counts_def)

lemma text_429: "nat_text 429 = ''429''"
  by code_simp

lemma refused_status: "refused a \<Longrightarrow> answer_status a = 429"
  by (auto simp: refused_def answer_status_def split: limited.splits)

lemma api_metered_counts:
  assumes "chi_pattern None = []"
    and "api_metered chi_pattern client redis cfg now verb path route (m, s) = (a, (m', s'))"
  shows "request_counts (msCalls m') = request_counts (msCalls m) @ counted chi_pattern verb path route a"
  using assms(1) assms(2) [unfolded api_metered_def HTTPMetricsMiddleware_def limiter_recorded_def]
  by (auto simp: counted_def Let_def metric_def RecordRequest_def getHTTPMetrics_def normalizePath_def text_429
      answer_status_def numeral_2_eq_2 split: prod.splits limited.splits if_splits)

text \<open>Requests in flight, by the calls so far.\<close>

definition in_flight :: "string \<Rightarrow> metric_call list \<Rightarrow> int" where
  "in_flight verb cs = (\<Sum>c \<leftarrow> cs. case c of
     InFlightInc ns m \<Rightarrow> if m = verb then 1 else 0 | InFlightDec ns m \<Rightarrow> if m = verb then - 1 else 0 | _ \<Rightarrow> 0)"

lemma api_metered_in_flight:
  assumes "api_metered chi_pattern client redis cfg now verb path route (m, s) = (a, (m', s'))"
  shows "in_flight me (msCalls m') = in_flight me (msCalls m)"
  using assms [unfolded api_metered_def HTTPMetricsMiddleware_def limiter_recorded_def]
  by (auto simp: in_flight_def Let_def metric_def RecordRequest_def getHTTPMetrics_def
      split: prod.splits limited.splits if_splits)

text \<open>
  C31: what the request counter shows. The metrics change no answer; after any requests every request
  that was served is counted once, under its route's pattern and its status, every refused one twice
  under its path and 429 (by the limiter, and by the middleware around it), and no request is left in
  flight.
\<close>

theorem refused_counted_twice:
  assumes "chi_pattern None = []"
    and "metered_run chi_pattern client redis cfg rs (m, s) = (as, (m', s'))"
  shows "api_run client redis cfg (map (\<lambda>(now, verb, path, route). (now, route)) rs) s = (as, s') \<and>
    request_counts (msCalls m') = request_counts (msCalls m) @
      concat (map (\<lambda>((now, verb, path, route), a). counted chi_pattern verb path route a) (zip rs as)) \<and>
    in_flight me (msCalls m') = in_flight me (msCalls m)"
proof -
  have "request_counts (msCalls m') = request_counts (msCalls m) @
      concat (map (\<lambda>((now, verb, path, route), a). counted chi_pattern verb path route a) (zip rs as)) \<and>
    in_flight me (msCalls m') = in_flight me (msCalls m)"
    using assms(2)
  proof (induction rs arbitrary: m s as)
    case (Cons r rs)
    obtain now verb path route where r: "r = (now, verb, path, route)" by (cases r)
    obtain a m1 s1 where a: "api_metered chi_pattern client redis cfg now verb path route (m, s) = (a, (m1, s1))"
      by (metis prod.collapse)
    obtain as' where "metered_run chi_pattern client redis cfg rs (m1, s1) = (as', (m', s'))" "as = a # as'"
      using Cons.prems a by (auto simp: r split: prod.splits)
    then show ?case using Cons.IH api_metered_counts [OF assms(1) a] api_metered_in_flight [OF a] by (simp add: r)
  qed simp
  then show ?thesis using metered_run_same [OF assms(2)] by simp
qed

text \<open>A limiter without tokens: the second of two requests is refused.\<close>

definition demo_pattern :: "api_route option \<Rightarrow> string" where
  "demo_pattern route = (case route of None \<Rightarrow> [] | Some _ \<Rightarrow> ''/v1/payouts/{id}'')"

definition demo_metered ::
    "api_answer limited list \<times> (metrics_state \<times> (unit limiter_state \<times> nat))" where
  "demo_metered = metered_run demo_pattern counting_client
     (Some steady_redis) (limited_config\<lparr>acRateLimitBurstSize := 1\<rparr>)
     [(0, ''GET'', ''/v1/payouts/1'', RGet ''1''), (0, ''GET'', ''/v1/payouts/1'', RGet ''1'')]
     (\<lparr>msCache = [''api''], msCalls = []\<rparr>, (idle_limiter, 0))"

lemma demo_metered_answers: "map refused (fst demo_metered) = [False, True]"
  by code_simp

theorem refused_counted_twice_witness:
  "length (filter ((=) (''GET'', ''/v1/payouts/1'', ''429'')) (request_counts (msCalls (fst (snd demo_metered))))) = 2"
proof -
  obtain as m' s' where run: "demo_metered = (as, (m', s'))" by (metis prod.collapse)
  obtain a1 a2 where as: "as = [a1, a2]" and a: "\<not> refused a1" "refused a2"
    using demo_metered_answers [unfolded run] by (auto simp: map_eq_Cons_conv)
  have "request_counts (msCalls m') =
      counted demo_pattern ''GET'' ''/v1/payouts/1'' (RGet ''1'') a1 @ counted demo_pattern ''GET'' ''/v1/payouts/1'' (RGet ''1'') a2"
    using refused_counted_twice [OF _ run [unfolded demo_metered_def]] by (simp add: as demo_pattern_def)
  then show ?thesis using a by (simp add: run counted_def normalizePath_def demo_pattern_def numeral_2_eq_2)
qed

end
