(* ===== verification/Process.thy ===== *)
theory Process
  imports GoErrors
begin

text \<open>
  What the three \<open>run\<close> functions of \<open>cmd/server/main.go\<close> are made of: calls to the outside that acquire
  something or fail, deferred releases, servers in goroutines, and a \<open>select\<close> over what ends the process.
  A process keeps a trace of what it did; the discipline of deferred releases is a contract of programs
  with one rule for every construct.
\<close>

section \<open>Traces\<close>

text \<open>
  What is released by a deferred call: the signal context, the logger, connections, the deadline of the
  shutdown. Sockets are not: the servers close them (see below).
\<close>

datatype resource =
    Signals
  | Logger
  | DatabasePool string
  | RedisConn string
  | OrchestratorConn string
  | Deadline int

record http_server =
  svAddr :: string
  svReadTimeout :: int
  svReadHeaderTimeout :: int
  svWriteTimeout :: int
  svIdleTimeout :: int

text \<open>\<open>'h\<close> is what a server serves. The gRPC listener is handed to the server, which closes it.\<close>

datatype 'h boot_event =
    Acquire resource
  | Release resource
  | PingFailed go_error
  | ListenGRPC string
  | CloseGRPC string
  | ServeGRPC 'h
  | ServeHTTP http_server 'h
  | GracefulStop
  | ShutdownHTTP

record ('w, 'h) process =
  prWorld :: 'w
  prTrace :: "'h boot_event list"

text \<open>A run either still waits in its \<open>select\<close>, or has returned.\<close>

datatype run_outcome = Serving | Returned "go_error option"

type_synonym ('w, 'h) program = "('w, 'h) process \<Rightarrow> run_outcome \<times> ('w, 'h) process"

section \<open>Constructs\<close>

definition emit :: "'h boot_event \<Rightarrow> ('w, 'h) process \<Rightarrow> ('w, 'h) process" where
  "emit e st = st\<lparr>prTrace := prTrace st @ [e]\<rparr>"

definition outside :: "('w \<Rightarrow> 'a \<times> 'w) \<Rightarrow> ('w, 'h) process \<Rightarrow> 'a \<times> ('w, 'h) process" where
  "outside f st = (case f (prWorld st) of (a, w) \<Rightarrow> (a, st\<lparr>prWorld := w\<rparr>))"

definition acquire :: "resource \<Rightarrow> ('w \<Rightarrow> 'a result \<times> 'w) \<Rightarrow> ('w, 'h) process \<Rightarrow> 'a result \<times> ('w, 'h) process" where
  "acquire r f st =
     (case outside f st of
        (Inl err, st1) \<Rightarrow> (Inl err, st1)
      | (Inr x, st1) \<Rightarrow> (Inr x, emit (Acquire r) st1))"

text \<open>\<open>if err != nil { return err }\<close>.\<close>

definition or_return :: "'a result \<times> ('w, 'h) process \<Rightarrow> ('a \<Rightarrow> ('w, 'h) program) \<Rightarrow> run_outcome \<times> ('w, 'h) process" where
  "or_return x k = (case x of (Inl err, st) \<Rightarrow> (Returned (Some err), st) | (Inr a, st) \<Rightarrow> k a st)"

text \<open>\<open>defer\<close>: the release is made when the rest of the function returns.\<close>

definition deferring :: "'h boot_event \<Rightarrow> ('w, 'h) program \<Rightarrow> ('w, 'h) program" where
  "deferring e body st =
     (case body st of
        (Serving, st1) \<Rightarrow> (Serving, st1)
      | (Returned res, st1) \<Rightarrow> (Returned res, emit e st1))"

lemma emit_simps [simp]: "prWorld (emit e st) = prWorld st" "prTrace (emit e st) = prTrace st @ [e]"
  by (simp_all add: emit_def)

lemma outside_trace: "outside f st = (a, st') \<Longrightarrow> prTrace st' = prTrace st"
  by (auto simp: outside_def split: prod.splits)

section \<open>Deferred releases\<close>

text \<open>The resources that are open after a trace, the last one first; nothing if a release is out of order.\<close>

fun open_after :: "'h boot_event list \<Rightarrow> resource list \<Rightarrow> resource list option" where
  "open_after [] rs = Some rs"
| "open_after (Acquire r # es) rs = open_after es (r # rs)"
| "open_after (Release r # es) rs = (case rs of [] \<Rightarrow> None | q # qs \<Rightarrow> if q = r then open_after es qs else None)"
| "open_after (e # es) rs = open_after es rs"

lemma open_after_append: "open_after (es @ es') rs = Option.bind (open_after es rs) (open_after es')"
  by (induction es rs rule: open_after.induct) (auto split: list.split)

abbreviation opened :: "('w, 'h) process \<Rightarrow> resource list option" where
  "opened st \<equiv> open_after (prTrace st) []"

text \<open>
  A program leaves open what was open before it when it returns, and whatever it has acquired on top
  of that while it serves; \<open>acquires\<close> is the same for a call that hands a resource to its caller.
\<close>

definition balanced :: "('w, 'h) program \<Rightarrow> bool" where
  "balanced prog \<longleftrightarrow> (\<forall>st rs out st'. opened st = Some rs \<longrightarrow> prog st = (out, st') \<longrightarrow>
     (\<exists>more. opened st' = Some (more @ rs) \<and> (out \<noteq> Serving \<longrightarrow> more = [])))"

definition acquires :: "resource \<Rightarrow> (('w, 'h) process \<Rightarrow> 'a result \<times> ('w, 'h) process) \<Rightarrow> bool" where
  "acquires r f \<longleftrightarrow> (\<forall>st rs res st'. opened st = Some rs \<longrightarrow> f st = (res, st') \<longrightarrow>
     opened st' = Some (case res of Inl err \<Rightarrow> rs | Inr x \<Rightarrow> r # rs))"

named_theorems balanced_intros

lemma balanced_end [balanced_intros]: "balanced (\<lambda>st. (Returned e, st))" "balanced (\<lambda>st. (Serving, st))"
  by (auto simp: balanced_def)

definition plain :: "'h boot_event \<Rightarrow> bool" where
  "plain e \<longleftrightarrow> (case e of Acquire r \<Rightarrow> False | Release r \<Rightarrow> False | _ \<Rightarrow> True)"

lemma plain_simps [simp]:
  "plain (PingFailed err)" "plain (ListenGRPC a)" "plain (CloseGRPC a)" "plain (ServeGRPC h)" "plain (ServeHTTP s h)"
  "plain GracefulStop" "plain ShutdownHTTP"
  by (simp_all add: plain_def)

lemma opened_plain: "plain e \<Longrightarrow> opened (emit e st) = opened st"
  by (cases e; cases "opened st") (auto simp: plain_def open_after_append)

lemma balanced_before:
  assumes "\<And>st. opened (g st) = opened st" and "balanced prog"
  shows "balanced (\<lambda>st. prog (g st))"
  using assms(2) unfolding balanced_def by (metis assms(1))

lemma balanced_emit [balanced_intros]: "plain e \<Longrightarrow> balanced prog \<Longrightarrow> balanced (\<lambda>st. prog (emit e st))"
  by (intro balanced_before [where g = "emit e"]) (rule opened_plain)

lemma balanced_outside [balanced_intros]:
  assumes "\<And>a. balanced (k a)"
  shows "balanced (\<lambda>st. case outside f st of (a, st1) \<Rightarrow> k a st1)"
  unfolding balanced_def
proof (intro allI impI)
  fix st st' rs out
  assume "opened st = Some rs" and run: "(case outside f st of (a, st1) \<Rightarrow> k a st1) = (out, st')"
  obtain a st1 where o: "outside f st = (a, st1)" by (metis prod.collapse)
  have "opened st1 = Some rs" using outside_trace [OF o] \<open>opened st = Some rs\<close> by simp
  then show "\<exists>more. opened st' = Some (more @ rs) \<and> (out \<noteq> Serving \<longrightarrow> more = [])"
    using assms [of a] run o by (auto simp: balanced_def)
qed

lemma acquires_acquire [balanced_intros]: "acquires r (acquire r f)"
  by (auto simp: acquires_def acquire_def open_after_append dest!: outside_trace split: prod.splits sum.splits)

text \<open>A resource whose release is deferred right after it was acquired.\<close>

lemma balanced_deferring [balanced_intros]:
  assumes "acquires r f" and "\<And>x. balanced (k x)"
  shows "balanced (\<lambda>st. or_return (f st) (\<lambda>x. deferring (Release r) (k x)))"
  unfolding balanced_def
proof (intro allI impI)
  fix st st' rs out
  assume op: "opened st = Some rs" and run: "or_return (f st) (\<lambda>x. deferring (Release r) (k x)) = (out, st')"
  obtain res st1 where f: "f st = (res, st1)" by (metis prod.collapse)
  note open1 = assms(1) [unfolded acquires_def, rule_format, OF op f]
  show "\<exists>more. opened st' = Some (more @ rs) \<and> (out \<noteq> Serving \<longrightarrow> more = [])"
  proof (cases res)
    case (Inl err)
    then show ?thesis using run open1 by (simp add: or_return_def f)
  next
    case (Inr x)
    obtain out2 st2 where k: "k x st1 = (out2, st2)" by (metis prod.collapse)
    obtain more where more: "opened st2 = Some (more @ r # rs)" "out2 \<noteq> Serving \<longrightarrow> more = []"
      using assms(2) [of x, unfolded balanced_def, rule_format, OF _ k] open1 Inr by auto
    show ?thesis
    proof (cases out2)
      case Serving
      then show ?thesis using run more by (auto simp: or_return_def f Inr deferring_def k)
    next
      case (Returned e)
      then show ?thesis using run more by (auto simp: or_return_def f Inr deferring_def k open_after_append)
    qed
  qed
qed

lemma balanced_or_return [balanced_intros]:
  assumes "\<And>a. balanced (k a)"
  shows "balanced (\<lambda>st. or_return (outside f st) k)"
  unfolding balanced_def
proof (intro allI impI)
  fix st st' rs out
  assume op: "opened st = Some rs" and run: "or_return (outside f st) k = (out, st')"
  obtain res st1 where o: "outside f st = (res, st1)" by (metis prod.collapse)
  have "opened st1 = Some rs" using outside_trace [OF o] op by simp
  then show "\<exists>more. opened st' = Some (more @ rs) \<and> (out \<noteq> Serving \<longrightarrow> more = [])"
    using assms run o by (cases res) (auto simp: balanced_def or_return_def)
qed

text \<open>From a fresh process: a run that has returned has nothing open.\<close>

lemma balanced_from_start:
  assumes "balanced prog" and "prog \<lparr>prWorld = w, prTrace = []\<rparr> = (out, st')"
  shows "opened st' \<noteq> None" and "out \<noteq> Serving \<Longrightarrow> opened st' = Some []"
  using assms(1) [unfolded balanced_def, rule_format, OF _ assms(2)] by auto

text \<open>What is open at the end was acquired; in a trace that ends with nothing open, releases and acquisitions agree.\<close>

lemma open_after_counts:
  "open_after es rs = Some qs \<Longrightarrow>
   count_list rs r + length (filter (\<lambda>e. e = Acquire r) es) =
   count_list qs r + length (filter (\<lambda>e. e = Release r) es)"
  by (induction es rs rule: open_after.induct) (auto split: list.splits if_splits)

section \<open>Two ends of one run\<close>

text \<open>
  Where \<open>prog\<close> still serves, \<open>prog'\<close> has returned, after the same events and \<open>tail\<close>. One rule for every
  construct: a deferred release is one more event of the tail.
\<close>

definition ends_with :: "('w, 'h) program \<Rightarrow> ('w, 'h) program \<Rightarrow> 'h boot_event list \<Rightarrow> (go_error option \<Rightarrow> bool) \<Rightarrow> bool" where
  "ends_with prog prog' tail P \<longleftrightarrow> (\<forall>st st'. prog st = (Serving, st') \<longrightarrow>
     (\<exists>r st2. prog' st = (Returned r, st2) \<and> prTrace st2 = prTrace st' @ tail \<and> P r))"

lemma ends_with_before: "ends_with prog prog' tail P \<Longrightarrow> ends_with (\<lambda>st. prog (g st)) (\<lambda>st. prog' (g st)) tail P"
  by (simp add: ends_with_def)

lemma ends_with_deferring:
  assumes "ends_with prog prog' tail P"
  shows "ends_with (deferring e prog) (deferring e prog') (tail @ [e]) P"
  unfolding ends_with_def
proof (intro allI impI)
  fix st st' assume "deferring e prog st = (Serving, st')"
  then have "prog st = (Serving, st')" by (auto simp: deferring_def split: prod.splits run_outcome.splits)
  from assms [unfolded ends_with_def, rule_format, OF this]
  obtain r st2 where "prog' st = (Returned r, st2)" "prTrace st2 = prTrace st' @ tail" "P r" by blast
  then show "\<exists>r st2. deferring e prog' st = (Returned r, st2) \<and> prTrace st2 = prTrace st' @ tail @ [e] \<and> P r"
    by (auto simp: deferring_def)
qed

lemma ends_with_or_return:
  "(\<And>a. ends_with (k a) (k' a) tail P) \<Longrightarrow> ends_with (\<lambda>st. or_return (f st) k) (\<lambda>st. or_return (f st) k') tail P"
  by (auto simp: ends_with_def or_return_def split: prod.splits sum.splits)

lemma ends_with_outside:
  "(\<And>a. ends_with (k a) (k' a) tail P) \<Longrightarrow>
   ends_with (\<lambda>st. case outside f st of (a, st1) \<Rightarrow> k a st1) (\<lambda>st. case outside f st of (a, st1) \<Rightarrow> k' a st1) tail P"
  by (auto simp: ends_with_def split: prod.splits)

lemmas ends_with_rules = ends_with_deferring ends_with_or_return ends_with_outside

text \<open>Where \<open>prog\<close> serves, \<open>prog'\<close> has gone on to \<open>tail\<close>, but has not returned: no deferred call is made.\<close>

definition goes_on :: "('w, 'h) program \<Rightarrow> ('w, 'h) program \<Rightarrow> 'h boot_event list \<Rightarrow> bool" where
  "goes_on prog prog' tail \<longleftrightarrow> (\<forall>st st'. prog st = (Serving, st') \<longrightarrow>
     (\<exists>st2. prog' st = (Serving, st2) \<and> prTrace st2 = prTrace st' @ tail))"

lemma goes_on_before: "goes_on prog prog' tail \<Longrightarrow> goes_on (\<lambda>st. prog (g st)) (\<lambda>st. prog' (g st)) tail"
  by (simp add: goes_on_def)

lemma goes_on_deferring: "goes_on prog prog' tail \<Longrightarrow> goes_on (deferring e prog) (deferring e prog') tail"
  unfolding goes_on_def deferring_def by (fastforce split: prod.splits run_outcome.splits)

lemma goes_on_or_return:
  "(\<And>a. goes_on (k a) (k' a) tail) \<Longrightarrow> goes_on (\<lambda>st. or_return (f st) k) (\<lambda>st. or_return (f st) k') tail"
  by (auto simp: goes_on_def or_return_def split: prod.splits sum.splits)

lemma goes_on_outside:
  "(\<And>a. goes_on (k a) (k' a) tail) \<Longrightarrow>
   goes_on (\<lambda>st. case outside f st of (a, st1) \<Rightarrow> k a st1) (\<lambda>st. case outside f st of (a, st1) \<Rightarrow> k' a st1) tail"
  by (auto simp: goes_on_def split: prod.splits)

lemmas goes_on_rules = goes_on_deferring goes_on_or_return goes_on_outside

section \<open>Sockets\<close>

text \<open>
  No deferred call closes a socket. The gRPC listener is opened by \<open>run\<close> and closed by its server when
  that stops or fails; an HTTP server opens its own and is shut down by \<open>run\<close>, or ends by itself.
\<close>

fun listening :: "'h boot_event list \<Rightarrow> string list \<Rightarrow> string list" where
  "listening [] as = as"
| "listening (e # es) as =
     listening es (case e of ListenGRPC a \<Rightarrow> a # as | CloseGRPC a \<Rightarrow> remove1 a as | _ \<Rightarrow> as)"

fun not_shut_down :: "'h boot_event list \<Rightarrow> string list \<Rightarrow> string list" where
  "not_shut_down [] as = as"
| "not_shut_down (e # es) as =
     not_shut_down es (case e of ServeHTTP sv h \<Rightarrow> svAddr sv # as | ShutdownHTTP \<Rightarrow> [] | _ \<Rightarrow> as)"

definition has_listened :: "'h boot_event list \<Rightarrow> bool" where
  "has_listened es \<longleftrightarrow> list_ex (\<lambda>e. case e of ListenGRPC a \<Rightarrow> True | _ \<Rightarrow> False) es"

definition has_served_http :: "'h boot_event list \<Rightarrow> bool" where
  "has_served_http es \<longleftrightarrow> list_ex (\<lambda>e. case e of ServeHTTP sv h \<Rightarrow> True | _ \<Rightarrow> False) es"

text \<open>What a run does to its servers, the other events left out; one rule for every construct.\<close>

definition about_servers :: "'h boot_event \<Rightarrow> bool" where
  "about_servers e \<longleftrightarrow> (case e of Acquire r \<Rightarrow> False | Release r \<Rightarrow> False | PingFailed err \<Rightarrow> False | _ \<Rightarrow> True)"

abbreviation deeds :: "'h boot_event list \<Rightarrow> 'h boot_event list" where
  "deeds es \<equiv> filter about_servers es"

lemma about_servers_simps [simp]:
  "\<not> about_servers (Acquire r)" "\<not> about_servers (Release r)" "\<not> about_servers (PingFailed err)"
  "about_servers (ListenGRPC a)" "about_servers (CloseGRPC a)" "about_servers (ServeGRPC h)" "about_servers (ServeHTTP s h)"
  "about_servers GracefulStop" "about_servers ShutdownHTTP"
  by (simp_all add: about_servers_def)

lemma deeds_suffice:
  "listening (deeds es) as = listening es as" "not_shut_down (deeds es) as = not_shut_down es as"
  "has_listened (deeds es) = has_listened es" "has_served_http (deeds es) = has_served_http es"
proof -
  show "listening (deeds es) as = listening es as"
    by (induction es arbitrary: as) (auto simp: about_servers_def split: boot_event.split)
  show "not_shut_down (deeds es) as = not_shut_down es as"
    by (induction es arbitrary: as) (auto simp: about_servers_def split: boot_event.split)
  show "has_listened (deeds es) = has_listened es" "has_served_http (deeds es) = has_served_http es"
    by (induction es) (auto simp: has_listened_def has_served_http_def about_servers_def split: boot_event.splits)
qed

definition doing :: "('w, 'h) program \<Rightarrow> (run_outcome \<Rightarrow> 'h boot_event list \<Rightarrow> bool) \<Rightarrow> bool" where
  "doing prog P \<longleftrightarrow> (\<forall>st out st'. prog st = (out, st') \<longrightarrow>
     (\<exists>es. prTrace st' = prTrace st @ es \<and> P out (deeds es)))"

definition quiet :: "(('w, 'h) process \<Rightarrow> 'a \<times> ('w, 'h) process) \<Rightarrow> bool" where
  "quiet f \<longleftrightarrow> (\<forall>st a st'. f st = (a, st') \<longrightarrow> (\<exists>es. prTrace st' = prTrace st @ es \<and> deeds es = []))"

named_theorems doing_intros

lemma quiet_calls [doing_intros]: "quiet (outside f)" "quiet (acquire r f)"
  by (auto simp: quiet_def acquire_def outside_def split: prod.splits sum.splits)

lemma doing_end [doing_intros]: "P out [] \<Longrightarrow> doing (\<lambda>st. (out, st)) P"
  by (simp add: doing_def)

lemma doing_deferring [doing_intros]: "doing prog P \<Longrightarrow> doing (deferring (Release r) prog) P"
  unfolding doing_def deferring_def by (fastforce split: prod.splits run_outcome.splits)

lemma doing_emit: "doing prog (\<lambda>out es. P out (deeds [e] @ es)) \<Longrightarrow> doing (\<lambda>st. prog (emit e st)) P"
  by (fastforce simp: doing_def split: prod.splits)

lemma doing_after: "quiet f \<Longrightarrow> (\<And>a. doing (k a) P) \<Longrightarrow> doing (\<lambda>st. case f st of (a, st1) \<Rightarrow> k a st1) P"
  unfolding doing_def quiet_def
proof (intro allI impI)
  fix st out st2
  assume f: "\<forall>st a st'. f st = (a, st') \<longrightarrow> (\<exists>es. prTrace st' = prTrace st @ es \<and> deeds es = [])"
    and k: "\<And>a. \<forall>st out st'. k a st = (out, st') \<longrightarrow> (\<exists>es. prTrace st' = prTrace st @ es \<and> P out (deeds es))"
    and run: "(case f st of (a, st1) \<Rightarrow> k a st1) = (out, st2)"
  obtain a st1 where a: "f st = (a, st1)" by (metis prod.collapse)
  obtain es where es: "prTrace st1 = prTrace st @ es" "deeds es = []" using f a by blast
  have "k a st1 = (out, st2)" using run a by simp
  then obtain es2 where "prTrace st2 = prTrace st1 @ es2" "P out (deeds es2)" using k by blast
  then show "\<exists>es. prTrace st2 = prTrace st @ es \<and> P out (deeds es)" using es by (intro exI [of _ "es @ es2"]) simp
qed

lemma doing_or_return [doing_intros]:
  assumes "quiet f" and "\<And>err. P (Returned (Some err)) []" and "\<And>a. doing (k a) P"
  shows "doing (\<lambda>st. or_return (f st) k) P"
proof -
  have "doing (\<lambda>st. case f st of (a, st1) \<Rightarrow> (case a of Inl err \<Rightarrow> \<lambda>st. (Returned (Some err), st) | Inr x \<Rightarrow> k x) st1) P"
    by (rule doing_after [OF assms(1)]) (auto intro: doing_end assms(2,3) split: sum.split)
  then show ?thesis by (simp add: or_return_def sum.case_distrib [where h = "\<lambda>g. g x" for x] cong: sum.case_cong)
qed

end
