(* ===== verification/Startup.thy ===== *)
theory Startup
  imports Process ApiServer Boot
begin

text \<open>
  The \<open>run\<close> functions of the three services (\<open>cmd/server/main.go\<close>), with the loggers, the gRPC clients
  and the Redis client they build. Dialling, listening, zap and the stopping of servers are arguments
  on a world \<open>'w\<close>; so is the list of what the \<open>select\<close> at the end gets to see, in its order.
\<close>

section \<open>Loggers\<close>

text \<open>
  \<open>NewLogger\<close> (\<open>libs/observability/logger.go\<close>, and the same in the API's \<open>internal/logger\<close>): zap's
  reading of a level and its building of a logger from the kind of configuration and the level.
\<close>

record 'w zap_env =
  zaUnmarshalLevel :: "string \<Rightarrow> int result"
  zaBuild :: "bool \<Rightarrow> int \<Rightarrow> 'w \<Rightarrow> unit result \<times> 'w"

definition ascii_lower :: "char \<Rightarrow> char" where
  "ascii_lower c = (let n = (of_char c :: nat) in if 65 \<le> n \<and> n \<le> 90 then char_of (n + 32) else c)"

text \<open>\<open>strings.EqualFold\<close> with a word that has no \<open>k\<close> and no \<open>s\<close>, the two letters that fold beyond ASCII.\<close>

definition equal_fold :: "string \<Rightarrow> string \<Rightarrow> bool" where
  "equal_fold s t \<longleftrightarrow> map ascii_lower s = map ascii_lower t"

definition NewLogger :: "'w zap_env \<Rightarrow> string \<Rightarrow> string \<Rightarrow> 'w \<Rightarrow> unit result \<times> 'w" where
  "NewLogger Z env level w =
     (let production = equal_fold env ''production''
      in case zaUnmarshalLevel Z level of
           Inl err \<Rightarrow> (Inl err, w)
         | Inr l \<Rightarrow> zaBuild Z production l w)"

text \<open>The API's own \<open>logger.New\<close> is the same function of its configuration.\<close>

definition logger_New :: "'w zap_env \<Rightarrow> api_config \<Rightarrow> 'w \<Rightarrow> unit result \<times> 'w" where
  "logger_New Z cfg = NewLogger Z (acEnv cfg) (acLogLevel cfg)"

section \<open>Clients\<close>

text \<open>\<open>NewOrchestratorClient\<close> of the API and of the webhook service, over \<open>grpc.NewClient\<close>.\<close>

definition NewOrchestratorClient ::
    "(string \<Rightarrow> 'w \<Rightarrow> 'a result \<times> 'w) \<Rightarrow> string \<Rightarrow> ('w, 'h) process \<Rightarrow> 'a result \<times> ('w, 'h) process" where
  "NewOrchestratorClient dial addr st =
     (case acquire (OrchestratorConn addr) (dial addr) st of
        (Inl err, st1) \<Rightarrow> (Inl (ErrWrap (''dial orchestrator '' @ addr) err), st1)
      | (Inr client, st1) \<Rightarrow> (Inr client, st1))"

abbreviation webhook_NewOrchestratorClient ::
    "(string \<Rightarrow> 'w \<Rightarrow> 'a result \<times> 'w) \<Rightarrow> string \<Rightarrow> ('w, 'h) process \<Rightarrow> 'a result \<times> ('w, 'h) process" where
  "webhook_NewOrchestratorClient \<equiv> NewOrchestratorClient"

text \<open>\<open>redisclient.New\<close>: a client that does not answer PING is closed again.\<close>

definition redisclient_New ::
    "(string \<Rightarrow> string \<Rightarrow> 'w \<Rightarrow> 'a result \<times> 'w) \<Rightarrow> ('a \<Rightarrow> 'w \<Rightarrow> unit result \<times> 'w) \<Rightarrow> string \<Rightarrow> string \<Rightarrow>
     ('w, 'h) process \<Rightarrow> 'a result \<times> ('w, 'h) process" where
  "redisclient_New new ping addr password st =
     (case acquire (RedisConn addr) (new addr password) st of
        (Inl err, st1) \<Rightarrow> (Inl (ErrWrap ''create redis client'' err), st1)
      | (Inr client, st1) \<Rightarrow>
          (case outside (ping client) st1 of
             (Inl err, st2) \<Rightarrow> (Inl (ErrWrap ''redis ping'' err), emit (Release (RedisConn addr)) st2)
           | (Inr _, st2) \<Rightarrow> (Inr client, st2)))"

section \<open>Waiting for the end\<close>

text \<open>
  SIGINT or SIGTERM, or a server that has ended; \<open>ListenAndServe\<close> and \<open>Serve\<close> return only with an error,
  \<open>http.ErrServerClosed\<close> after a shutdown. And the end of the last gRPC call in flight.
\<close>

datatype happening = SignalReceived | HTTPEnded go_error | GRPCEnded go_error | CallsEnded

definition ErrServerClosed :: go_error where
  "ErrServerClosed = ErrText ''http: Server closed''"

definition as_outcome :: "unit result \<Rightarrow> run_outcome" where
  "as_outcome r = Returned (case r of Inl err \<Rightarrow> Some err | Inr _ \<Rightarrow> None)"

text \<open>\<open>Shutdown\<close> with a deadline, whose \<open>cancel\<close> is deferred.\<close>

definition shutdown_http :: "('w \<Rightarrow> unit result \<times> 'w) \<Rightarrow> int \<Rightarrow> ('w, 'h) program" where
  "shutdown_http shutdown timeout st =
     or_return (acquire (Deadline timeout) (\<lambda>w. (Inr (), w)) st)
       (\<lambda>_. deferring (Release (Deadline timeout))
         (\<lambda>st1. case outside shutdown (emit ShutdownHTTP st1) of (r, st2) \<Rightarrow> (as_outcome r, st2)))"

text \<open>
  One HTTP server: its goroutine sends an error that is not \<open>ErrServerClosed\<close> and closes the channel,
  so that the \<open>select\<close> ends with it in any case.
\<close>

fun await_http :: "('w \<Rightarrow> unit result \<times> 'w) \<Rightarrow> int \<Rightarrow> happening list \<Rightarrow> ('w, 'h) program" where
  "await_http shutdown timeout [] st = (Serving, st)"
| "await_http shutdown timeout (SignalReceived # hs) st = shutdown_http shutdown timeout st"
| "await_http shutdown timeout (HTTPEnded err # hs) st =
     (Returned (if errors_Is err ErrServerClosed then None else Some err), st)"
| "await_http shutdown timeout (GRPCEnded err # hs) st = await_http shutdown timeout hs st"
| "await_http shutdown timeout (CallsEnded # hs) st = await_http shutdown timeout hs st"

text \<open>
  The orchestrator after a signal: \<open>GracefulStop\<close> has closed the listener and returns only when the last
  call has ended, however long that takes. No one reads the channel of the servers any more.
\<close>

fun await_calls :: "('w \<Rightarrow> unit result \<times> 'w) \<Rightarrow> int \<Rightarrow> happening list \<Rightarrow> ('w, 'h) program" where
  "await_calls shutdown timeout [] st = (Serving, st)"
| "await_calls shutdown timeout (CallsEnded # hs) st = shutdown_http shutdown timeout st"
| "await_calls shutdown timeout (h # hs) st = await_calls shutdown timeout hs st"

text \<open>The orchestrator's two servers share a channel that is not closed.\<close>

fun await_both :: "('w \<Rightarrow> unit result \<times> 'w) \<Rightarrow> int \<Rightarrow> string \<Rightarrow> happening list \<Rightarrow> ('w, 'h) program" where
  "await_both shutdown timeout grpc_addr [] st = (Serving, st)"
| "await_both shutdown timeout grpc_addr (SignalReceived # hs) st =
     await_calls shutdown timeout hs (emit (CloseGRPC grpc_addr) (emit GracefulStop st))"
| "await_both shutdown timeout grpc_addr (HTTPEnded err # hs) st =
     (if errors_Is err ErrServerClosed then await_both shutdown timeout grpc_addr hs st else (Returned (Some err), st))"
| "await_both shutdown timeout grpc_addr (GRPCEnded err # hs) st =
     (Returned (Some err), emit (CloseGRPC grpc_addr) st)"
| "await_both shutdown timeout grpc_addr (CallsEnded # hs) st = await_both shutdown timeout grpc_addr hs st"

section \<open>The API service\<close>

text \<open>\<open>'v\<close> and \<open>'o\<close> are the worlds of Redis and of the orchestrator, as the clients see them.\<close>

record ('w, 'v, 'o) api_outside =
  aoZap :: "'w zap_env"
  aoParseFloat :: "string \<Rightarrow> rat option"
  aoEnv :: "string \<Rightarrow> string"
  aoDial :: "string \<Rightarrow> 'w \<Rightarrow> 'o payout_client result \<times> 'w"
  aoRedis :: "string \<Rightarrow> string \<Rightarrow> 'w \<Rightarrow> 'v redis_env result \<times> 'w"
  aoPing :: "'v redis_env \<Rightarrow> 'w \<Rightarrow> unit result \<times> 'w"
  aoShutdown :: "'w \<Rightarrow> unit result \<times> 'w"

text \<open>What the server serves: the answer to a request that arrives at a time.\<close>

type_synonym ('v, 'o) api_handler =
  "int \<Rightarrow> api_route \<Rightarrow> 'v limiter_state \<times> 'o \<Rightarrow> api_answer limited \<times> ('v limiter_state \<times> 'o)"

definition api_server :: "api_config \<Rightarrow> http_server" where
  "api_server cfg =
     \<lparr>svAddr = acHTTPAddr cfg, svReadTimeout = acReadTimeout cfg, svReadHeaderTimeout = acReadHeaderTimeout cfg,
      svWriteTimeout = acWriteTimeout cfg, svIdleTimeout = acIdleTimeout cfg\<rparr>"

text \<open>\<open>NewRouter\<close>: the router over the client that the connection to the orchestrator owns.\<close>

abbreviation API_NewRouter ::
    "'o payout_client \<Rightarrow> 'v redis_env \<Rightarrow> api_config \<Rightarrow> ('v, 'o) api_handler" where
  "API_NewRouter orchestrator redis cfg \<equiv> NewRouterWithClient orchestrator (Some redis) cfg"

definition api_main_run ::
    "('w, 'v, 'o) api_outside \<Rightarrow> happening list \<Rightarrow> ('w, ('v, 'o) api_handler) program" where
  "api_main_run E hs st =
     (case api_Load (aoParseFloat E) (aoEnv E) of
        Inl err \<Rightarrow> (Returned (Some err), st)
      | Inr cfg \<Rightarrow>
          or_return (acquire Signals (\<lambda>w. (Inr (), w)) st) (\<lambda>_. deferring (Release Signals) (\<lambda>st.
          or_return (acquire Logger (logger_New (aoZap E) cfg) st)
            (\<lambda>_. deferring (Release Logger) (\<lambda>st.
          or_return (NewOrchestratorClient (aoDial E) (acOrchestratorAddr cfg) st)
            (\<lambda>client. deferring (Release (OrchestratorConn (acOrchestratorAddr cfg))) (\<lambda>st.
          or_return (redisclient_New (aoRedis E) (aoPing E) (acRedisAddr cfg) (acRedisPassword cfg) st)
            (\<lambda>redis. deferring (Release (RedisConn (acRedisAddr cfg))) (\<lambda>st.
              await_http (aoShutdown E) (acShutdownTimeout cfg) hs
                (emit (ServeHTTP (api_server cfg) (API_NewRouter client redis cfg)) st))))))))))"

section \<open>The webhook service\<close>

record ('w, 'v, 'u) webhook_outside =
  woZap :: "'w zap_env"
  woReadFile :: "string \<Rightarrow> string result"
  woUnmarshal :: "string \<Rightarrow> webhook_config \<Rightarrow> webhook_config result"
  woRedis :: "string \<Rightarrow> string \<Rightarrow> 'w \<Rightarrow> 'v redis_env result \<times> 'w"
  woDial :: "string \<Rightarrow> 'w \<Rightarrow> 'u result \<times> 'w"
  woShutdown :: "'w \<Rightarrow> unit result \<times> 'w"

text \<open>
  \<open>Dependencies\<close> of the router, and what \<open>NewRouter\<close> makes of the secret: without an address there is
  no Redis client. \<open>'u\<close> is the client of the orchestrator.
\<close>

record ('v, 'u) webhook_deps =
  wdRedis :: "'v redis_env option"
  wdOrchestrator :: 'u
  wdHandler :: webhook_handler

definition webhook_server :: "webhook_config \<Rightarrow> http_server" where
  "webhook_server cfg =
     \<lparr>svAddr = wcHTTPAddr cfg, svReadTimeout = wcReadTimeout cfg, svReadHeaderTimeout = wcReadHeaderTimeout cfg,
      svWriteTimeout = wcWriteTimeout cfg, svIdleTimeout = wcIdleTimeout cfg\<rparr>"

definition webhook_serve ::
    "('w, 'v, 'u) webhook_outside \<Rightarrow> happening list \<Rightarrow> webhook_config \<Rightarrow> 'v redis_env option \<Rightarrow>
     ('w, ('v, 'u) webhook_deps) program" where
  "webhook_serve E hs cfg redis st =
     or_return (webhook_NewOrchestratorClient (woDial E) (wcOrchestratorAddr cfg) st)
       (\<lambda>client. deferring (Release (OrchestratorConn (wcOrchestratorAddr cfg))) (\<lambda>st.
     or_return (acquire Signals (\<lambda>w. (Inr (), w)) st) (\<lambda>_. deferring (Release Signals) (\<lambda>st.
       await_http (woShutdown E) (wcShutdownTimeout cfg) hs
         (emit (ServeHTTP (webhook_server cfg)
             \<lparr>wdRedis = redis, wdOrchestrator = client, wdHandler = boot_webhook cfg\<rparr>) st)))))"

definition webhook_main_run ::
    "('w, 'v, 'u) webhook_outside \<Rightarrow> happening list \<Rightarrow> string \<Rightarrow> ('w, ('v, 'u) webhook_deps) program" where
  "webhook_main_run E hs cfgFile st =
     (case webhook_Load (woReadFile E) (woUnmarshal E) cfgFile of
        Inl err \<Rightarrow> (Returned (Some err), st)
      | Inr cfg \<Rightarrow>
          or_return (acquire Logger (NewLogger (woZap E) (wcEnv cfg) (wcLogLevel cfg)) st)
            (\<lambda>_. deferring (Release Logger) (\<lambda>st.
          if wcRedisAddr cfg \<noteq> []
          then or_return (acquire (RedisConn (wcRedisAddr cfg)) (woRedis E (wcRedisAddr cfg) (wcRedisPassword cfg)) st)
                 (\<lambda>redis. deferring (Release (RedisConn (wcRedisAddr cfg))) (webhook_serve E hs cfg (Some redis)))
          else webhook_serve E hs cfg None st)))"

section \<open>The orchestrator\<close>

text \<open>
  \<open>libs/observability/grpc_metrics.go\<close>: which of the interceptors of go-grpc-prometheus a server and a
  client get. The interceptors are the library's, here by name, and its switch for histograms is global.
\<close>

datatype interceptor =
    PrometheusUnaryServer | PrometheusStreamServer | PrometheusUnaryClient | PrometheusStreamClient

datatype server_option = ChainUnaryInterceptor interceptor | ChainStreamInterceptor interceptor

datatype dial_option = WithUnaryInterceptor interceptor

record grpc_prometheus =
  gpHandlingTimeHistogram :: bool

definition NewGRPCMetrics :: "grpc_prometheus \<Rightarrow> grpc_prometheus" where
  "NewGRPCMetrics g = g\<lparr>gpHandlingTimeHistogram := True\<rparr>"

definition GRPCServerOptions :: "server_option list" where
  "GRPCServerOptions = [ChainUnaryInterceptor PrometheusUnaryServer, ChainStreamInterceptor PrometheusStreamServer]"

definition DefaultGRPCServerOptions :: "grpc_prometheus \<Rightarrow> server_option list \<times> grpc_prometheus" where
  "DefaultGRPCServerOptions g = (let g' = NewGRPCMetrics g in (GRPCServerOptions, g'))"

definition GRPCClientMetrics_DialOption :: dial_option where
  "GRPCClientMetrics_DialOption = WithUnaryInterceptor PrometheusUnaryClient"

text \<open>\<open>grpc/server.go\<close>: the payout service over the pool, a health service for the empty name, reflection.\<close>

record ('c, 'd) grpc_server =
  gsOptions :: "server_option list"
  gsPool :: "'d pg_env"
  gsOrchestrator :: "'c payout_server"
  gsHealth :: "(string \<times> bool) list"
  gsReflection :: bool

definition Server_New :: "'d pg_env \<Rightarrow> 'c orchestrator \<Rightarrow> ('c, 'd) grpc_server" where
  "Server_New pool orchestrator =
     \<lparr>gsOptions = GRPCServerOptions, gsPool = pool, gsOrchestrator = Some orchestrator, gsHealth = [([], True)], gsReflection = True\<rparr>"

datatype ('c, 'd) orchestrator_handler = PayoutGRPC "('c, 'd) grpc_server" | HealthMux

record ('w, 'd) orchestrator_outside =
  ooZap :: "'w zap_env"
  ooReadFile :: "string \<Rightarrow> string result"
  ooUnmarshal :: "string \<Rightarrow> orchestrator_config \<Rightarrow> orchestrator_config result"
  ooPool :: "string \<Rightarrow> 'w \<Rightarrow> 'd pg_env result \<times> 'w"
  ooPing :: "'d pg_env \<Rightarrow> 'w \<Rightarrow> unit result \<times> 'w"
  ooListen :: "string \<Rightarrow> 'w \<Rightarrow> unit result \<times> 'w"
  ooShutdown :: "'w \<Rightarrow> unit result \<times> 'w"
  ooDefaultRetries :: int

text \<open>A database that does not answer is only warned of; the HTTP server has no timeouts.\<close>

definition warn_ping :: "unit result \<Rightarrow> ('w, 'h) process \<Rightarrow> ('w, 'h) process" where
  "warn_ping ping st = (case ping of Inl err \<Rightarrow> emit (PingFailed err) st | Inr _ \<Rightarrow> st)"

definition health_server :: "orchestrator_config \<Rightarrow> http_server" where
  "health_server cfg =
     \<lparr>svAddr = ocHTTPAddr cfg, svReadTimeout = 0, svReadHeaderTimeout = 0, svWriteTimeout = 0, svIdleTimeout = 0\<rparr>"

definition orchestrator_serve ::
    "('w, 'd) orchestrator_outside \<Rightarrow> happening list \<Rightarrow> orchestrator_config \<Rightarrow> 'd pg_env \<Rightarrow>
     ('w, (client, 'd) orchestrator_handler) program" where
  "orchestrator_serve E hs cfg pool st =
     or_return (outside (ooListen E (ocGRPCAddr cfg)) st) (\<lambda>_ st.
       await_both (ooShutdown E) (ocShutdownTimeout cfg) (ocGRPCAddr cfg) hs
         (emit (ServeHTTP (health_server cfg) HealthMux)
           (emit (ServeGRPC (PayoutGRPC (Server_New pool (boot_orchestrator (ooDefaultRetries E) cfg))))
             (emit (ListenGRPC (ocGRPCAddr cfg)) st))))"

definition orchestrator_main_run ::
    "('w, 'd) orchestrator_outside \<Rightarrow> happening list \<Rightarrow> string \<Rightarrow> ('w, (client, 'd) orchestrator_handler) program" where
  "orchestrator_main_run E hs cfgFile st =
     (case orchestrator_Load (ooReadFile E) (ooUnmarshal E) cfgFile of
        Inl err \<Rightarrow> (Returned (Some err), st)
      | Inr cfg \<Rightarrow>
          or_return (acquire Logger (NewLogger (ooZap E) (ocEnv cfg) (ocLogLevel cfg)) st)
            (\<lambda>_. deferring (Release Logger) (\<lambda>st.
          or_return (acquire Signals (\<lambda>w. (Inr (), w)) st) (\<lambda>_. deferring (Release Signals) (\<lambda>st.
          or_return (acquire (DatabasePool (ocDatabaseURL cfg)) (ooPool E (ocDatabaseURL cfg)) st)
            (\<lambda>pool. deferring (Release (DatabasePool (ocDatabaseURL cfg))) (\<lambda>st.
              case outside (ooPing E pool) st of (ping, st) \<Rightarrow> orchestrator_serve E hs cfg pool (warn_ping ping st))))))))"

section \<open>The discipline of deferred releases\<close>

lemma acquires_client [balanced_intros]: "acquires (OrchestratorConn addr) (NewOrchestratorClient dial addr)"
  by (auto simp: acquires_def NewOrchestratorClient_def acquire_def open_after_append dest!: outside_trace
      split: prod.splits sum.splits)

lemma acquires_redis [balanced_intros]: "acquires (RedisConn addr) (redisclient_New new ping addr password)"
  by (auto simp: acquires_def redisclient_New_def acquire_def open_after_append dest!: outside_trace
      split: prod.splits sum.splits)

lemma balanced_shutdown [balanced_intros]: "balanced (shutdown_http shutdown timeout)"
  unfolding shutdown_http_def [abs_def]
  by (intro balanced_intros) (simp_all add: as_outcome_def balanced_end)

lemma await_http_program:
  "await_http shutdown timeout [] = (\<lambda>st. (Serving, st))"
  "await_http shutdown timeout (SignalReceived # hs) = shutdown_http shutdown timeout"
  "await_http shutdown timeout (HTTPEnded err # hs) =
     (\<lambda>st. (Returned (if errors_Is err ErrServerClosed then None else Some err), st))"
  "await_http shutdown timeout (GRPCEnded err # hs) = await_http shutdown timeout hs"
  "await_http shutdown timeout (CallsEnded # hs) = await_http shutdown timeout hs"
  by (rule ext, simp)+

lemma await_calls_program:
  "await_calls shutdown timeout [] = (\<lambda>st. (Serving, st))"
  "await_calls shutdown timeout (h # hs) =
     (if h = CallsEnded then shutdown_http shutdown timeout else await_calls shutdown timeout hs)"
  by (rule ext, simp) (rule ext, cases h; simp)

lemma await_both_program:
  "await_both shutdown timeout a [] = (\<lambda>st. (Serving, st))"
  "await_both shutdown timeout a (SignalReceived # hs) =
     (\<lambda>st. await_calls shutdown timeout hs (emit (CloseGRPC a) (emit GracefulStop st)))"
  "await_both shutdown timeout a (HTTPEnded err # hs) =
     (if errors_Is err ErrServerClosed then await_both shutdown timeout a hs else (\<lambda>st. (Returned (Some err), st)))"
  "await_both shutdown timeout a (GRPCEnded err # hs) = (\<lambda>st. (Returned (Some err), emit (CloseGRPC a) st))"
  "await_both shutdown timeout a (CallsEnded # hs) = await_both shutdown timeout a hs"
  by (rule ext, simp)+

lemma balanced_await_http [balanced_intros]: "balanced (await_http shutdown timeout hs)"
proof (induction hs)
  case (Cons h hs)
  then show ?case
    by (cases h) (simp_all only: await_http_program balanced_shutdown balanced_end)
qed (simp only: await_http_program balanced_end)

lemma balanced_await_calls [balanced_intros]: "balanced (await_calls shutdown timeout hs)"
  by (induction hs) (simp_all add: await_calls_program balanced_shutdown balanced_end)

lemma balanced_await_both [balanced_intros]: "balanced (await_both shutdown timeout a hs)"
proof (induction hs)
  case (Cons h hs)
  show ?case
  proof (cases h)
    case SignalReceived
    then show ?thesis unfolding SignalReceived await_both_program
      by (intro balanced_await_calls balanced_before [where g = "\<lambda>st. emit e (emit e' st)" for e e']) (simp only: opened_plain plain_simps)
  next
    case (HTTPEnded err)
    then show ?thesis using Cons by (simp add: await_both_program balanced_end)
  next
    case (GRPCEnded err)
    then show ?thesis unfolding GRPCEnded await_both_program
      by (intro balanced_emit [where prog = "\<lambda>st. (Returned (Some err), st)"] balanced_end) simp
  next
    case CallsEnded
    then show ?thesis using Cons by (simp only: await_both_program)
  qed
qed (simp only: await_both_program balanced_end)

lemma balanced_api: "balanced (api_main_run E hs)"
  unfolding api_main_run_def [abs_def]
  by (cases "api_Load (aoParseFloat E) (aoEnv E)")
    (simp_all only: sum.case, (intro balanced_intros acquires_acquire balanced_emit [OF _ balanced_await_http]; simp)+)

lemma balanced_webhook_serve [balanced_intros]: "balanced (webhook_serve E hs cfg redis)"
  unfolding webhook_serve_def [abs_def]
  by (intro balanced_intros acquires_acquire balanced_emit [OF _ balanced_await_http]; simp)

lemma balanced_webhook: "balanced (webhook_main_run E hs cfgFile)"
proof (cases "webhook_Load (woReadFile E) (woUnmarshal E) cfgFile")
  case (Inr cfg)
  then show ?thesis unfolding webhook_main_run_def [abs_def]
    by (cases "wcRedisAddr cfg = []") (simp_all only: sum.case simp_thms if_True if_False not_True_eq_False, (intro balanced_intros)+)
qed (simp add: webhook_main_run_def [abs_def] balanced_end)

lemma balanced_warn [balanced_intros]: "balanced prog \<Longrightarrow> balanced (\<lambda>st. prog (warn_ping ping st))"
  by (cases ping) (simp_all add: warn_ping_def balanced_emit)

lemma balanced_orchestrator_serve [balanced_intros]: "balanced (orchestrator_serve E hs cfg pool)"
  unfolding orchestrator_serve_def [abs_def]
  by (intro balanced_or_return balanced_await_both balanced_before [where g = "\<lambda>st. emit e (emit e' (emit e'' st))" for e e' e''])
    (simp only: opened_plain plain_simps)

lemma balanced_orchestrator: "balanced (orchestrator_main_run E hs cfgFile)"
proof (cases "orchestrator_Load (ooReadFile E) (ooUnmarshal E) cfgFile")
  case (Inr cfg)
  then show ?thesis unfolding orchestrator_main_run_def [abs_def]
    by (simp only: sum.case) (intro balanced_intros)
qed (simp add: orchestrator_main_run_def [abs_def] balanced_end)

end
