(* ===== verification/StartupFacts.thy ===== *)
theory StartupFacts
  imports Startup
begin

text \<open>
  How the services start and stop: what has to come up before they serve and what they serve then, and
  in which order they let go of it, after a signal and when a server fails.
\<close>

section \<open>Everything is released\<close>

definition fresh :: "'w \<Rightarrow> ('w, 'h) process" where
  "fresh w = \<lparr>prWorld = w, prTrace = []\<rparr>"

lemma fresh_simps [simp]: "prTrace (fresh w) = []" "prWorld (fresh w) = w"
  by (simp_all add: fresh_def)

definition clean :: "run_outcome \<times> ('w, 'h) process \<Rightarrow> bool" where
  "clean run \<longleftrightarrow> (case run of (out, st) \<Rightarrow> opened st \<noteq> None \<and> (out = Serving \<or> opened st = Some []))"

lemma balanced_clean: "balanced prog \<Longrightarrow> clean (prog (fresh w))"
  using balanced_from_start [of prog w] unfolding clean_def fresh_def by (auto split: prod.split)

text \<open>
  Deferred releases. Whatever of the outside fails and however a run ends, each of the three
  services releases what it has acquired in the reverse order, and has nothing left open when its
  \<open>run\<close> returns.
\<close>

lemma runs_release_everything:
  "clean (api_main_run E hs (fresh w)) \<and> clean (webhook_main_run E' hs cfgFile (fresh w)) \<and>
   clean (orchestrator_main_run E'' hs cfgFile (fresh w))"
  by (intro conjI balanced_clean balanced_api balanced_webhook balanced_orchestrator)

section \<open>After a signal\<close>

lemma await_http_serving:
  "await_http shutdown timeout hs st = (Serving, st') \<Longrightarrow>
   st' = st \<and> await_http shutdown timeout (hs @ hs') st = await_http shutdown timeout hs' st"
  by (induction shutdown timeout hs st rule: await_http.induct)
    (auto simp: shutdown_http_def or_return_def acquire_def outside_def deferring_def as_outcome_def split: prod.splits)

lemma await_both_serving:
  "await_both shutdown timeout a hs st = (Serving, st') \<Longrightarrow> SignalReceived \<notin> set hs \<Longrightarrow>
   st' = st \<and> await_both shutdown timeout a (hs @ hs') st = await_both shutdown timeout a hs' st"
  by (induction shutdown timeout a hs st rule: await_both.induct) (auto split: if_splits)

lemma await_calls_busy:
  "CallsEnded \<notin> set busy \<Longrightarrow> await_calls shutdown timeout busy st = (Serving, st) \<and>
   await_calls shutdown timeout (busy @ CallsEnded # hs) st = shutdown_http shutdown timeout st"
  by (induction busy) (auto simp: await_calls_program)

lemma shutdown_http_trace:
  "\<exists>r st2. shutdown_http shutdown timeout st = (Returned r, st2) \<and>
     prTrace st2 = prTrace st @ [Acquire (Deadline timeout), ShutdownHTTP, Release (Deadline timeout)]"
  by (auto simp: shutdown_http_def or_return_def acquire_def outside_def deferring_def as_outcome_def emit_def
      split: prod.split)

lemma await_http_signal:
  "ends_with (await_http shutdown timeout hs) (await_http shutdown timeout (hs @ [SignalReceived]))
     [Acquire (Deadline timeout), ShutdownHTTP, Release (Deadline timeout)] (\<lambda>r. True)"
  unfolding ends_with_def
proof (intro allI impI)
  fix st st' :: "('a, 'b) process" assume "await_http shutdown timeout hs st = (Serving, st')"
  from await_http_serving [OF this] show "\<exists>r st2. await_http shutdown timeout (hs @ [SignalReceived]) st = (Returned r, st2) \<and>
      prTrace st2 = prTrace st' @ [Acquire (Deadline timeout), ShutdownHTTP, Release (Deadline timeout)] \<and> True"
    using shutdown_http_trace [of shutdown timeout st] by simp
qed

lemma await_both_drains:
  assumes "SignalReceived \<notin> set hs" and "CallsEnded \<notin> set busy"
  shows "goes_on (await_both shutdown timeout a hs) (await_both shutdown timeout a (hs @ SignalReceived # busy))
     [GracefulStop, CloseGRPC a]"
  unfolding goes_on_def
  using await_both_serving [OF _ assms(1)] await_calls_busy [OF assms(2)] by fastforce

lemma await_both_signal:
  assumes "SignalReceived \<notin> set hs" and "CallsEnded \<notin> set busy"
  shows "ends_with (await_both shutdown timeout a hs) (await_both shutdown timeout a (hs @ SignalReceived # busy @ [CallsEnded]))
     [GracefulStop, CloseGRPC a, Acquire (Deadline timeout), ShutdownHTTP, Release (Deadline timeout)] (\<lambda>r. True)"
  unfolding ends_with_def
proof (intro allI impI)
  fix st st' :: "('a, 'b) process" assume "await_both shutdown timeout a hs st = (Serving, st')"
  from await_both_serving [OF this assms(1)] show "\<exists>r st2. await_both shutdown timeout a (hs @ SignalReceived # busy @ [CallsEnded]) st =
      (Returned r, st2) \<and> prTrace st2 = prTrace st' @
         [GracefulStop, CloseGRPC a, Acquire (Deadline timeout), ShutdownHTTP, Release (Deadline timeout)] \<and> True"
    using shutdown_http_trace [of shutdown timeout "emit (CloseGRPC a) (emit GracefulStop st)"]
    by (simp add: await_calls_busy [OF assms(2)])
qed

lemma await_both_http:
  assumes "SignalReceived \<notin> set hs" and "\<not> errors_Is err ErrServerClosed"
  shows "ends_with (await_both shutdown timeout a hs) (await_both shutdown timeout a (hs @ [HTTPEnded err])) []
     (\<lambda>r. r = Some err)"
  unfolding ends_with_def using await_both_serving [OF _ assms(1)] assms(2) by fastforce

lemma orchestrator_ends:
  assumes "orchestrator_Load (ooReadFile E) (ooUnmarshal E) cfgFile = Inr cfg"
    and "ends_with (await_both (ooShutdown E) (ocShutdownTimeout cfg) (ocGRPCAddr cfg) hs)
      (await_both (ooShutdown E) (ocShutdownTimeout cfg) (ocGRPCAddr cfg) hs') tail P"
  shows "ends_with (orchestrator_main_run E hs cfgFile) (orchestrator_main_run E hs' cfgFile)
     (((tail @ [Release (DatabasePool (ocDatabaseURL cfg))]) @ [Release Signals]) @ [Release Logger]) P"
proof -
  have serve: "ends_with (orchestrator_serve E hs cfg pool) (orchestrator_serve E hs' cfg pool) tail P" for pool
    unfolding orchestrator_serve_def [abs_def] 
    by (rule ends_with_or_return) (rule ends_with_before [OF assms(2)])
  show ?thesis
    unfolding orchestrator_main_run_def [abs_def] assms(1) sum.case
    by (intro ends_with_rules ends_with_before [OF serve])
qed

lemma orchestrator_goes_on:
  assumes "orchestrator_Load (ooReadFile E) (ooUnmarshal E) cfgFile = Inr cfg"
    and "goes_on (await_both (ooShutdown E) (ocShutdownTimeout cfg) (ocGRPCAddr cfg) hs)
      (await_both (ooShutdown E) (ocShutdownTimeout cfg) (ocGRPCAddr cfg) hs') tail"
  shows "goes_on (orchestrator_main_run E hs cfgFile) (orchestrator_main_run E hs' cfgFile) tail"
proof -
  have serve: "goes_on (orchestrator_serve E hs cfg pool) (orchestrator_serve E hs' cfg pool) tail" for pool
    unfolding orchestrator_serve_def [abs_def]
    by (rule goes_on_or_return) (rule goes_on_before [OF assms(2)])
  show ?thesis
    unfolding orchestrator_main_run_def [abs_def] assms(1) sum.case
    by (intro goes_on_rules goes_on_before [OF serve])
qed

text \<open>
  C24: how the orchestrator stops. While it serves, a signal makes it drain its gRPC server first: it
  closes the listener and then waits, for as long as calls are in flight and whatever else happens, with
  the pool of database connections open. When the last call has ended it stops the HTTP server, and only
  then closes the pool, so that no payout loses its database. But if the HTTP server of the health checks
  fails, \<open>run\<close> returns and closes the pool at once: the gRPC server is neither drained nor closed.
\<close>

theorem orchestrator_stops:
  assumes "orchestrator_Load (ooReadFile E) (ooUnmarshal E) cfgFile = Inr cfg"
    and "orchestrator_main_run E hs cfgFile (fresh w0) = (Serving, st)" and "SignalReceived \<notin> set hs"
    and "CallsEnded \<notin> set busy" and "\<not> errors_Is err ErrServerClosed"
  shows "(\<exists>st'. orchestrator_main_run E (hs @ SignalReceived # busy) cfgFile (fresh w0) = (Serving, st') \<and>
      prTrace st' = prTrace st @ [GracefulStop, CloseGRPC (ocGRPCAddr cfg)]) \<and>
    (\<exists>r st'. orchestrator_main_run E (hs @ SignalReceived # busy @ [CallsEnded]) cfgFile (fresh w0) = (Returned r, st') \<and>
      prTrace st' = prTrace st @ [GracefulStop, CloseGRPC (ocGRPCAddr cfg),
         Acquire (Deadline (ocShutdownTimeout cfg)), ShutdownHTTP, Release (Deadline (ocShutdownTimeout cfg)),
         Release (DatabasePool (ocDatabaseURL cfg)), Release Signals, Release Logger]) \<and>
    (\<exists>st'. orchestrator_main_run E (hs @ [HTTPEnded err]) cfgFile (fresh w0) = (Returned (Some err), st') \<and>
      prTrace st' = prTrace st @ [Release (DatabasePool (ocDatabaseURL cfg)), Release Signals, Release Logger])"
  using orchestrator_goes_on [OF assms(1) await_both_drains [OF assms(3,4)]]
    orchestrator_ends [OF assms(1) await_both_signal [OF assms(3,4)]]
    orchestrator_ends [OF assms(1) await_both_http [OF assms(3,5)]] assms(2)
  by (simp add: ends_with_def goes_on_def)

section \<open>What becomes of the servers\<close>

text \<open>The happening that ends a run, if any does.\<close>

fun decided_http :: "happening list \<Rightarrow> happening option" where
  "decided_http [] = None"
| "decided_http (h # hs) = (case h of SignalReceived \<Rightarrow> Some h | HTTPEnded err \<Rightarrow> Some h | _ \<Rightarrow> decided_http hs)"

fun decided_both :: "happening list \<Rightarrow> happening option" where
  "decided_both [] = None"
| "decided_both (h # hs) =
     (case h of
        SignalReceived \<Rightarrow> if CallsEnded \<in> set hs then Some h else None
      | HTTPEnded err \<Rightarrow> if errors_Is err ErrServerClosed then decided_both hs else Some h
      | GRPCEnded err \<Rightarrow> Some h
      | CallsEnded \<Rightarrow> decided_both hs)"

definition http_deeds :: "happening option \<Rightarrow> 'h boot_event list" where
  "http_deeds h = (if h = Some SignalReceived then [ShutdownHTTP] else [])"

definition both_deeds :: "string \<Rightarrow> happening option \<Rightarrow> 'h boot_event list" where
  "both_deeds a h =
     (case h of
        Some SignalReceived \<Rightarrow> [GracefulStop, CloseGRPC a, ShutdownHTTP]
      | Some (GRPCEnded err) \<Rightarrow> [CloseGRPC a]
      | _ \<Rightarrow> [])"

lemma doing_shutdown:
  assumes "\<And>out. P out [ShutdownHTTP]"
  shows "doing (shutdown_http shutdown timeout) P"
  using assms
  by (auto simp: doing_def shutdown_http_def or_return_def acquire_def outside_def deferring_def as_outcome_def split: prod.splits)

lemma doing_await_http:
  "doing (await_http shutdown timeout hs) (\<lambda>out es. out = Serving \<or> decided_http hs \<noteq> None \<and> es = http_deeds (decided_http hs))"
proof (induction hs)
  case (Cons h hs)
  then show ?case
    by (cases h) (auto simp: await_http_program http_deeds_def intro: doing_end doing_shutdown)
qed (simp add: await_http_program doing_end)

lemma doing_await_calls:
  "doing (await_calls shutdown timeout hs) (\<lambda>out es. out = Serving \<or> CallsEnded \<in> set hs \<and> es = [ShutdownHTTP])"
  by (induction hs) (auto simp: await_calls_program intro: doing_end doing_shutdown)

lemma doing_mono: "doing prog P \<Longrightarrow> (\<And>out es. P out es \<Longrightarrow> Q out es) \<Longrightarrow> doing prog Q"
  unfolding doing_def by blast

lemma doing_await_both:
  "doing (await_both shutdown timeout a hs) (\<lambda>out es. out = Serving \<or> decided_both hs \<noteq> None \<and> es = both_deeds a (decided_both hs))"
proof (induction hs)
  case (Cons h hs)
  show ?case
  proof (cases h)
    case SignalReceived
    show ?thesis unfolding SignalReceived await_both_program
      by (rule doing_emit, rule doing_emit, rule doing_mono [OF doing_await_calls]) (auto simp: both_deeds_def)
  next
    case (GRPCEnded err)
    show ?thesis unfolding GRPCEnded await_both_program
      by (rule doing_emit [where prog = "\<lambda>st. (Returned (Some err), st)"], rule doing_end) (simp add: both_deeds_def)
  qed (use Cons in \<open>auto simp: await_both_program both_deeds_def intro: doing_end\<close>)
qed (simp add: await_both_program doing_end)

lemma quiet_clients [doing_intros]:
  "quiet (NewOrchestratorClient dial addr)" "quiet (redisclient_New new ping addr password)"
  by (auto simp: quiet_def NewOrchestratorClient_def redisclient_New_def acquire_def outside_def split: prod.splits sum.splits)

definition http_ended :: "happening option \<Rightarrow> run_outcome \<Rightarrow> 'h boot_event list \<Rightarrow> bool" where
  "http_ended h out es \<longleftrightarrow> out = Serving \<or> es = [] \<or>
     h \<noteq> None \<and> (\<exists>sv x. es = ServeHTTP sv x # http_deeds h)"

definition both_ended :: "happening option \<Rightarrow> run_outcome \<Rightarrow> 'h boot_event list \<Rightarrow> bool" where
  "both_ended h out es \<longleftrightarrow> out = Serving \<or> es = [] \<or>
     h \<noteq> None \<and> (\<exists>a g sv x. es = [ListenGRPC a, ServeGRPC g, ServeHTTP sv x] @ both_deeds a h)"

lemma ended_without [doing_intros]: "http_ended h out []" "both_ended h out []"
  by (simp_all add: http_ended_def both_ended_def)

lemma doing_served_http [doing_intros]:
  "doing (\<lambda>st. await_http shutdown timeout hs (emit (ServeHTTP sv x) st)) (http_ended (decided_http hs))"
  by (rule doing_emit, rule doing_mono [OF doing_await_http]) (auto simp: http_ended_def)

lemma doing_api: "doing (api_main_run E hs) (http_ended (decided_http hs))"
  unfolding api_main_run_def [abs_def]
  by (cases "api_Load (aoParseFloat E) (aoEnv E)") (simp_all only: sum.case, (intro doing_intros)+)

lemma doing_webhook_serve [doing_intros]: "doing (webhook_serve E hs cfg redis) (http_ended (decided_http hs))"
  unfolding webhook_serve_def [abs_def] by (intro doing_intros)

lemma doing_webhook: "doing (webhook_main_run E hs cfgFile) (http_ended (decided_http hs))"
proof (cases "webhook_Load (woReadFile E) (woUnmarshal E) cfgFile")
  case (Inr cfg)
  then show ?thesis unfolding webhook_main_run_def [abs_def]
    by (cases "wcRedisAddr cfg = []") (simp_all only: sum.case simp_thms if_True if_False not_True_eq_False, (intro doing_intros)+)
qed (simp add: webhook_main_run_def [abs_def] doing_intros)

lemma doing_orchestrator_serve [doing_intros]: "doing (orchestrator_serve E hs cfg pool) (both_ended (decided_both hs))"
  unfolding orchestrator_serve_def [abs_def]
  by (intro doing_intros, rule doing_emit, rule doing_emit, rule doing_emit, rule doing_mono [OF doing_await_both])
    (auto simp: both_ended_def)

lemma doing_warn [doing_intros]: "doing prog P \<Longrightarrow> doing (\<lambda>st. prog (warn_ping ping st)) P"
  by (cases ping) (auto simp: warn_ping_def intro!: doing_emit)

lemma doing_orchestrator: "doing (orchestrator_main_run E hs cfgFile) (both_ended (decided_both hs))"
proof (cases "orchestrator_Load (ooReadFile E) (ooUnmarshal E) cfgFile")
  case (Inr cfg)
  then show ?thesis unfolding orchestrator_main_run_def [abs_def]
    by (simp only: sum.case) (intro doing_intros doing_after)
qed (simp add: orchestrator_main_run_def [abs_def] doing_intros)

section \<open>What is served\<close>

text \<open>A call whose answer is always the same.\<close>

definition answers :: "('w \<Rightarrow> 'a \<times> 'w) \<Rightarrow> 'a \<Rightarrow> bool" where
  "answers f a \<longleftrightarrow> (\<forall>w. fst (f w) = a)"

lemma answersD: "answers f a \<Longrightarrow> \<exists>w'. f w = (a, w')"
  unfolding answers_def by (metis prod.collapse)

lemma answers_unit: "answers (\<lambda>w. (x, w)) x"
  by (simp add: answers_def)

text \<open>From any state with one trace to an outcome with another, with a rule for every construct.\<close>

definition boots :: "('w, 'h) program \<Rightarrow> 'h boot_event list \<Rightarrow> run_outcome \<Rightarrow> 'h boot_event list \<Rightarrow> bool" where
  "boots prog tr out tr' \<longleftrightarrow> (\<forall>st. prTrace st = tr \<longrightarrow> (\<exists>st'. prog st = (out, st') \<and> prTrace st' = tr'))"

lemma boots_fresh: "boots prog [] out tr \<Longrightarrow> \<exists>st. prog (fresh w) = (out, st) \<and> prTrace st = tr"
  by (simp add: boots_def)

lemma boots_end: "boots (\<lambda>st. (out, st)) tr out tr"
  by (simp add: boots_def)

lemma boots_emit: "boots prog (tr @ [e]) out tr' \<Longrightarrow> boots (\<lambda>st. prog (emit e st)) tr out tr'"
  by (simp add: boots_def)

lemma boots_acquire:
  fixes f :: "'w \<Rightarrow> 'a result \<times> 'w" and tr :: "'h boot_event list"
  assumes "answers f (Inr x)" and "boots (k x) (tr @ [Acquire r]) out tr'"
  shows "boots (\<lambda>st. or_return (acquire r f st) k) tr out tr'"
  unfolding boots_def
proof (intro allI impI)
  fix st :: "('w, 'h) process" assume "prTrace st = tr"
  obtain w' where "f (prWorld st) = (Inr x, w')" using answersD [OF assms(1)] by blast
  then show "\<exists>st'. or_return (acquire r f st) k = (out, st') \<and> prTrace st' = tr'"
    using assms(2) \<open>prTrace st = tr\<close> by (simp add: boots_def or_return_def acquire_def outside_def)
qed

lemma boots_client:
  fixes dial :: "string \<Rightarrow> 'w \<Rightarrow> 'a result \<times> 'w" and tr :: "'h boot_event list"
  assumes "answers (dial addr) (Inr x)" and "boots (k x) (tr @ [Acquire (OrchestratorConn addr)]) out tr'"
  shows "boots (\<lambda>st. or_return (NewOrchestratorClient dial addr st) k) tr out tr'"
  unfolding boots_def
proof (intro allI impI)
  fix st :: "('w, 'h) process" assume "prTrace st = tr"
  obtain w' where "dial addr (prWorld st) = (Inr x, w')" using answersD [OF assms(1)] by blast
  then show "\<exists>st'. or_return (NewOrchestratorClient dial addr st) k = (out, st') \<and> prTrace st' = tr'"
    using assms(2) \<open>prTrace st = tr\<close>
    by (simp add: boots_def or_return_def NewOrchestratorClient_def acquire_def outside_def)
qed

lemma boots_redis:
  fixes new :: "string \<Rightarrow> string \<Rightarrow> 'w \<Rightarrow> 'a result \<times> 'w" and tr :: "'h boot_event list"
  assumes "answers (new addr password) (Inr x)" and "answers (ping x) pong"
    and "case pong of Inr _ \<Rightarrow> boots (k x) (tr @ [Acquire (RedisConn addr)]) out tr'
      | Inl err \<Rightarrow> out = Returned (Some (ErrWrap ''redis ping'' err)) \<and>
          tr' = tr @ [Acquire (RedisConn addr), Release (RedisConn addr)]"
  shows "boots (\<lambda>st. or_return (redisclient_New new ping addr password st) k) tr out tr'"
  unfolding boots_def
proof (intro allI impI)
  fix st :: "('w, 'h) process" assume "prTrace st = tr"
  obtain w1 where "new addr password (prWorld st) = (Inr x, w1)" using answersD [OF assms(1)] by blast
  moreover obtain w2 where "ping x w1 = (pong, w2)" using answersD [OF assms(2)] by blast
  ultimately show "\<exists>st'. or_return (redisclient_New new ping addr password st) k = (out, st') \<and> prTrace st' = tr'"
    using assms(3) \<open>prTrace st = tr\<close>
    by (cases pong) (simp_all add: boots_def or_return_def redisclient_New_def acquire_def outside_def)
qed

lemma boots_returning:
  "boots prog tr (Returned e) tr' \<Longrightarrow> boots (deferring ev prog) tr (Returned e) (tr' @ [ev])"
  unfolding boots_def deferring_def by fastforce

lemma boots_serving: "boots prog tr Serving tr' \<Longrightarrow> boots (deferring ev prog) tr Serving tr'"
  unfolding boots_def deferring_def by fastforce

text \<open>
  C26: the API and Redis. When its configuration can be read and the other clients can be built, the API
  serves its router if Redis answers the ping; otherwise it returns the error and has served nothing.
  That holds with the rate limiter switched off too, although the router then never uses Redis.
\<close>

theorem api_needs_redis:
  assumes "api_Load (aoParseFloat E) (aoEnv E) = Inr cfg"
    and "answers (logger_New (aoZap E) cfg) (Inr ())"
    and "answers (aoDial E (acOrchestratorAddr cfg)) (Inr client)"
    and "answers (aoRedis E (acRedisAddr cfg) (acRedisPassword cfg)) (Inr redis)"
    and "answers (aoPing E redis) ping"
  shows "(case ping of
      Inr _ \<Rightarrow> \<exists>st. api_main_run E [] (fresh w) = (Serving, st) \<and> prTrace st =
        [Acquire Signals, Acquire Logger, Acquire (OrchestratorConn (acOrchestratorAddr cfg)),
         Acquire (RedisConn (acRedisAddr cfg)),
         ServeHTTP (api_server cfg) (NewRouterWithClient client (Some redis) cfg)]
    | Inl err \<Rightarrow> \<exists>st. api_main_run E hs (fresh w) = (Returned (Some (ErrWrap ''redis ping'' err)), st) \<and> prTrace st =
        [Acquire Signals, Acquire Logger, Acquire (OrchestratorConn (acOrchestratorAddr cfg)),
         Acquire (RedisConn (acRedisAddr cfg)), Release (RedisConn (acRedisAddr cfg)),
         Release (OrchestratorConn (acOrchestratorAddr cfg)), Release Logger, Release Signals]) \<and>
    (\<not> acRateLimitEnabled cfg \<longrightarrow> NewRouterWithClient client (Some redis) cfg = NewRouterWithClient client None cfg)"
proof -
  note up = boots_acquire [OF answers_unit] boots_acquire [OF assms(2)] boots_client [where dial = "aoDial E", OF assms(3)]
  have "boots (api_main_run E []) [] Serving
      [Acquire Signals, Acquire Logger, Acquire (OrchestratorConn (acOrchestratorAddr cfg)),
         Acquire (RedisConn (acRedisAddr cfg)),
         ServeHTTP (api_server cfg) (NewRouterWithClient client (Some redis) cfg)]" if "ping = Inr u" for u
  proof -
    have "boots (\<lambda>st. await_http (aoShutdown E) (acShutdownTimeout cfg) []
                (emit (ServeHTTP (api_server cfg) (NewRouterWithClient client (Some redis) cfg)) st)) tr Serving
           (tr @ [ServeHTTP (api_server cfg) (NewRouterWithClient client (Some redis) cfg)])" for tr
      by (simp add: boots_def)
    note served = this [of "[Acquire Signals, Acquire Logger, Acquire (OrchestratorConn (acOrchestratorAddr cfg)),
         Acquire (RedisConn (acRedisAddr cfg))]", simplified]
    show ?thesis unfolding api_main_run_def [abs_def] assms(1) sum.case
      by (intro up boots_serving boots_redis [where new = "aoRedis E" and ping = "aoPing E", OF assms(4,5)])
        (simp add: that boots_serving served)
  qed
  moreover have "boots (api_main_run E hs) [] (Returned (Some (ErrWrap ''redis ping'' err)))
      ((([Acquire Signals, Acquire Logger, Acquire (OrchestratorConn (acOrchestratorAddr cfg)),
         Acquire (RedisConn (acRedisAddr cfg)), Release (RedisConn (acRedisAddr cfg))] @
         [Release (OrchestratorConn (acOrchestratorAddr cfg))]) @ [Release Logger]) @ [Release Signals])" if "ping = Inl err" for err
    unfolding api_main_run_def [abs_def] assms(1) sum.case
    by (intro up boots_returning boots_redis [where new = "aoRedis E" and ping = "aoPing E", OF assms(4,5)]) (simp add: that)
  moreover have "NewRouterWithClient client (Some redis) cfg = NewRouterWithClient client None cfg" if "\<not> acRateLimitEnabled cfg"
    using that by (intro ext) (simp add: NewRouterWithClient_def RateLimitWithConfig_def)
  ultimately show ?thesis
    by (cases ping) (simp_all add: boots_def)
qed

lemma boots_outside:
  fixes f :: "'w \<Rightarrow> 'a \<times> 'w" and tr :: "'h boot_event list"
  assumes "answers f a" and "boots (k a) tr out tr'"
  shows "boots (\<lambda>st. case outside f st of (a, st1) \<Rightarrow> k a st1) tr out tr'"
  unfolding boots_def
proof (intro allI impI)
  fix st :: "('w, 'h) process" assume "prTrace st = tr"
  obtain w' where "f (prWorld st) = (a, w')" using answersD [OF assms(1)] by blast
  then show "\<exists>st'. (case outside f st of (a, st1) \<Rightarrow> k a st1) = (out, st') \<and> prTrace st' = tr'"
    using assms(2) \<open>prTrace st = tr\<close> by (simp add: boots_def outside_def)
qed

lemma boots_orchestrator_serve:
  assumes "answers (ooListen E (ocGRPCAddr cfg)) (Inr ())"
  shows "boots (orchestrator_serve E [] cfg pool) tr Serving (tr @ [ListenGRPC (ocGRPCAddr cfg),
    ServeGRPC (PayoutGRPC (Server_New pool (boot_orchestrator (ooDefaultRetries E) cfg))),
    ServeHTTP (health_server cfg) HealthMux])"
  unfolding boots_def
proof (intro allI impI)
  fix st :: "('a, (client, 'b) orchestrator_handler) process" assume "prTrace st = tr"
  obtain w' where "ooListen E (ocGRPCAddr cfg) (prWorld st) = (Inr (), w')" using answersD [OF assms] by blast
  then show "\<exists>st'. orchestrator_serve E [] cfg pool st = (Serving, st') \<and> prTrace st' = tr @ [ListenGRPC (ocGRPCAddr cfg),
      ServeGRPC (PayoutGRPC (Server_New pool (boot_orchestrator (ooDefaultRetries E) cfg))),
      ServeHTTP (health_server cfg) HealthMux]"
    using \<open>prTrace st = tr\<close> by (simp add: orchestrator_serve_def or_return_def outside_def)
qed

text \<open>
  C27: the orchestrator and its database. If the pool can be built and the address is free, the
  orchestrator listens and serves the payout service that its configuration describes, whether or not
  the database answers: a failed ping leaves only a warning.
\<close>

theorem orchestrator_serves_without_database:
  assumes "orchestrator_Load (ooReadFile E) (ooUnmarshal E) cfgFile = Inr cfg"
    and "answers (NewLogger (ooZap E) (ocEnv cfg) (ocLogLevel cfg)) (Inr ())"
    and "answers (ooPool E (ocDatabaseURL cfg)) (Inr pool)"
    and "answers (ooPing E pool) ping"
    and "answers (ooListen E (ocGRPCAddr cfg)) (Inr ())"
  shows "\<exists>st. orchestrator_main_run E [] cfgFile (fresh w) = (Serving, st) \<and> prTrace st =
    [Acquire Logger, Acquire Signals, Acquire (DatabasePool (ocDatabaseURL cfg))] @
    (case ping of Inl err \<Rightarrow> [PingFailed err] | Inr _ \<Rightarrow> []) @
    [ListenGRPC (ocGRPCAddr cfg),
     ServeGRPC (PayoutGRPC (Server_New pool (boot_orchestrator (ooDefaultRetries E) cfg))),
     ServeHTTP (health_server cfg) HealthMux]"
proof -
  note serve = boots_orchestrator_serve [OF assms(5)]
  have "boots (\<lambda>st. orchestrator_serve E [] cfg pool (warn_ping ping st)) tr Serving
      ((tr @ (case ping of Inl err \<Rightarrow> [PingFailed err] | Inr _ \<Rightarrow> [])) @ [ListenGRPC (ocGRPCAddr cfg),
     ServeGRPC (PayoutGRPC (Server_New pool (boot_orchestrator (ooDefaultRetries E) cfg))),
     ServeHTTP (health_server cfg) HealthMux])" for tr
    using serve serve [THEN boots_emit] by (cases ping) (simp_all add: warn_ping_def del: append_assoc)
  note served = this [of "(([] @ [Acquire Logger]) @ [Acquire Signals]) @ [Acquire (DatabasePool (ocDatabaseURL cfg))]"]
  have "boots (orchestrator_main_run E [] cfgFile) [] Serving
      ((((([] @ [Acquire Logger]) @ [Acquire Signals]) @ [Acquire (DatabasePool (ocDatabaseURL cfg))]) @
       (case ping of Inl err \<Rightarrow> [PingFailed err] | Inr _ \<Rightarrow> [])) @ [ListenGRPC (ocGRPCAddr cfg),
     ServeGRPC (PayoutGRPC (Server_New pool (boot_orchestrator (ooDefaultRetries E) cfg))),
     ServeHTTP (health_server cfg) HealthMux])"
    unfolding orchestrator_main_run_def [abs_def] assms(1) sum.case
    by (intro boots_acquire [OF answers_unit] boots_acquire [OF assms(2)] boots_acquire [OF assms(3)]
        boots_serving boots_outside [OF assms(4)] served)
  then show ?thesis by (simp add: boots_def)
qed

section \<open>Examples\<close>

text \<open>Everything comes up, but for the pings.\<close>

definition demo_zap :: "unit zap_env" where
  "demo_zap = \<lparr>zaUnmarshalLevel = (\<lambda>l. if l = ''info'' then Inr 0 else Inl (ErrText ''unrecognized level'')),
     zaBuild = (\<lambda>production l w. (Inr (), w))\<rparr>"

definition demo_orchestrator_outside :: "(unit, nat) orchestrator_outside" where
  "demo_orchestrator_outside =
     \<lparr>ooZap = demo_zap, ooReadFile = (\<lambda>path. Inr []), ooUnmarshal = (\<lambda>text cfg. Inr cfg),
      ooPool = (\<lambda>url w. (Inr \<lparr>pg_net = (\<lambda>n. (LostBefore [] [], n)), pg_uuid = (\<lambda>n. (0, n)), pg_now = (\<lambda>n. (0, n))\<rparr>, w)),
      ooPing = (\<lambda>pool w. (Inl (ErrText ''connection refused''), w)), ooListen = (\<lambda>addr w. (Inr (), w)),
      ooShutdown = (\<lambda>w. (Inr (), w)), ooDefaultRetries = 2\<rparr>"

definition demo_api_outside :: "(unit, unit, nat) api_outside" where
  "demo_api_outside =
     \<lparr>aoZap = demo_zap, aoParseFloat = (\<lambda>t. None), aoEnv = (\<lambda>key. []),
      aoDial = (\<lambda>addr w. (Inr \<lparr>pcCreatePayout = (\<lambda>req n. (Inl (ErrText []), n)), pcGetPayout = (\<lambda>i n. (Inl (ErrText []), n)),
        pcCancelPayout = (\<lambda>i n. (Inr True, n))\<rparr>, w)),
      aoRedis = (\<lambda>addr password w. (Inr \<lparr>rd_net = (\<lambda>w. (Delivered, w)), rd_now = (\<lambda>w. (0, w))\<rparr>, w)),
      aoPing = (\<lambda>redis w. (Inl (ErrText ''connection refused''), w)), aoShutdown = (\<lambda>w. (Inr (), w))\<rparr>"

lemma demo_logger: "level = ''info'' \<Longrightarrow> answers (NewLogger demo_zap env level) (Inr ())"
  by (simp add: answers_def NewLogger_def demo_zap_def)

lemma demo_orchestrator_Load:
  "orchestrator_Load (ooReadFile demo_orchestrator_outside) (ooUnmarshal demo_orchestrator_outside) path = Inr orchestrator_defaults"
  by (simp add: orchestrator_Load_def load_config_def demo_orchestrator_outside_def)

theorem orchestrator_serves_without_database_witness:
  "\<exists>st. orchestrator_main_run demo_orchestrator_outside [] ''config.yaml'' (fresh ()) = (Serving, st) \<and>
     PingFailed (ErrText ''connection refused'') \<in> set (prTrace st)"
proof -
  obtain pool where pool: "answers (ooPool demo_orchestrator_outside url) (Inr pool)" for url
    by (simp add: answers_def demo_orchestrator_outside_def)
  have "answers (ooPing demo_orchestrator_outside p) (Inl (ErrText ''connection refused''))"
    "answers (ooListen demo_orchestrator_outside a) (Inr ())" for p a
    by (simp_all add: answers_def demo_orchestrator_outside_def)
  moreover have "answers (NewLogger (ooZap demo_orchestrator_outside) (ocEnv orchestrator_defaults) (ocLogLevel orchestrator_defaults)) (Inr ())"
    using demo_logger by (simp add: demo_orchestrator_outside_def orchestrator_defaults_def)
  ultimately obtain st where "orchestrator_main_run demo_orchestrator_outside [] ''config.yaml'' (fresh ()) = (Serving, st)"
    "prTrace st = [Acquire Logger, Acquire Signals, Acquire (DatabasePool (ocDatabaseURL orchestrator_defaults))] @
      [PingFailed (ErrText ''connection refused'')] @
      [ListenGRPC (ocGRPCAddr orchestrator_defaults),
       ServeGRPC (PayoutGRPC (Server_New pool (boot_orchestrator (ooDefaultRetries demo_orchestrator_outside) orchestrator_defaults))),
       ServeHTTP (health_server orchestrator_defaults) HealthMux]"
    using orchestrator_serves_without_database [where w = "()", OF demo_orchestrator_Load _ pool] by fastforce
  then show ?thesis by simp
qed

lemma demo_orchestrator_serving:
  "\<exists>st. orchestrator_main_run demo_orchestrator_outside [] ''config.yaml'' (fresh ()) = (Serving, st)"
  by (simp add: orchestrator_main_run_def orchestrator_Load_def load_config_def or_return_def acquire_def outside_def
      deferring_def orchestrator_serve_def demo_orchestrator_outside_def demo_zap_def NewLogger_def orchestrator_defaults_def)

theorem orchestrator_stops_witness:
  "\<exists>st. orchestrator_main_run demo_orchestrator_outside [] ''config.yaml'' (fresh ()) = (Serving, st) \<and>
   (\<exists>r st'. orchestrator_main_run demo_orchestrator_outside [SignalReceived, CallsEnded] ''config.yaml'' (fresh ()) = (Returned r, st') \<and>
     prTrace st' = prTrace st @ [GracefulStop, CloseGRPC '':50051'', Acquire (Deadline (10 * 10 ^ 9)), ShutdownHTTP,
       Release (Deadline (10 * 10 ^ 9)), Release (DatabasePool []), Release Signals, Release Logger])"
proof -
  obtain st where st: "orchestrator_main_run demo_orchestrator_outside [] ''config.yaml'' (fresh ()) = (Serving, st)"
    using demo_orchestrator_serving by blast
  have "\<not> errors_Is (ErrText ''address in use'') ErrServerClosed" by (simp add: ErrServerClosed_def)
  note stops = conjunct1 [OF conjunct2 [OF orchestrator_stops [where busy = "[]", OF demo_orchestrator_Load st _ _ this]]]
  show ?thesis by (rule exI [of _ st]) (use st stops in \<open>simp add: orchestrator_defaults_def\<close>)
qed

theorem api_needs_redis_witness:
  "\<exists>st. api_main_run demo_api_outside [] (fresh ()) =
     (Returned (Some (ErrWrap ''redis ping'' (ErrText ''connection refused''))), st)"
proof -
  obtain cfg where cfg: "api_Load (aoParseFloat demo_api_outside) (aoEnv demo_api_outside) = Inr cfg" "acLogLevel cfg = ''info''"
    by (simp add: demo_api_outside_def api_Load_def getEnv_def getFloatEnv_def getInt64Env_def read_timeout_def getDurationEnv_def)
  obtain client redis where "answers (aoDial demo_api_outside a) (Inr client)" "answers (aoRedis demo_api_outside a p) (Inr redis)" for a p
    by (simp add: demo_api_outside_def answers_def)
  moreover have "answers (aoPing demo_api_outside r) (Inl (ErrText ''connection refused''))" for r
    by (simp add: demo_api_outside_def answers_def)
  moreover have "answers (logger_New (aoZap demo_api_outside) cfg) (Inr ())"
    using demo_logger cfg(2) by (simp add: demo_api_outside_def logger_New_def)
  ultimately show ?thesis
    using api_needs_redis [where w = "()" and hs = "[]", OF cfg(1)] by fastforce
qed

end
