(* ===== verification/RequestIds.thy ===== *)
theory RequestIds
  imports ApiFacts
begin

text \<open>
  Request ids: \<open>libs/observability/requestid.go\<close> (and the start time of \<open>grpc_metrics.go\<close>, kept in a
  context in the same way), and their way through gRPC metadata in \<open>libs/grpcutil/metadata.go\<close>.
\<close>

section \<open>Contexts\<close>

text \<open>
  A context is a chain of \<open>context.WithValue\<close>. Keys of different Go types are different, whatever
  their text is; \<open>Value\<close> gives the last binding, and the type assertion after it may fail.
\<close>

datatype context_key = ObservabilityKey string | GrpcContextKey string
datatype context_value = ContextString string | ContextTime go_time

type_synonym go_context = "(context_key \<times> context_value) list"

definition WithValue :: "go_context \<Rightarrow> context_key \<Rightarrow> context_value \<Rightarrow> go_context" where
  "WithValue ctx k v = (k, v) # ctx"

definition requestIDKey :: context_key where
  "requestIDKey = ObservabilityKey ''request_id''"

definition WithRequestID :: "go_context \<Rightarrow> string \<Rightarrow> go_context" where
  "WithRequestID ctx i = WithValue ctx requestIDKey (ContextString i)"

definition RequestIDFromContext :: "go_context \<Rightarrow> string" where
  "RequestIDFromContext ctx = (case map_of ctx requestIDKey of Some (ContextString i) \<Rightarrow> i | _ \<Rightarrow> [])"

definition startTimeKey :: context_key where
  "startTimeKey = GrpcContextKey ''start_time''"

definition StartTimeFromContext :: "go_context \<Rightarrow> go_time option" where
  "StartTimeFromContext ctx = (case map_of ctx startTimeKey of Some (ContextTime t) \<Rightarrow> Some t | _ \<Rightarrow> None)"

definition ContextWithStartTime :: "go_context \<Rightarrow> go_time \<Rightarrow> go_context" where
  "ContextWithStartTime ctx t = WithValue ctx startTimeKey (ContextTime t)"

lemma context_values [simp]:
  "RequestIDFromContext (WithRequestID ctx i) = i"
  "StartTimeFromContext (ContextWithStartTime ctx t) = Some t"
  "RequestIDFromContext (ContextWithStartTime ctx t) = RequestIDFromContext ctx"
  "StartTimeFromContext (WithRequestID ctx i) = StartTimeFromContext ctx"
  by (simp_all add: RequestIDFromContext_def WithRequestID_def StartTimeFromContext_def ContextWithStartTime_def
      WithValue_def requestIDKey_def startTimeKey_def)

section \<open>New ids\<close>

text \<open>Sixteen bytes of \<open>crypto/rand\<close>, which is an argument on its state \<open>'r\<close>, in hexadecimal.\<close>

definition NewRequestID :: "(nat \<Rightarrow> 'r \<Rightarrow> int list \<times> 'r) \<Rightarrow> 'r \<Rightarrow> string \<times> 'r" where
  "NewRequestID rand_Read r = (case rand_Read 16 r of (b, r') \<Rightarrow> (hex_text b, r'))"

text \<open>\<open>rand.Read\<close> fills the slice with bytes.\<close>

definition fills :: "(nat \<Rightarrow> 'r \<Rightarrow> int list \<times> 'r) \<Rightarrow> bool" where
  "fills rand_Read \<longleftrightarrow> (\<forall>n r. length (fst (rand_Read n r)) = n \<and> list_all (\<lambda>b. 0 \<le> b \<and> b < 256) (fst (rand_Read n r)))"

lemma length_hex_text: "length (hex_text bs) = 2 * length bs"
  by (induction bs) (simp_all add: hex_text_def)

lemma NewRequestID_length: "fills rand_Read \<Longrightarrow> length (fst (NewRequestID rand_Read r)) = 32"
  by (simp add: NewRequestID_def length_hex_text fills_def split: prod.split) (metis fst_conv)

text \<open>Two ids are equal only if the random bytes are.\<close>

lemma NewRequestID_inj:
  assumes "fills rand_Read" and "fst (NewRequestID rand_Read r) = fst (NewRequestID rand_Read r')"
  shows "fst (rand_Read 16 r) = fst (rand_Read 16 r')"
  using assms by (intro hex_text_inj) (auto simp: NewRequestID_def fills_def split: prod.splits)

section \<open>Metadata of a call\<close>

text \<open>
  \<open>google.golang.org/grpc/metadata\<close> on contexts \<open>'c\<close>: appending to the outgoing metadata, reading the
  incoming, and the values under a key.
\<close>

record ('c, 'm) metadata_lib =
  mdAppendToOutgoingContext :: "'c \<Rightarrow> string \<Rightarrow> string \<Rightarrow> 'c"
  mdFromIncomingContext :: "'c \<Rightarrow> 'm option"
  mdGet :: "'m \<Rightarrow> string \<Rightarrow> string list"

definition RequestIDKey :: string where
  "RequestIDKey = ''x-request-id''"

definition SetRequestID :: "('c, 'm) metadata_lib \<Rightarrow> 'c \<Rightarrow> string \<Rightarrow> 'c" where
  "SetRequestID L ctx requestID = mdAppendToOutgoingContext L ctx RequestIDKey requestID"

definition GetRequestID :: "('c, 'm) metadata_lib \<Rightarrow> 'c \<Rightarrow> string" where
  "GetRequestID L ctx =
     (case mdFromIncomingContext L ctx of
        None \<Rightarrow> []
      | Some md \<Rightarrow> (case mdGet L md RequestIDKey of [] \<Rightarrow> [] | v # vs \<Rightarrow> v))"

text \<open>
  What the library documents. Keys are compared in lower case; of keys only those of applications are
  considered here, which begin with \<open>x-\<close>, are made of letters, digits, dots, dashes and underscores, and
  do not end in \<open>-bin\<close>. A value arrives as it is if it is printable ASCII, not empty, and without a
  space at its ends (a call with another character fails, and the space may be cut off).
\<close>

abbreviation lower_case :: "string \<Rightarrow> string" where
  "lower_case k \<equiv> map to_lower k"

definition key_char :: "char \<Rightarrow> bool" where
  "key_char c =
     (let n = (of_char c :: nat)
      in 48 \<le> n \<and> n \<le> 57 \<or> 65 \<le> n \<and> n \<le> 90 \<or> 97 \<le> n \<and> n \<le> 122 \<or> n = 45 \<or> n = 46 \<or> n = 95)"

definition plain_key :: "string \<Rightarrow> bool" where
  "plain_key k \<longleftrightarrow> take 2 (lower_case k) = ''x-'' \<and> list_all key_char k \<and> take 4 (rev (lower_case k)) \<noteq> ''nib-''"

definition plain_value :: "string \<Rightarrow> bool" where
  "plain_value v \<longleftrightarrow> v \<noteq> [] \<and> list_all (\<lambda>c. 32 \<le> (of_char c :: nat) \<and> (of_char c :: nat) \<le> 126) v \<and>
     hd v \<noteq> CHR '' '' \<and> last v \<noteq> CHR '' ''"

text \<open>
  The metadata that a context would send is a list of keys and values in the order in which they were
  appended (\<open>sent\<close>). When the values are plain, the server's context has under a plain key the values
  that were appended under it, in any spelling, in their order.
\<close>

definition values_of :: "(string \<times> string) list \<Rightarrow> string \<Rightarrow> string list" where
  "values_of md k = map snd (filter (\<lambda>p. lower_case (fst p) = lower_case k) md)"

definition carries :: "('c, 'm) metadata_lib \<Rightarrow> ('c \<Rightarrow> 'c) \<Rightarrow> ('c \<Rightarrow> (string \<times> string) list) \<Rightarrow> bool" where
  "carries L call sent \<longleftrightarrow>
     (\<forall>ctx k v. sent (mdAppendToOutgoingContext L ctx k v) = sent ctx @ [(k, v)]) \<and>
     (\<forall>ctx. list_all (\<lambda>(k, v). plain_key k \<and> plain_value v) (sent ctx) \<longrightarrow>
        (\<exists>md. mdFromIncomingContext L (call ctx) = Some md \<and>
           (\<forall>k. plain_key k \<longrightarrow> mdGet L md k = values_of (sent ctx) k)))"

lemma plain_request_id_key [simp]: "plain_key RequestIDKey"
  by code_simp

text \<open>The id of the first \<open>SetRequestID\<close> arrives, also when a context that has one is given another.\<close>

lemma request_id_arrives:
  assumes "carries L call sent" and "sent ctx = []" and "plain_value i"
  shows "GetRequestID L (call (SetRequestID L ctx i)) = i"
    and "plain_value j \<Longrightarrow> GetRequestID L (call (SetRequestID L (SetRequestID L ctx i) j)) = i"
proof -
  have sent: "sent (SetRequestID L c v) = sent c @ [(RequestIDKey, v)]" for c v
    using assms(1) by (simp add: carries_def SetRequestID_def)
  have get: "GetRequestID L (call c) = i"
    if plain: "list_all (\<lambda>(k, v). plain_key k \<and> plain_value v) (sent c)" and c: "sent c = (RequestIDKey, i) # rest" for c rest
  proof -
    obtain md where "mdFromIncomingContext L (call c) = Some md" "mdGet L md RequestIDKey = values_of (sent c) RequestIDKey"
      using assms(1) plain unfolding carries_def by (meson plain_request_id_key)
    then show ?thesis by (simp add: GetRequestID_def c values_of_def)
  qed
  show "GetRequestID L (call (SetRequestID L ctx i)) = i"
    by (rule get) (simp_all add: sent assms(2,3))
  show "plain_value j \<Longrightarrow> GetRequestID L (call (SetRequestID L (SetRequestID L ctx i) j)) = i"
    by (rule get) (simp_all add: sent assms(2,3))
qed

text \<open>The laws can hold: a context as the list of what was appended, read without regard to case.\<close>

definition plain_metadata :: "((string \<times> string) list, (string \<times> string) list) metadata_lib" where
  "plain_metadata =
     \<lparr>mdAppendToOutgoingContext = (\<lambda>ctx k v. ctx @ [(k, v)]), mdFromIncomingContext = Some, mdGet = values_of\<rparr>"

lemma plain_metadata_carries: "carries plain_metadata (\<lambda>c. c) (\<lambda>c. c)"
  by (simp add: carries_def plain_metadata_def)

lemma request_id_arrives_example: "GetRequestID plain_metadata (SetRequestID plain_metadata [] ''id-1'') = ''id-1''"
proof -
  have "plain_value ''id-1''" by code_simp
  from request_id_arrives(1) [OF plain_metadata_carries refl this] show ?thesis .
qed

end
