(* ===== verification/WebhookRouter.thy ===== *)
theory WebhookRouter
  imports RequestIds HttpMetrics StartupFacts WebhookFacts
begin

text \<open>
  The webhook service's router (\<open>internal/http/router.go\<close>): its routes behind the middlewares for request
  ids, panics, the access log and the metrics; and the Stripe endpoint of a service that was started
  without a Redis address. What chi does is an input: which route it matched, with which pattern.
\<close>

section \<open>The Stripe endpoint, with or without Redis\<close>

text \<open>
  The first part of \<open>ServeHTTP\<close>, which needs no Redis: the answer to a delivery that is not taken, or
  the event.
\<close>

definition check_delivery ::
    "(string \<Rightarrow> string \<Rightarrow> string \<Rightarrow> stripe_event result) \<Rightarrow> webhook_handler \<Rightarrow> http_request \<Rightarrow>
     http_response + provider_event" where
  "check_delivery constructEvent h r =
     (if hqMethod r \<noteq> ''POST'' then Inl (http_error 405 ''method not allowed'')
      else case hqBody r of
        None \<Rightarrow> Inl (http_error 400 ''failed to read body'')
      | Some payload \<Rightarrow>
          if hqSignature r = [] then Inl (http_error 400 ''missing stripe signature'')
          else (case constructEvent payload (hqSignature r) (whSecret h) of
            Inl err \<Rightarrow> Inl (http_error 400 ''invalid signature'')
          | Inr event \<Rightarrow> (case EventParser_Parse event of Inl err \<Rightarrow> Inl writeOK | Inr pe \<Rightarrow> Inr pe)))"

type_synonym ('v, 'o) stripe_deps = "('v, update_request \<Rightarrow> 'o \<Rightarrow> bool result \<times> 'o) webhook_deps"

definition deps_env ::
    "(string \<Rightarrow> string \<Rightarrow> string \<Rightarrow> stripe_event result) \<Rightarrow> ('v, 'o) stripe_deps \<Rightarrow> 'v redis_env \<Rightarrow>
     ('v, 'o) webhook_env" where
  "deps_env constructEvent deps redis =
     \<lparr>weRedis = redis, weConstructEvent = constructEvent, weApplyProviderUpdate = wdOrchestrator deps\<rparr>"

text \<open>Nothing is the panic of a call on the nil client, the first thing \<open>IsProcessed\<close> does.\<close>

definition stripe_endpoint ::
    "(string \<Rightarrow> string \<Rightarrow> string \<Rightarrow> stripe_event result) \<Rightarrow> ('v, 'o) stripe_deps \<Rightarrow> http_request \<Rightarrow>
     ('v, 'o) webhook_state \<Rightarrow> http_response option \<times> ('v, 'o) webhook_state" where
  "stripe_endpoint constructEvent deps r s =
     (case wdRedis deps of
        Some redis \<Rightarrow> apfst Some (Webhook_ServeHTTP (deps_env constructEvent deps redis) (wdHandler deps) r s)
      | None \<Rightarrow>
          (case check_delivery constructEvent (wdHandler deps) r of
             Inl resp \<Rightarrow> (Some resp, s)
           | Inr event \<Rightarrow> (None, s)))"

lemma ServeHTTP_checked:
  "Webhook_ServeHTTP V h r s =
     (case check_delivery (weConstructEvent V) h r of
        Inl resp \<Rightarrow> (resp, s)
      | Inr pe \<Rightarrow>
          (case IsProcessed (weRedis V) (whTTL h) (peEventID pe) (wsRedis s) of
             (Inl err, rd) \<Rightarrow> (http_error 500 ''dedup check failed'', s\<lparr>wsRedis := rd\<rparr>)
           | (Inr isDuplicate, rd) \<Rightarrow>
               if isDuplicate then (writeOK, s\<lparr>wsRedis := rd\<rparr>)
               else (case forwardToOrchestrator V pe (wsOrch s) of
                  (Some err, o2) \<Rightarrow> (http_error 500 ''forward failed'', \<lparr>wsRedis = rd, wsOrch = o2\<rparr>)
                | (None, o2) \<Rightarrow> (writeOK, \<lparr>wsRedis = rd, wsOrch = o2\<rparr>))))"
  by (auto simp: Webhook_ServeHTTP_def check_delivery_def split: option.split sum.split)

section \<open>Routes\<close>

text \<open>What chi answers by itself, where no route matches, comes with its status (404 or 405).\<close>

datatype webhook_route = WMetrics | WHealth | WStripe http_request | WUnmatched nat

datatype webhook_answer = MetricsText | HealthOK | StripeReply http_response | NoRoute nat

definition webhook_status :: "webhook_answer \<Rightarrow> nat" where
  "webhook_status a =
     (case a of MetricsText \<Rightarrow> 200 | HealthOK \<Rightarrow> 200 | StripeReply resp \<Rightarrow> hrStatus resp | NoRoute status \<Rightarrow> status)"

definition webhook_routes ::
    "(string \<Rightarrow> string \<Rightarrow> string \<Rightarrow> stripe_event result) \<Rightarrow> ('v, 'o) stripe_deps \<Rightarrow> webhook_route \<Rightarrow>
     ('v, 'o) webhook_state \<Rightarrow> webhook_answer option \<times> ('v, 'o) webhook_state" where
  "webhook_routes constructEvent deps route s =
     (case route of
        WMetrics \<Rightarrow> (Some MetricsText, s)
      | WHealth \<Rightarrow> (Some HealthOK, s)
      | WStripe r \<Rightarrow> apfst (map_option StripeReply) (stripe_endpoint constructEvent deps r s)
      | WUnmatched status \<Rightarrow> (Some (NoRoute status), s))"

section \<open>Middlewares\<close>

record access_entry =
  aeRequestID :: string
  aeMethod :: string
  aePath :: string
  aeStatus :: nat

record ('r, 'v, 'o) router_state =
  rsRandom :: 'r
  rsLog :: "access_entry list"
  rsMetrics :: metrics_state
  rsService :: "('v, 'o) webhook_state"

text \<open>
  The metrics middleware around a handler that may panic: the deferred decrement is made, the rest of
  the middleware is not reached.
\<close>

definition metrics_unwinding ::
    "string \<Rightarrow> ('a \<Rightarrow> nat) \<Rightarrow> string option \<Rightarrow> string \<Rightarrow> string \<Rightarrow>
     ('s \<Rightarrow> 'a option \<times> 's) \<Rightarrow> metrics_state \<times> 's \<Rightarrow> 'a option \<times> (metrics_state \<times> 's)" where
  "metrics_unwinding namespace status_of pattern verb path nxt st =
     (case st of (m, s) \<Rightarrow>
      case nxt s of
        (None, s1) \<Rightarrow> (None, (metric (InFlightDec namespace verb) (metric (InFlightInc namespace verb) m), s1))
      | (Some a, s1) \<Rightarrow>
          apfst Some (HTTPMetricsMiddleware namespace status_of (\<lambda>_. pattern) verb path (\<lambda>(m, _). (a, (m, s1))) (m, s)))"

text \<open>\<open>accessLog\<close>: one entry after the handler, with the request id of the context.\<close>

definition webhook_accessLog ::
    "go_context \<Rightarrow> string \<Rightarrow> string \<Rightarrow> ('a \<Rightarrow> nat) \<Rightarrow>
     (('r, 'v, 'o) router_state \<Rightarrow> 'a option \<times> ('r, 'v, 'o) router_state) \<Rightarrow>
     ('r, 'v, 'o) router_state \<Rightarrow> 'a option \<times> ('r, 'v, 'o) router_state" where
  "webhook_accessLog ctx verb path status_of nxt st =
     (case nxt st of
        (None, st1) \<Rightarrow> (None, st1)
      | (Some a, st1) \<Rightarrow>
          (Some a, st1\<lparr>rsLog := rsLog st1 @
             [\<lparr>aeRequestID = RequestIDFromContext ctx, aeMethod = verb, aePath = path, aeStatus = status_of a\<rparr>]\<rparr>))"

text \<open>A request: its method, path, \<open>X-Request-Id\<close> header (empty if there is none), and what chi matched.\<close>

record webhook_request =
  wqMethod :: string
  wqPath :: string
  wqRequestID :: string
  wqRoute :: webhook_route

text \<open>The reply: the header that is set, and the answer, or what chi's \<open>Recoverer\<close> makes of a panic (\<open>None\<close>).\<close>

record webhook_reply =
  wpRequestID :: string
  wpAnswer :: "webhook_answer option"

definition requestIDMiddleware ::
    "(nat \<Rightarrow> 'r \<Rightarrow> int list \<times> 'r) \<Rightarrow> string \<Rightarrow>
     (go_context \<Rightarrow> ('r, 'v, 'o) router_state \<Rightarrow> webhook_answer option \<times> ('r, 'v, 'o) router_state) \<Rightarrow>
     ('r, 'v, 'o) router_state \<Rightarrow> webhook_reply \<times> ('r, 'v, 'o) router_state" where
  "requestIDMiddleware rand_Read header nxt st =
     (case (if header = [] then NewRequestID rand_Read (rsRandom st) else (header, rsRandom st)) of (i, rnd) \<Rightarrow>
      case nxt (WithRequestID [] i) (st\<lparr>rsRandom := rnd\<rparr>) of (a, st1) \<Rightarrow>
        (\<lparr>wpRequestID = i, wpAnswer = a\<rparr>, st1))"

text \<open>\<open>NewRouter\<close>: the chain, from the outside to the routes.\<close>

definition webhook_NewRouter ::
    "(nat \<Rightarrow> 'r \<Rightarrow> int list \<times> 'r) \<Rightarrow> (string \<Rightarrow> string \<Rightarrow> string \<Rightarrow> stripe_event result) \<Rightarrow>
     (webhook_route \<Rightarrow> string) \<Rightarrow> ('v, 'o) stripe_deps \<Rightarrow> webhook_request \<Rightarrow>
     ('r, 'v, 'o) router_state \<Rightarrow> webhook_reply \<times> ('r, 'v, 'o) router_state" where
  "webhook_NewRouter rand_Read constructEvent pattern deps q =
     requestIDMiddleware rand_Read (wqRequestID q) (\<lambda>ctx.
       webhook_accessLog ctx (wqMethod q) (wqPath q) webhook_status (\<lambda>st.
         case metrics_unwinding NamespaceWebhook webhook_status (Some (pattern (wqRoute q))) (wqMethod q) (wqPath q)
             (webhook_routes constructEvent deps (wqRoute q)) (rsMetrics st, rsService st) of
           (a, (m, s)) \<Rightarrow> (a, st\<lparr>rsMetrics := m, rsService := s\<rparr>)))"

section \<open>What a request gets\<close>

lemma apfst_parts: "apfst f p = (f (fst p), snd p)"
  by (cases p) simp

lemma metrics_unwinding_calls:
  assumes "metrics_unwinding ns status_of (Some pattern) verb path nxt (m, s) = (a, (m', s'))"
  shows "nxt s = (a, s')"
    and "request_counts (msCalls m') = request_counts (msCalls m) @
      (case a of None \<Rightarrow> [] | Some x \<Rightarrow> [(verb, normalizePath (Some pattern) path, nat_text (status_of x))])"
    and "in_flight me (msCalls m') = in_flight me (msCalls m)"
  using assms
  by (auto simp: metrics_unwinding_def HTTPMetricsMiddleware_def Let_def metric_def in_flight_def split: prod.splits option.splits)

lemma webhook_NewRouter_parts:
  assumes "webhook_NewRouter rand_Read constructEvent pattern deps q st = (reply, st')"
  shows "wpRequestID reply = (if wqRequestID q = [] then fst (NewRequestID rand_Read (rsRandom st)) else wqRequestID q)"
    and "webhook_routes constructEvent deps (wqRoute q) (rsService st) = (wpAnswer reply, rsService st')"
    and "rsLog st' = rsLog st @ (case wpAnswer reply of None \<Rightarrow> [] | Some a \<Rightarrow>
      [\<lparr>aeRequestID = wpRequestID reply, aeMethod = wqMethod q, aePath = wqPath q, aeStatus = webhook_status a\<rparr>])"
    and "request_counts (msCalls (rsMetrics st')) = request_counts (msCalls (rsMetrics st)) @
      (case wpAnswer reply of None \<Rightarrow> [] | Some a \<Rightarrow>
        [(wqMethod q, normalizePath (Some (pattern (wqRoute q))) (wqPath q), nat_text (webhook_status a))])"
    and "in_flight me (msCalls (rsMetrics st')) = in_flight me (msCalls (rsMetrics st))"
proof -
  obtain i rnd where i: "(if wqRequestID q = [] then NewRequestID rand_Read (rsRandom st) else (wqRequestID q, rsRandom st)) = (i, rnd)"
    by (metis prod.collapse)
  obtain a m s where a: "metrics_unwinding ''webhook'' webhook_status (Some (pattern (wqRoute q))) (wqMethod q) (wqPath q)
      (webhook_routes constructEvent deps (wqRoute q)) (rsMetrics st, rsService st) = (a, (m, s))"
    by (metis prod.collapse)
  note run = assms [unfolded webhook_NewRouter_def requestIDMiddleware_def webhook_accessLog_def i prod.case, simplified, unfolded a prod.case]
  have reply: "reply = \<lparr>wpRequestID = i, wpAnswer = a\<rparr>" "rsMetrics st' = m" "rsService st' = s"
    and log: "rsLog st' = rsLog st @ (case a of None \<Rightarrow> [] | Some x \<Rightarrow>
      [\<lparr>aeRequestID = i, aeMethod = wqMethod q, aePath = wqPath q, aeStatus = webhook_status x\<rparr>])"
    using run by (auto split: option.splits)
  show "wpRequestID reply = (if wqRequestID q = [] then fst (NewRequestID rand_Read (rsRandom st)) else wqRequestID q)"
    using i by (auto simp: reply split: if_splits)
  note calls = metrics_unwinding_calls [OF a]
  show "webhook_routes constructEvent deps (wqRoute q) (rsService st) = (wpAnswer reply, rsService st')"
    using calls(1) by (simp add: reply)
  show "rsLog st' = rsLog st @ (case wpAnswer reply of None \<Rightarrow> [] | Some a \<Rightarrow>
      [\<lparr>aeRequestID = wpRequestID reply, aeMethod = wqMethod q, aePath = wqPath q, aeStatus = webhook_status a\<rparr>])"
    using log by (simp add: reply split: option.split)
  show "request_counts (msCalls (rsMetrics st')) = request_counts (msCalls (rsMetrics st)) @
      (case wpAnswer reply of None \<Rightarrow> [] | Some a \<Rightarrow>
        [(wqMethod q, normalizePath (Some (pattern (wqRoute q))) (wqPath q), nat_text (webhook_status a))])"
    "in_flight me (msCalls (rsMetrics st')) = in_flight me (msCalls (rsMetrics st))"
    using calls(2,3) by (simp_all add: reply)
qed

text \<open>
  C29: what the webhook service answers, and what it does around its handler. With a Redis client,
  \<open>/metrics\<close> and \<open>/healthz\<close> are answered with 200 and a request without a route with the status of
  chi, all without touching the service; a delivery to the Stripe endpoint is answered by the handler
  alone. A request leaves one entry in the
  access log and one count, with the same status, none in flight; and the entry and the reply carry the
  id the request came with, or else a new one.
\<close>

theorem webhook_request_accounted:
  assumes "webhook_NewRouter rand_Read constructEvent pattern deps q st = (reply, st')" and "wdRedis deps = Some redis"
  shows "\<exists>a. wpAnswer reply = Some a \<and>
    (case wqRoute q of
       WMetrics \<Rightarrow> a = MetricsText \<and> webhook_status a = 200 \<and> rsService st' = rsService st
     | WHealth \<Rightarrow> a = HealthOK \<and> webhook_status a = 200 \<and> rsService st' = rsService st
     | WStripe r \<Rightarrow> (a, rsService st') =
         apfst StripeReply (Webhook_ServeHTTP (deps_env constructEvent deps redis) (wdHandler deps) r (rsService st))
     | WUnmatched status \<Rightarrow> a = NoRoute status \<and> webhook_status a = status \<and> rsService st' = rsService st) \<and>
    wpRequestID reply = (if wqRequestID q = [] then fst (NewRequestID rand_Read (rsRandom st)) else wqRequestID q) \<and>
    rsLog st' = rsLog st @
      [\<lparr>aeRequestID = wpRequestID reply, aeMethod = wqMethod q, aePath = wqPath q, aeStatus = webhook_status a\<rparr>] \<and>
    request_counts (msCalls (rsMetrics st')) = request_counts (msCalls (rsMetrics st)) @
      [(wqMethod q, normalizePath (Some (pattern (wqRoute q))) (wqPath q), nat_text (webhook_status a))] \<and>
    in_flight me (msCalls (rsMetrics st')) = in_flight me (msCalls (rsMetrics st))"
proof -
  note parts = webhook_NewRouter_parts [OF assms(1)]
  obtain a where a: "wpAnswer reply = Some a"
    using parts(2) [symmetric] assms(2)
    by (cases "wqRoute q") (auto simp: webhook_routes_def stripe_endpoint_def apfst_parts)
  moreover have "case wqRoute q of
       WMetrics \<Rightarrow> a = MetricsText \<and> webhook_status a = 200 \<and> rsService st' = rsService st
     | WHealth \<Rightarrow> a = HealthOK \<and> webhook_status a = 200 \<and> rsService st' = rsService st
     | WStripe r \<Rightarrow> (a, rsService st') =
         apfst StripeReply (Webhook_ServeHTTP (deps_env constructEvent deps redis) (wdHandler deps) r (rsService st))
     | WUnmatched status \<Rightarrow> a = NoRoute status \<and> webhook_status a = status \<and> rsService st' = rsService st"
    using parts(2) [symmetric] assms(2)
    by (cases "wqRoute q") (auto simp: a webhook_routes_def stripe_endpoint_def apfst_parts webhook_status_def)
  ultimately show ?thesis using parts by (intro exI [of _ a]) simp
qed

section \<open>Started without a Redis address\<close>

lemma boots_webhook_serve:
  assumes "answers (woDial E (wcOrchestratorAddr cfg)) (Inr client)"
  shows "boots (webhook_serve E [] cfg redis) tr Serving (((tr @ [Acquire (OrchestratorConn (wcOrchestratorAddr cfg))]) @
    [Acquire Signals]) @ [ServeHTTP (webhook_server cfg)
      \<lparr>wdRedis = redis, wdOrchestrator = client, wdHandler = boot_webhook cfg\<rparr>])"
  unfolding webhook_serve_def [abs_def]
  by (intro boots_client [where dial = "woDial E", OF assms] boots_acquire [OF answers_unit] boots_serving boots_emit)
    (simp only: await_http_program boots_end)

lemma no_redis_panics:
  assumes "wdRedis deps = None" and "check_delivery constructEvent (wdHandler deps) r = Inr pe" and "wqRoute q = WStripe r"
    and "webhook_NewRouter rand_Read constructEvent pattern deps q st = (reply, st')"
  shows "wpAnswer reply = None \<and> rsService st' = rsService st \<and> rsLog st' = rsLog st \<and>
    request_counts (msCalls (rsMetrics st')) = request_counts (msCalls (rsMetrics st))"
proof -
  have "wpAnswer reply = None" "rsService st' = rsService st"
    using webhook_NewRouter_parts(2) [OF assms(4)] assms(1-3) by (auto simp: webhook_routes_def stripe_endpoint_def)
  then show ?thesis using webhook_NewRouter_parts(3,4) [OF assms(4)] by simp
qed

text \<open>
  C28: a webhook service without Redis. With an empty Redis address the service starts and serves; but
  every delivery that is verified and supported ends in a panic, again at every redelivery: nothing is
  forwarded to the orchestrator, and neither the access log nor the request counter shows it.
\<close>

theorem webhook_without_redis:
  assumes "webhook_Load (woReadFile E) (woUnmarshal E) cfgFile = Inr cfg" and "wcRedisAddr cfg = []"
    and "answers (NewLogger (woZap E) (wcEnv cfg) (wcLogLevel cfg)) (Inr ())"
    and "answers (woDial E (wcOrchestratorAddr cfg)) (Inr client)"
    and "check_delivery constructEvent (boot_webhook cfg) r = Inr pe" and "wqRoute q = WStripe r"
  shows "\<exists>p deps. webhook_main_run E [] cfgFile (fresh w) = (Serving, p) \<and>
    ServeHTTP (webhook_server cfg) deps \<in> set (prTrace p) \<and>
    (case webhook_NewRouter rand_Read constructEvent pattern deps q st of (reply, st') \<Rightarrow>
       wpAnswer reply = None \<and> rsService st' = rsService st \<and> rsLog st' = rsLog st \<and>
       request_counts (msCalls (rsMetrics st')) = request_counts (msCalls (rsMetrics st)))"
proof -
  let ?deps = "\<lparr>wdRedis = None, wdOrchestrator = client, wdHandler = boot_webhook cfg\<rparr>"
  have "boots (webhook_main_run E [] cfgFile) [] Serving (((([] @ [Acquire Logger]) @
      [Acquire (OrchestratorConn (wcOrchestratorAddr cfg))]) @ [Acquire Signals]) @ [ServeHTTP (webhook_server cfg) ?deps])"
    unfolding webhook_main_run_def [abs_def] assms(1,2) sum.case
    by (intro boots_acquire [OF assms(3)] boots_serving) (use boots_webhook_serve [OF assms(4), of None "[Acquire Logger]"] in simp)
  from boots_fresh [OF this, of w] obtain p where p: "webhook_main_run E [] cfgFile (fresh w) = (Serving, p)"
    "ServeHTTP (webhook_server cfg) ?deps \<in> set (prTrace p)" by auto
  obtain reply st' where run: "webhook_NewRouter rand_Read constructEvent pattern ?deps q st = (reply, st')"
    by (metis prod.collapse)
  have "wpAnswer reply = None \<and> rsService st' = rsService st \<and> rsLog st' = rsLog st \<and>
       request_counts (msCalls (rsMetrics st')) = request_counts (msCalls (rsMetrics st))"
    by (rule no_redis_panics [OF _ _ assms(6) run]) (simp_all add: assms(5))
  then show ?thesis using p run by (intro exI [of _ p] exI [of _ ?deps]) simp
qed

section \<open>Examples\<close>

definition demo_construct :: "string \<Rightarrow> string \<Rightarrow> string \<Rightarrow> stripe_event result" where
  "demo_construct payload sig secret = (if sig = ''good'' then Inr demo_event else Inl (ErrText ''bad''))"

definition demo_rand :: "nat \<Rightarrow> nat \<Rightarrow> int list \<times> nat" where
  "demo_rand n r = (replicate n (int (r mod 256)), r + 1)"

definition demo_router_state :: "(nat, unit, unit) router_state" where
  "demo_router_state = \<lparr>rsRandom = 7, rsLog = [], rsMetrics = \<lparr>msCache = [], msCalls = []\<rparr>,
     rsService = demo_webhook_state ()\<rparr>"

definition demo_post_event :: "string \<Rightarrow> webhook_request" where
  "demo_post_event i = \<lparr>wqMethod = ''POST'', wqPath = ''/v1/webhooks/stripe'', wqRequestID = i,
     wqRoute = WStripe (demo_delivery ''good'')\<rparr>"

theorem webhook_request_accounted_witness:
  "map aeRequestID (rsLog (snd (webhook_NewRouter demo_rand demo_construct (\<lambda>_. ''/v1/webhooks/stripe'')
     \<lparr>wdRedis = Some demo_redis, wdOrchestrator = failing_peer, wdHandler = demo_handler\<rparr> (demo_post_event ''id-1'')
     demo_router_state))) = [''id-1'']"
proof -
  let ?deps = "\<lparr>wdRedis = Some demo_redis, wdOrchestrator = failing_peer, wdHandler = demo_handler\<rparr>"
  obtain reply st' where run: "webhook_NewRouter demo_rand demo_construct (\<lambda>_. ''/v1/webhooks/stripe'') ?deps
      (demo_post_event ''id-1'') demo_router_state = (reply, st')" by (metis prod.collapse)
  have "wdRedis ?deps = Some demo_redis" by simp
  from webhook_request_accounted [OF run this, of "''POST''"] show ?thesis unfolding run
    by (elim exE conjE) (simp_all add: demo_post_event_def demo_router_state_def)
qed

definition demo_webhook_outside :: "(unit, unit, update_request \<Rightarrow> unit \<Rightarrow> bool result \<times> unit) webhook_outside" where
  "demo_webhook_outside =
     \<lparr>woZap = demo_zap, woReadFile = (\<lambda>path. Inr []), woUnmarshal = (\<lambda>text cfg. Inr cfg),
      woRedis = (\<lambda>addr password w. (Inr demo_redis, w)), woDial = (\<lambda>addr w. (Inr failing_peer, w)),
      woShutdown = (\<lambda>w. (Inr (), w))\<rparr>"

theorem webhook_without_redis_witness:
  "\<exists>p. webhook_main_run demo_webhook_outside [] ''config.yaml'' (fresh ()) = (Serving, p)"
proof -
  have "webhook_Load (woReadFile demo_webhook_outside) (woUnmarshal demo_webhook_outside) ''config.yaml'' = Inr webhook_defaults"
    by (simp add: webhook_Load_def load_config_def demo_webhook_outside_def)
  moreover have "wcRedisAddr webhook_defaults = []" by (simp add: webhook_defaults_def)
  moreover have "answers (NewLogger (woZap demo_webhook_outside) (wcEnv webhook_defaults) (wcLogLevel webhook_defaults)) (Inr ())"
    using demo_logger by (simp add: demo_webhook_outside_def webhook_defaults_def)
  moreover have "answers (woDial demo_webhook_outside (wcOrchestratorAddr webhook_defaults)) (Inr failing_peer)"
    by (simp add: answers_def demo_webhook_outside_def)
  moreover obtain pe where "check_delivery demo_construct (boot_webhook webhook_defaults) (demo_delivery ''good'') = Inr pe"
    by (simp add: check_delivery_def demo_delivery_def demo_construct_def demo_parse)
  moreover have "wqRoute (demo_post_event i) = WStripe (demo_delivery ''good'')" for i by (simp add: demo_post_event_def)
  ultimately show ?thesis
    using webhook_without_redis [where q = "demo_post_event ''id-1''" and w = "()" and rand_Read = demo_rand
        and pattern = "\<lambda>_. ''/v1/webhooks/stripe''" and st = demo_router_state] by blast
qed

end
