(* ===== verification/Lifecycle.thy ===== *)
theory Lifecycle
  imports ApiFacts WebhookFacts
begin

text \<open>
  The life of a payout across the three services: it is posted to the API, the orchestrator sends it,
  Stripe reports its end to the webhook service, and the API tells it. The connections deliver.
\<close>

text \<open>A GET depends on its payout only.\<close>

lemma get_same:
  assumes "reliable (sePg V)" and "seParse V (seString V u) = Some u" "seString V u \<noteq> []"
    and "store_of (ssPg s) u = store_of (ssPg s') u"
  shows "fst (getPayoutHandler (orchestrator_client V srv) (seString V u) s) =
    fst (getPayoutHandler (orchestrator_client V srv) (seString V u) s')"
proof -
  have "fst (Service_GetPayout V (seString V u) s) = fst (Service_GetPayout V (seString V u) s')"
    using GetPayout_reliable [OF assms(1,3,2), of s] GetPayout_reliable [OF assms(1,3,2), of s'] assms(4) by simp
  then show ?thesis
    by (cases "Service_GetPayout V (seString V u) s"; cases "Service_GetPayout V (seString V u) s'")
      (auto simp: getPayoutHandler_def orchestrator_client_def split: sum.split option.split grpc_code.split)
qed

text \<open>
  C13: the life of a payout. A well-formed POST with a new key is accepted: the orchestrator asks the
  providers about a new payout \<open>p0\<close> with what was posted, and if the database takes the outcome
  (\<open>recordable\<close>), a GET of the id that was answered reports it as sent or failed, with the provider that
  took it (or was tried last) and, where it was sent, the reference that this provider gave; if not, it
  reports the payout as created, without either. When Stripe then reports on a payment with that
  reference, in a signed event that is new, the webhook service acknowledges it, and a GET reports the
  same payout as completed, failed or canceled, as the event says, and no other payout's GET changes.
\<close>

theorem payout_lifecycle:
  assumes "reliable (sePg V)" and "tables_ok (ssPg s)" and "storable (sePg V) (post_request key b) (ssPg s)"
    and "decode_create_body v = Some b" and "cbRail b \<noteq> []"
    and uuid: "\<And>u. seParse V (seString V u) = Some u" "\<And>u. seString V u \<noteq> []"
    and peer: "weApplyProviderUpdate W = orchestrator_peer V"
    and event: "accepted W h r = Some pe" "fst (IsProcessed (weRedis W) (whTTL h) (peEventID pe) rd) = Inr False"
  shows "\<exists>p0. let client = orchestrator_client V (Some orc);
      (resp, s1) = createPayoutHandler client key (Some v) s;
      (ack, s2) = Webhook_ServeHTTP W h r \<lparr>wsRedis = rd, wsOrch = s1\<rparr>;
      (result, o1) = SendPayoutWithFallback (seRails V) orc p0 (ssOrch s);
      sent = (recordable result (ssPg s) \<and> srSuccess result);
      i = seString V (pID p0);
      st = (if sent then ''sent'' else if recordable result (ssPg s) then ''failed'' else ''created'');
      prov = (if recordable result (ssPg s) then reported_provider result else []);
      ext = (if sent then srExternalID result else [])
    in pAmountCents p0 = cbAmount b \<and> pCurrency p0 = cbCurrency b \<and> pRail p0 = cbRail b \<and>
      store_of (ssPg s) (pID p0) = None \<and> ssOrch s1 = o1 \<and>
      resp = \<lparr>apStatus = 202, apBody = CreatedBody i st\<rparr> \<and>
      fst (getPayoutHandler client i s1) =
        \<lparr>apStatus = 200, apBody = PayoutBody i st (cbAmount b) (cbCurrency b) (cbRail b) prov ext\<rparr> \<and>
      (sent \<and> peExternalID pe = srExternalID result \<longrightarrow> ack = writeOK \<and>
        fst (getPayoutHandler client i (wsOrch s2)) = \<lparr>apStatus = 200, apBody = PayoutBody i (reported_state (peType pe))
          (cbAmount b) (cbCurrency b) (cbRail b) (srUsedProvider result) (srExternalID result)\<rparr> \<and>
        (\<forall>u. seString V u \<noteq> i \<longrightarrow>
           fst (getPayoutHandler client (seString V u) (wsOrch s2)) = fst (getPayoutHandler client (seString V u) s1)))"
proof -
  let ?client = "orchestrator_client V (Some orc)" and ?fb = "\<lambda>p0. SendPayoutWithFallback (seRails V) orc p0 (ssOrch s)"
  obtain p0 p s1 where post: "createPayoutHandler ?client key (Some v) s =
      (\<lparr>apStatus = 202, apBody = CreatedBody (seString V (pID p0)) (pState p)\<rparr>, s1)"
    and new: "store_of (ssPg s) (pID p0) = None" and p: "store_of (ssPg s1) (pID p0) = Some p" and ok: "tables_ok (ssPg s1)"
    and o1: "ssOrch s1 = snd (?fb p0)" and created: "pState p0 = ''created''"
    and fields: "pAmountCents p0 = cbAmount b" "pCurrency p0 = cbCurrency b" "pRail p0 = cbRail b"
    and none: "pProvider p0 = []" "pExternalID p0 = None"
    and stored: "if recordable (fst (?fb p0)) (ssPg s)
         then \<exists>t. p = p0\<lparr>pState := (if srSuccess (fst (?fb p0)) then ''sent'' else ''failed''),
                pProvider := reported_provider (fst (?fb p0)),
                pExternalID := (if srSuccess (fst (?fb p0)) then Some (srExternalID (fst (?fb p0))) else None), pUpdatedAt := t\<rparr>
         else p = p0"
    by (rule post_sent [OF assms(1-5), of orc "\<lambda>p0. fst (?fb p0)" "\<lambda>p0. snd (?fb p0)"]) simp_all
  obtain result o1' where fb: "?fb p0 = (result, o1')" by (metis prod.collapse)
  obtain ack s2 where hook: "Webhook_ServeHTTP W h r \<lparr>wsRedis = rd, wsOrch = s1\<rparr> = (ack, s2)" by (metis prod.collapse)
  let ?i = "seString V (pID p0)" and ?sent = "recordable result (ssPg s) \<and> srSuccess result"
  have pf: "pAmountCents p = cbAmount b" "pCurrency p = cbCurrency b" "pRail p = cbRail b"
    "pState p = (if ?sent then ''sent'' else if recordable result (ssPg s) then ''failed'' else ''created'')"
    "pProvider p = (if recordable result (ssPg s) then reported_provider result else [])"
    "pExternalID p = (if ?sent then Some (srExternalID result) else None)"
    using stored fields none created by (auto simp: fb split: if_splits)
  have "ack = writeOK \<and> fst (getPayoutHandler ?client ?i (wsOrch s2)) =
      \<lparr>apStatus = 200, apBody = PayoutBody ?i (reported_state (peType pe)) (cbAmount b) (cbCurrency b) (cbRail b)
         (srUsedProvider result) (srExternalID result)\<rparr> \<and>
      (\<forall>u. seString V u \<noteq> ?i \<longrightarrow>
         fst (getPayoutHandler ?client (seString V u) (wsOrch s2)) = fst (getPayoutHandler ?client (seString V u) s1))"
    if sent: ?sent and "peExternalID pe = srExternalID result"
  proof -
    have ext: "pExternalID p = Some (peExternalID pe)" using that pf(6) by simp
    have prov: "pProvider p = srUsedProvider result" using sent pf(5) by (simp add: reported_provider_def)
    obtain t where "ack = writeOK"
      and "store_of (ssPg (wsOrch s2)) = (store_of (ssPg s1))(pID p0 \<mapsto> p\<lparr>pState := reported_state (peType pe), pUpdatedAt := t\<rparr>)"
      by (rule webhook_applies [OF assms(1) _ peer event(1), of "\<lparr>wsRedis = rd, wsOrch = s1\<rparr>" "pID p0" p])
        (use ok event(2) p ext hook in auto)
    moreover from this have "fst (getPayoutHandler ?client (seString V u) (wsOrch s2)) = fst (getPayoutHandler ?client (seString V u) s1)"
      if "seString V u \<noteq> ?i" for u
      using that by (intro get_same [OF assms(1) uuid]) auto
    ultimately show ?thesis using get_stored [OF assms(1) _ uuid, of "wsOrch s2" "pID p0" _ "Some orc"] pf(1-3) ext prov that by simp
  qed
  then show ?thesis
    using post hook get_stored [OF assms(1) p uuid, of "Some orc"] pf fields new o1 fb
    by (intro exI [of _ p0]) (simp add: Let_def split: if_split)
qed

text \<open>The payout of the example: Stripe calls its payment ext-1.\<close>

theorem payout_lifecycle_witness:
  "let client = orchestrator_client demo_text (Some demo_stripe);
      (resp, s1) = createPayoutHandler client ''k'' (Some demo_body) demo_empty;
      (ack, s2) = Webhook_ServeHTTP (demo_webhook (orchestrator_peer demo_text)) demo_handler (demo_delivery ''good'')
        (demo_webhook_state s1)
    in \<exists>i. resp = \<lparr>apStatus = 202, apBody = CreatedBody i ''sent''\<rparr> \<and> ack = writeOK \<and>
      fst (getPayoutHandler client i (wsOrch s2)) =
        \<lparr>apStatus = 200, apBody = PayoutBody i ''completed'' 100 ''USD'' ''card'' ''stripe'' ''ext-1''\<rparr>"
proof -
  let ?b = "\<lparr>cbAmount = 100, cbCurrency = ''USD'', cbRail = ''card''\<rparr>"
  have rails: "seRails demo_text = demo_rails" "ssOrch demo_empty = demo_orch_state"
    by (simp_all add: demo_text_def demo_service_def demo_empty_def)
  have rel: "reliable (sePg demo_text)" using demo_reliable by (simp add: demo_text_def)
  have stor: "storable (sePg demo_text) (post_request ''k'' ?b) (ssPg demo_empty)"
    by (simp add: storable_def post_request_def canonicalHash_nonempty demo_empty_def db_rails_def)
  have uuid: "seParse demo_text (seString demo_text u) = Some u" "seString demo_text u \<noteq> []" for u
    by (simp_all add: demo_text_def)
  have peer: "weApplyProviderUpdate (demo_webhook (orchestrator_peer demo_text)) = orchestrator_peer demo_text"
    by (simp add: demo_webhook_def)
  have rail: "cbRail ?b \<noteq> []" by simp
  note life = payout_lifecycle [OF rel demo_empty_ok stor demo_decode rail uuid peer demo_accepted demo_new [of "orchestrator_peer demo_text" _ demo_empty], of demo_stripe]
  show ?thesis
    unfolding Let_def split_beta rails
  proof (rule exE [OF life [unfolded Let_def split_beta rails]], elim conjE, goal_cases)
    case (1 p0)
    note sent = demo_stripe_sends [OF 1(3) [simplified]]
    then have "recordable (fst (SendPayoutWithFallback demo_rails demo_stripe p0 demo_orch_state)) (ssPg demo_empty)"
      by (simp add: recordable_def reported_provider_def db_providers_def demo_empty_def)
    then show ?case using 1(6,8) sent by (simp add: reported_state_def demo_webhook_state_def)
  qed
qed

end
