(* ===== verification/ApiRouter.thy ===== *)
theory ApiRouter
  imports RequestIds HttpMetrics
begin

text \<open>
  The whole chain of the API's router (\<open>internal/http/router.go\<close>): request ids and the access log around
  the metrics, the limiter and the endpoints; and the contexts in which the endpoints call the
  orchestrator. The id itself is chi's, from the request's header or a new one, and a parameter.
\<close>

section \<open>Calls in a context\<close>

text \<open>
  The client as a handler calls it: in its request's context \<open>base\<close>, to which it has given the request
  id. The state remembers the context of every call.
\<close>

definition calling_in :: "'c \<Rightarrow> ('i \<Rightarrow> 'o \<Rightarrow> 'a \<times> 'o) \<Rightarrow> 'i \<Rightarrow> 'o \<times> 'c list \<Rightarrow> 'a \<times> ('o \<times> 'c list)" where
  "calling_in ctx rpc req st = (case st of (s, calls) \<Rightarrow> case rpc req s of (a, s') \<Rightarrow> (a, (s', calls @ [ctx])))"

definition with_request_id ::
    "('c, 'm) metadata_lib \<Rightarrow> 'c \<Rightarrow> string \<Rightarrow> 'o payout_client \<Rightarrow> ('o \<times> 'c list) payout_client" where
  "with_request_id L base requestID client =
     (let ctx = SetRequestID L base requestID in
      \<lparr>pcCreatePayout = calling_in ctx (pcCreatePayout client), pcGetPayout = calling_in ctx (pcGetPayout client),
       pcCancelPayout = calling_in ctx (pcCancelPayout client)\<rparr>)"

text \<open>The header \<open>X-Request-Id\<close> of an answer: the endpoints set it when they succeed, \<open>writeError\<close> does not.\<close>

definition request_id_header :: "string \<Rightarrow> api_answer limited \<Rightarrow> string option" where
  "request_id_header requestID a =
     (case a of
        Served (Payout resp) \<Rightarrow> (case apBody resp of ErrorBody code m \<Rightarrow> None | _ \<Rightarrow> Some requestID)
      | _ \<Rightarrow> None)"

section \<open>The chain\<close>

record api_request =
  aqMethod :: string
  aqPath :: string
  aqRemoteAddr :: string
  aqUserAgent :: string
  aqRequestID :: string
  aqRoute :: api_route

record api_log_entry =
  leRequestID :: string
  leMethod :: string
  lePath :: string
  leRemoteAddr :: string
  leUserAgent :: string
  leStatus :: nat

text \<open>\<open>accessLog\<close>: one entry after the handler. (Bytes and duration are left out.)\<close>

definition api_accessLog ::
    "string \<Rightarrow> api_request \<Rightarrow> ('a \<Rightarrow> nat) \<Rightarrow> ('s \<Rightarrow> 'a \<times> 's) \<Rightarrow> api_log_entry list \<times> 's \<Rightarrow> 'a \<times> (api_log_entry list \<times> 's)" where
  "api_accessLog requestID q status_of nxt st =
     (case st of (entries, s) \<Rightarrow>
      case nxt s of (a, s') \<Rightarrow>
        (a, (entries @ [\<lparr>leRequestID = requestID, leMethod = aqMethod q, lePath = aqPath q,
               leRemoteAddr = aqRemoteAddr q, leUserAgent = aqUserAgent q, leStatus = status_of a\<rparr>], s')))"

record ('g, 'w, 'o, 'c) api_state =
  asIds :: 'g
  asLog :: "api_log_entry list"
  asMetrics :: metrics_state
  asLimiter :: "'w limiter_state"
  asOrch :: "'o \<times> 'c list"

record api_reply =
  arRequestID :: "string option"
  arAnswer :: "api_answer limited"

text \<open>
  \<open>NewRouterWithClient\<close> with everything it uses; \<open>chi_RequestID\<close> gives the id of a request from its
  header. No handler here panics, so that the Recoverer has nothing to do.
\<close>

definition api_chain ::
    "(string \<Rightarrow> 'g \<Rightarrow> string \<times> 'g) \<Rightarrow> ('c, 'm) metadata_lib \<Rightarrow> 'c \<Rightarrow> (api_route option \<Rightarrow> string) \<Rightarrow> 'o payout_client \<Rightarrow>
     'w redis_env option \<Rightarrow> api_config \<Rightarrow> int \<Rightarrow> api_request \<Rightarrow> ('g, 'w, 'o, 'c) api_state \<Rightarrow>
     api_reply \<times> ('g, 'w, 'o, 'c) api_state" where
  "api_chain chi_RequestID L base chi_pattern client redis cfg now q st =
     (case chi_RequestID (aqRequestID q) (asIds st) of (i, ids) \<Rightarrow>
      case api_accessLog i q answer_status
          (api_metered chi_pattern (with_request_id L base i client) redis cfg now (aqMethod q) (aqPath q) (aqRoute q))
          (asLog st, (asMetrics st, (asLimiter st, asOrch st))) of
        (a, (entries, (m, (l, o1)))) \<Rightarrow>
          (\<lparr>arRequestID = request_id_header i a, arAnswer = a\<rparr>,
           \<lparr>asIds = ids, asLog = entries, asMetrics = m, asLimiter = l, asOrch = o1\<rparr>))"

section \<open>Where the id goes\<close>

text \<open>
  Two ways of serving a request agree, the second with a list of contexts beside its state: the same
  answer, the same state, and at most one call more, in a given context; a success comes from a call.
\<close>

definition called_in :: "'c \<Rightarrow> api_answer \<times> 'o \<Rightarrow> api_answer \<times> ('o \<times> 'c list) \<Rightarrow> 'c list \<Rightarrow> bool" where
  "called_in ctx plain traced calls \<longleftrightarrow>
     fst traced = fst plain \<and> fst (snd traced) = snd plain \<and>
     (\<exists>cs. snd (snd traced) = calls @ cs \<and> cs \<in> {[], [ctx]} \<and> (request_id_header [] (Served (fst plain)) \<noteq> None \<longrightarrow> cs = [ctx]))"

lemma dispatch_called:
  "called_in (SetRequestID L base i) (api_dispatch client route s)
     (api_dispatch (with_request_id L base i client) route (s, calls)) calls"
proof (cases route)
  case (RCreate key body)
  then show ?thesis
    by (cases "Option.bind body decode_create_body")
      (auto simp: api_dispatch_def createPayoutHandler_def with_request_id_def called_in_def calling_in_def writeError_def
        request_id_header_def Let_def split: prod.split sum.split option.split grpc_code.split)
next
  case (RGet payout_id)
  then show ?thesis
    by (auto simp: api_dispatch_def getPayoutHandler_def with_request_id_def called_in_def calling_in_def writeError_def
        request_id_header_def Let_def split: prod.split sum.split option.split grpc_code.split)
next
  case (RCancel payout_id)
  then show ?thesis
    by (auto simp: api_dispatch_def cancelPayoutHandler_def with_request_id_def called_in_def calling_in_def writeError_def
        request_id_header_def Let_def split: prod.split sum.split option.split grpc_code.split)
qed (simp_all add: api_dispatch_def called_in_def request_id_header_def)

text \<open>Errors are the answers from 400 on.\<close>

lemma dispatch_status:
  "request_id_header i (Served (fst (api_dispatch client route s))) =
     (case fst (api_dispatch client route s) of Payout resp \<Rightarrow> if apStatus resp < 400 then Some i else None | _ \<Rightarrow> None)"
proof (cases route)
  case (RCreate key body)
  then show ?thesis
    by (cases "Option.bind body decode_create_body")
      (auto simp: api_dispatch_def createPayoutHandler_def writeError_def request_id_header_def
        split: prod.split sum.split option.split grpc_code.split)
qed (auto simp: api_dispatch_def getPayoutHandler_def cancelPayoutHandler_def writeError_def request_id_header_def
      split: prod.split sum.split option.split grpc_code.split)

lemma limited_called:
  assumes "NewRouterWithClient (with_request_id L base i client) redis cfg now route (l, (s, calls)) = (a, (l', (s', calls')))"
  shows "NewRouterWithClient client redis cfg now route (l, s) = (a, (l', s'))"
    and "\<exists>cs. calls' = calls @ cs \<and> cs \<in> {[], [SetRequestID L base i]} \<and> (refused a \<longrightarrow> cs = []) \<and>
      (request_id_header i a \<noteq> None \<longrightarrow> cs = [SetRequestID L base i])"
    and "request_id_header i a =
      (case a of Served (Payout resp) \<Rightarrow> if apStatus resp < 400 then Some i else None | _ \<Rightarrow> None)"
proof -
  let ?p = "api_dispatch client route s" and ?t = "api_dispatch (with_request_id L base i client) route (s, calls)"
  have d: "fst ?t = fst ?p" "fst (snd ?t) = snd ?p" and
    "\<exists>cs. snd (snd ?t) = calls @ cs \<and> cs \<in> {[], [SetRequestID L base i]} \<and>
      (request_id_header [] (Served (fst ?p)) \<noteq> None \<longrightarrow> cs = [SetRequestID L base i])"
    using dispatch_called [of L base i client route s calls] by (auto simp: called_in_def)
  moreover have "request_id_header [] b \<noteq> None \<longleftrightarrow> request_id_header i b \<noteq> None" for b
    by (auto simp: request_id_header_def split: limited.split api_answer.split api_body.split)
  ultimately have cs: "\<exists>cs. snd (snd ?t) = calls @ cs \<and> cs \<in> {[], [SetRequestID L base i]} \<and>
      (request_id_header i (Served (fst ?p)) \<noteq> None \<longrightarrow> cs = [SetRequestID L base i])" by simp
  have "(a = Served (fst ?p) \<and> s' = snd ?p \<and> calls' = snd (snd ?t) \<or> refused a \<and> calls' = calls) \<and>
      NewRouterWithClient client redis cfg now route (l, s) = (a, (l', s'))"
    using assms d
    by (auto simp: NewRouterWithClient_def RateLimitWithConfig_def Let_def split: prod.splits option.splits sum.splits if_splits)
  moreover have "request_id_header i a = None" if "refused a"
    using that by (auto simp: request_id_header_def refused_def split: limited.splits)
  ultimately show "NewRouterWithClient client redis cfg now route (l, s) = (a, (l', s'))"
    and "\<exists>cs. calls' = calls @ cs \<and> cs \<in> {[], [SetRequestID L base i]} \<and> (refused a \<longrightarrow> cs = []) \<and>
      (request_id_header i a \<noteq> None \<longrightarrow> cs = [SetRequestID L base i])"
    and "request_id_header i a =
      (case a of Served (Payout resp) \<Rightarrow> if apStatus resp < 400 then Some i else None | _ \<Rightarrow> None)"
    using cs dispatch_status [of i client route s] by (auto simp: refused_def split: limited.splits)
qed

text \<open>A request is refused by the limiter or answered by its route.\<close>

lemma limited_route:
  assumes "NewRouterWithClient client redis cfg now route (l, s) = (a, (l', s'))"
  shows "(a = TooManyRequests 1 \<and> answer_status a = 429 \<or>
     (case route of
        RMetrics \<Rightarrow> a = Served Metrics \<and> answer_status a = 200
      | RHealth \<Rightarrow> a = Served Healthy \<and> answer_status a = 200
      | RCreate key body \<Rightarrow> a = Served (Payout (fst (createPayoutHandler client key body s)))
      | RGet payout_id \<Rightarrow> a = Served (Payout (fst (getPayoutHandler client payout_id s)))
      | RCancel payout_id \<Rightarrow> a = Served (Payout (fst (cancelPayoutHandler client payout_id s)))
      | RUnmatched status \<Rightarrow> a = Served (RouteNotFound status) \<and> answer_status a = status))"
proof -
  have "a = TooManyRequests 1 \<or> a = Served (fst (api_dispatch client route s))"
    using assms
    by (auto simp: NewRouterWithClient_def RateLimitWithConfig_def Let_def split: prod.splits option.splits sum.splits if_splits)
  then show ?thesis
    by (cases route) (auto simp: api_dispatch_def answer_status_def apfst_def map_prod_def split_beta)
qed

text \<open>
  C30: what the API answers, and what it does around its endpoints. A request is refused with 429 where
  the limiter says so, and otherwise answered by its endpoint: \<open>/metrics\<close> and \<open>/health\<close> with 200, a request
  without a route with the status of chi, the others by the three payout handlers. It leaves one entry in
  the access log, with the id that chi gave it and the status of its answer, refused or not. At most one
  call goes to the orchestrator, none for a refused request, and the orchestrator reads the same id from
  the call's metadata if the id is text that metadata can carry. A success of a payout endpoint carries the
  id, and comes from such a call; its errors, \<open>/metrics\<close>, \<open>/health\<close> and refusals do not carry it.
\<close>

theorem api_request_accounted:
  assumes "api_chain chi_RequestID L base chi_pattern client redis cfg now q st = (reply, st')"
    and "carries L call sent" and "sent base = []" and "chi_pattern None = []"
  shows "let i = fst (chi_RequestID (aqRequestID q) (asIds st)); a = arAnswer reply in
    NewRouterWithClient client redis cfg now (aqRoute q) (asLimiter st, fst (asOrch st)) = (a, (asLimiter st', fst (asOrch st'))) \<and>
    (a = TooManyRequests 1 \<and> answer_status a = 429 \<or>
     (case aqRoute q of
        RMetrics \<Rightarrow> a = Served Metrics \<and> answer_status a = 200
      | RHealth \<Rightarrow> a = Served Healthy \<and> answer_status a = 200
      | RCreate key body \<Rightarrow> a = Served (Payout (fst (createPayoutHandler client key body (fst (asOrch st)))))
      | RGet payout_id \<Rightarrow> a = Served (Payout (fst (getPayoutHandler client payout_id (fst (asOrch st)))))
      | RCancel payout_id \<Rightarrow> a = Served (Payout (fst (cancelPayoutHandler client payout_id (fst (asOrch st)))))
      | RUnmatched status \<Rightarrow> a = Served (RouteNotFound status) \<and> answer_status a = status)) \<and>
    asLog st' = asLog st @ [\<lparr>leRequestID = i, leMethod = aqMethod q, lePath = aqPath q, leRemoteAddr = aqRemoteAddr q,
      leUserAgent = aqUserAgent q, leStatus = answer_status a\<rparr>] \<and>
    request_counts (msCalls (asMetrics st')) = request_counts (msCalls (asMetrics st)) @
      counted chi_pattern (aqMethod q) (aqPath q) (aqRoute q) a \<and>
    (\<exists>cs. snd (asOrch st') = snd (asOrch st) @ cs \<and> length cs \<le> 1 \<and>
      (plain_value i \<longrightarrow> (\<forall>c \<in> set cs. GetRequestID L (call c) = i)) \<and>
      (refused a \<longrightarrow> cs = []) \<and>
      arRequestID reply = (case a of Served (Payout resp) \<Rightarrow> if apStatus resp < 400 then Some i else None | _ \<Rightarrow> None) \<and>
      (arRequestID reply = Some i \<longrightarrow> length cs = 1))"
proof -
  obtain i ids where i: "chi_RequestID (aqRequestID q) (asIds st) = (i, ids)" by (metis prod.collapse)
  obtain s calls where o1: "asOrch st = (s, calls)" by (metis prod.collapse)
  obtain a m l s' calls' where a: "api_metered chi_pattern (with_request_id L base i client) redis cfg now (aqMethod q)
      (aqPath q) (aqRoute q) (asMetrics st, (asLimiter st, (s, calls))) = (a, (m, (l, (s', calls'))))"
    by (metis prod.collapse)
  have reply: "arAnswer reply = a" "arRequestID reply = request_id_header i a"
    and st': "asMetrics st' = m" "asLimiter st' = l" "asOrch st' = (s', calls')"
      "asLog st' = asLog st @ [\<lparr>leRequestID = i, leMethod = aqMethod q, lePath = aqPath q, leRemoteAddr = aqRemoteAddr q,
        leUserAgent = aqUserAgent q, leStatus = answer_status a\<rparr>]"
    using assms(1) by (auto simp: api_chain_def api_accessLog_def i o1 a)
  note parts = limited_called [OF api_metered_same [OF a]]
  have arrives: "plain_value i \<Longrightarrow> GetRequestID L (call (SetRequestID L base i)) = i"
    by (rule request_id_arrives(1) [OF assms(2,3)])
  have "s = fst (asOrch st)" by (simp add: o1)
  note route = limited_route [OF parts(1), unfolded this]
  obtain cs where cs: "calls' = calls @ cs" "cs \<in> {[], [SetRequestID L base i]}" "refused a \<longrightarrow> cs = []"
    "request_id_header i a \<noteq> None \<longrightarrow> cs = [SetRequestID L base i]" using parts(2) by blast
  then have "length cs \<le> 1" "plain_value i \<longrightarrow> (\<forall>c \<in> set cs. GetRequestID L (call c) = i)"
    "request_id_header i a = Some i \<longrightarrow> length cs = 1"
    using arrives by auto
  with cs(1,3) show ?thesis
    using parts(1,3) route api_metered_counts [OF assms(4) a]
    by (simp add: Let_def i o1 reply st')
qed

text \<open>A GET with an id in its header.\<close>

definition demo_chi :: "string \<Rightarrow> nat \<Rightarrow> string \<times> nat" where
  "demo_chi header n = (if header = [] then (''host-1'', n + 1) else (header, n))"

definition demo_get :: api_request where
  "demo_get = \<lparr>aqMethod = ''GET'', aqPath = ''/v1/payouts/1'', aqRemoteAddr = ''10.0.0.1:5000'', aqUserAgent = ''curl'',
     aqRequestID = ''id-1'', aqRoute = RGet ''1''\<rparr>"

definition demo_api_state :: "(nat, unit, nat, (string \<times> string) list) api_state" where
  "demo_api_state = \<lparr>asIds = 0, asLog = [], asMetrics = \<lparr>msCache = [], msCalls = []\<rparr>, asLimiter = idle_limiter, asOrch = (0, [])\<rparr>"

theorem api_request_accounted_witness:
  "map leRequestID (asLog (snd (api_chain demo_chi plain_metadata [] demo_pattern counting_client (Some steady_redis)
     limited_config 0 demo_get demo_api_state))) = [''id-1'']"
proof -
  obtain reply st' where run: "api_chain demo_chi plain_metadata [] demo_pattern counting_client (Some steady_redis)
     limited_config 0 demo_get demo_api_state = (reply, st')" by (metis prod.collapse)
  from api_request_accounted [OF run plain_metadata_carries] show ?thesis
    unfolding run by (auto simp: Let_def demo_pattern_def demo_chi_def demo_get_def demo_api_state_def)
qed

end
