(* ===== verification/TrackerRuns.thy ===== *)
theory TrackerRuns
  imports Interleaving
begin

text \<open>
  The success tracker while requests overlap: what \<open>success_tracker.go\<close> holds after any interleaving of
  the handlers' steps, in terms of the provider calls that were made. A call and the entry of its answer
  are two steps, between which other requests may call providers and enter their answers.
\<close>

section \<open>Calls and their outcomes\<close>


text \<open>A call that was answered and is not in the tracker yet.\<close>

definition to_note :: "'c handler \<Rightarrow> (rail \<times> provider) option" where
  "to_note h =
     (case h of
        HCreate (CNote req payout p ps result res) \<Rightarrow> Some (pRail payout, mProvider (pwMeta p))
      | _ \<Rightarrow> None)"

text \<open>A handler that has an accepted payout to record, and the move that records it.\<close>

definition records_sent :: "'c handler \<Rightarrow> bool" where
  "records_sent h \<longleftrightarrow> (case h of HCreate (CRecord payout u dflt) \<Rightarrow> upState u = PayoutStateSent | _ \<Rightarrow> False)"


text \<open>Between two calls nothing has been accepted yet.\<close>

definition undecided :: "'c handler \<Rightarrow> bool" where
  "undecided h \<longleftrightarrow>
     (case h of
        HCreate (CTry req payout ps result) \<Rightarrow> \<not> srSuccess result
      | HCreate (CNote req payout p ps result res) \<Rightarrow> \<not> srSuccess result
      | _ \<Rightarrow> True)"

lemma undecided_simps [simp]:
  "undecided (HCreate (CTry req payout ps result)) \<longleftrightarrow> \<not> srSuccess result"
  "undecided (HCreate (CNote req payout p ps result res)) \<longleftrightarrow> \<not> srSuccess result"
  "undecided (HCreate (CRecord payout u dflt))" "undecided (HCreate (CDone ans))" "undecided (HCreate (CSend req payout))"
  "undecided (HCreate (CFetch i))" "undecided (HCancel xpc)" "undecided (HApply apc)" "undecided (HGot got)"
  by (simp_all add: undecided_def)

lemma records_sent_simps [simp]:
  "records_sent (HCreate (CRecord payout u dflt)) \<longleftrightarrow> upState u = PayoutStateSent"
  "\<not> records_sent (HCreate (CTry req payout ps result))" "\<not> records_sent (HCreate (CDone ans))"
  "\<not> records_sent (HCreate (CNote req payout p ps result res))"
  "\<not> records_sent (HCreate (CSend req payout))" "\<not> records_sent (HCreate (CFetch i))"
  "\<not> records_sent (HCreate (CBegin req))" "\<not> records_sent (HCancel xpc)" "\<not> records_sent (HApply apc)"
  "\<not> records_sent (HGot got)" "\<not> records_sent (HGet ref)"
  by (simp_all add: records_sent_def)

lemma to_note_simps [simp]:
  "to_note (HCreate (CNote req payout p ps result res)) = Some (pRail payout, mProvider (pwMeta p))"
  "to_note (HCreate (CTry req payout ps result)) = None" "to_note (HCreate (CDone ans)) = None"
  "to_note (HCreate (CRecord payout u dflt)) = None"
  "to_note (HCreate (CSend req payout)) = None" "to_note (HCreate (CFetch i)) = None"
  "to_note (HCreate (CBegin req)) = None" "to_note (HCancel xpc) = None" "to_note (HApply apc) = None"
  "to_note (HGot got) = None" "to_note (HGet ref) = None"
  by (simp_all add: to_note_def)

lemma result_update_sent [simp]: "upState (result_update result) = ''sent'' \<longleftrightarrow> srSuccess result"
  by (simp add: result_update_def)

lemma try_next_decides [simp]:
  "undecided (HCreate (try_next req payout ps result)) \<longleftrightarrow> ps = [] \<or> \<not> srSuccess result"
  "records_sent (HCreate (try_next req payout ps result)) \<longleftrightarrow> ps = [] \<and> srSuccess result"
  "to_note (HCreate (try_next req payout ps result)) = None"
  by (simp_all add: try_next_def)


section \<open>The tracker of a run\<close>


definition opt_mset :: "'a option \<Rightarrow> 'a multiset" where
  "opt_mset x = (case x of None \<Rightarrow> {#} | Some a \<Rightarrow> {#a#})"

lemma opt_mset_simps [simp]: "opt_mset None = {#}" "opt_mset (Some a) = {#a#}"
  by (simp_all add: opt_mset_def)

lemma map_filter_snoc [simp]: "mset (List.map_filter f (xs @ [x])) = mset (List.map_filter f xs) + opt_mset (f x)"
  by (cases "f x") (simp_all add: List.map_filter_def)










end
