(* ===== verification/CommandLine.thy ===== *)
theory CommandLine
  imports StartupFacts
begin

text \<open>
  The processes around the \<open>run\<close> functions: the \<open>main\<close> functions of the three services and the command
  lines of two of them. What cobra makes of the arguments is a parameter.
\<close>

section \<open>Commands\<close>

text \<open>
  A command as the code sets it up: with its flags (name, default, usage), those that are required, and
  what cobra is told not to print by itself.
\<close>

record cobra_command =
  ccUse :: string
  ccShort :: string
  ccSilenceUsage :: bool
  ccSilenceErrors :: bool
  ccFlags :: "(string \<times> string \<times> string) list"
  ccRequired :: "string list"

definition root_command :: "string \<Rightarrow> cobra_command" where
  "root_command name =
     \<lparr>ccUse = name, ccShort = [], ccSilenceUsage = True, ccSilenceErrors = True, ccFlags = [], ccRequired = []\<rparr>"

definition start_command :: "string \<Rightarrow> cobra_command" where
  "start_command short =
     \<lparr>ccUse = ''start'', ccShort = short, ccSilenceUsage = False, ccSilenceErrors = False,
      ccFlags = [(''config'', [], ''path to config file (required)'')], ccRequired = [''config'']\<rparr>"

definition orchestrator_newStartCmd :: cobra_command where
  "orchestrator_newStartCmd = start_command ''Start the orchestrator service''"

definition webhook_newStartCmd :: cobra_command where
  "webhook_newStartCmd = start_command ''Start the webhook service''"

text \<open>The arguments are rejected, answered by cobra itself (a help text), or run the subcommand with the value of its flag.\<close>

datatype invocation = Rejected go_error | Informed | RunsWith string

type_synonym cobra_parser = "cobra_command \<Rightarrow> cobra_command list \<Rightarrow> string list \<Rightarrow> invocation"

section \<open>Processes\<close>

text \<open>A process is alive, has exited with a status, or has panicked with an error.\<close>

datatype process_end = Alive | Exited nat | Panicked go_error

definition os_exit :: "run_outcome \<times> ('w, 'h) process \<Rightarrow> process_end \<times> ('w, 'h) process" where
  "os_exit run =
     (case run of (out, st) \<Rightarrow>
       (case out of Serving \<Rightarrow> Alive | Returned err \<Rightarrow> if err = None then Exited 0 else Exited 1, st))"

definition execute ::
    "cobra_parser \<Rightarrow> cobra_command \<Rightarrow> cobra_command \<Rightarrow> (string \<Rightarrow> ('w, 'h) program) \<Rightarrow> string list \<Rightarrow>
     ('w, 'h) process \<Rightarrow> process_end \<times> ('w, 'h) process" where
  "execute parser rootcmd sub runE args st =
     (case parser rootcmd [sub] args of
        Rejected err \<Rightarrow> (Exited 1, st)
      | Informed \<Rightarrow> (Exited 0, st)
      | RunsWith cfgFile \<Rightarrow> os_exit (runE cfgFile st))"

definition orchestrator_main ::
    "cobra_parser \<Rightarrow> ('w, 'd) orchestrator_outside \<Rightarrow> happening list \<Rightarrow> string list \<Rightarrow>
     ('w, (client, 'd) orchestrator_handler) process \<Rightarrow> process_end \<times> ('w, (client, 'd) orchestrator_handler) process" where
  "orchestrator_main parser E hs args =
     execute parser (root_command ''orchestrator'') orchestrator_newStartCmd (orchestrator_main_run E hs) args"

definition webhook_main ::
    "cobra_parser \<Rightarrow> ('w, 'v, 'u) webhook_outside \<Rightarrow> happening list \<Rightarrow> string list \<Rightarrow>
     ('w, ('v, 'u) webhook_deps) process \<Rightarrow> process_end \<times> ('w, ('v, 'u) webhook_deps) process" where
  "webhook_main parser E hs args =
     execute parser (root_command ''webhook'') webhook_newStartCmd (webhook_main_run E hs) args"

definition api_main ::
    "('w, 'v, 'o) api_outside \<Rightarrow> happening list \<Rightarrow> ('w, ('v, 'o) api_handler) process \<Rightarrow>
     process_end \<times> ('w, ('v, 'o) api_handler) process" where
  "api_main E hs st =
     (case api_main_run E hs st of
        (Serving, st1) \<Rightarrow> (Alive, st1)
      | (Returned None, st1) \<Rightarrow> (Exited 0, st1)
      | (Returned (Some err), st1) \<Rightarrow> (Panicked err, st1))"

section \<open>How a process ends\<close>

definition ended :: "process_end \<times> ('w, 'h) process \<Rightarrow> bool" where
  "ended p \<longleftrightarrow> (case p of (e, st) \<Rightarrow> opened st \<noteq> None \<and> (e = Alive \<or> opened st = Some []))"

lemma os_exit_ended: "clean run \<Longrightarrow> ended (os_exit run)"
  by (auto simp: clean_def ended_def os_exit_def split: prod.splits run_outcome.splits)

lemma execute_ended:
  assumes "\<And>cfgFile. clean (runE cfgFile (fresh w))"
  shows "ended (execute parser rootcmd sub runE args (fresh w))"
  using os_exit_ended [OF assms] by (auto simp: execute_def ended_def split: invocation.split)

lemma execute_fails:
  "fst (execute parser rootcmd sub runE args st) = Exited 1 \<longleftrightarrow>
     (case parser rootcmd [sub] args of
        Rejected err \<Rightarrow> True
      | Informed \<Rightarrow> False
      | RunsWith cfgFile \<Rightarrow> \<exists>err. fst (runE cfgFile st) = Returned (Some err))"
  by (auto simp: execute_def os_exit_def split: invocation.split prod.split run_outcome.split)

lemma api_main_ended: "ended (api_main E hs (fresh w))"
  using balanced_clean [OF balanced_api, of E hs w]
  by (auto simp: clean_def ended_def api_main_def split: prod.split run_outcome.split option.split)

text \<open>
  What is left of the sockets when a process is at its end, by what ended it: the gRPC listener is open
  exactly if it was opened and the HTTP server has failed; an HTTP server was not shut down exactly if it
  was started and no signal has come.
\<close>

definition sockets_left :: "happening option \<Rightarrow> process_end \<times> ('w, 'h) process \<Rightarrow> bool" where
  "sockets_left h p \<longleftrightarrow> (case p of (e, st) \<Rightarrow> e = Alive \<or>
     ((listening (prTrace st) [] \<noteq> [] \<longleftrightarrow>
        has_listened (prTrace st) \<and> (case h of Some (HTTPEnded err) \<Rightarrow> True | _ \<Rightarrow> False)) \<and>
      (not_shut_down (prTrace st) [] \<noteq> [] \<longleftrightarrow> has_served_http (prTrace st) \<and> h \<noteq> Some SignalReceived)))"

lemma has_simps [simp]:
  "has_listened [] = False" "has_listened (e # es) = ((case e of ListenGRPC a \<Rightarrow> True | _ \<Rightarrow> False) \<or> has_listened es)"
  "has_served_http [] = False"
  "has_served_http (e # es) = ((case e of ServeHTTP sv h \<Rightarrow> True | _ \<Rightarrow> False) \<or> has_served_http es)"
  by (simp_all add: has_listened_def has_served_http_def)

lemma decided_http_cases: "decided_http hs \<in> {None, Some SignalReceived} \<or> (\<exists>err. decided_http hs = Some (HTTPEnded err))"
  by (induction hs) (auto split: happening.splits)

lemma decided_both_cases:
  "decided_both hs \<in> {None, Some SignalReceived} \<or> (\<exists>err. decided_both hs \<in> {Some (HTTPEnded err), Some (GRPCEnded err)})"
  by (induction hs) (auto split: happening.splits if_splits)

lemma sockets_left_deeds:
  "sockets_left h (e, st) \<longleftrightarrow> e = Alive \<or>
     ((listening (deeds (prTrace st)) [] \<noteq> [] \<longleftrightarrow>
        has_listened (deeds (prTrace st)) \<and> (case h of Some (HTTPEnded err) \<Rightarrow> True | _ \<Rightarrow> False)) \<and>
      (not_shut_down (deeds (prTrace st)) [] \<noteq> [] \<longleftrightarrow>
        has_served_http (deeds (prTrace st)) \<and> h \<noteq> Some SignalReceived))"
  by (simp add: sockets_left_def deeds_suffice)

lemma http_ended_left:
  assumes "http_ended (decided_http hs) out (deeds (prTrace st))" and "out \<noteq> Serving"
  shows "sockets_left (decided_http hs) (e, st)"
  using assms decided_http_cases [of hs]
  by (auto simp: http_ended_def http_deeds_def sockets_left_deeds)

lemma both_ended_left:
  assumes "both_ended (decided_both hs) out (deeds (prTrace st))" and "out \<noteq> Serving"
  shows "sockets_left (decided_both hs) (e, st)"
  using assms decided_both_cases [of hs]
  by (auto simp: both_ended_def both_deeds_def sockets_left_deeds)

lemma doing_fresh: "doing prog P \<Longrightarrow> prog (fresh w) = (out, st) \<Longrightarrow> P out (deeds (prTrace st))"
  by (fastforce simp: doing_def fresh_def)

lemma execute_left:
  assumes "\<And>cfgFile out st. runE cfgFile (fresh w) = (out, st) \<Longrightarrow> out \<noteq> Serving \<Longrightarrow> sockets_left h (Exited 0, st)"
  shows "sockets_left h (execute parser rootcmd sub runE args (fresh w))"
proof (cases "parser rootcmd [sub] args")
  case (RunsWith cfgFile)
  obtain out st where r: "runE cfgFile (fresh w) = (out, st)" by (metis prod.collapse)
  then show ?thesis
    using assms [OF r] RunsWith by (cases out) (auto simp: execute_def os_exit_def sockets_left_def)
qed (simp_all add: execute_def sockets_left_def)

text \<open>
  C25: how the processes end. Whatever of the outside fails, whatever cobra makes of the arguments and
  however it ends, each of the three processes has released what it acquired with a deferred release, in
  the reverse order, by the time it exits or panics: no deferred call is skipped by \<open>os.Exit\<close>. Its sockets
  it leaves as follows: the gRPC listener of the orchestrator stays open exactly if the failure of the
  health server has ended the process, and an HTTP server is shut down exactly after a signal (otherwise
  it has failed by itself, or was left behind by a gRPC server that failed). The two services with a
  command line exit with status 1 exactly if the arguments are rejected or \<open>run\<close> fails.
\<close>

theorem processes_end:
  "ended (api_main E hs (fresh w)) \<and> ended (webhook_main parser E' hs args (fresh w)) \<and>
   ended (orchestrator_main parser E'' hs args (fresh w)) \<and>
   sockets_left (decided_http hs) (api_main E hs (fresh w)) \<and>
   sockets_left (decided_http hs) (webhook_main parser E' hs args (fresh w)) \<and>
   sockets_left (decided_both hs) (orchestrator_main parser E'' hs args (fresh w)) \<and>
   (fst (webhook_main parser E' hs args (fresh w)) = Exited 1 \<longleftrightarrow>
      (case parser (root_command ''webhook'') [webhook_newStartCmd] args of
         Rejected err \<Rightarrow> True
       | Informed \<Rightarrow> False
       | RunsWith cfgFile \<Rightarrow> \<exists>err. fst (webhook_main_run E' hs cfgFile (fresh w)) = Returned (Some err))) \<and>
   (fst (orchestrator_main parser E'' hs args (fresh w)) = Exited 1 \<longleftrightarrow>
      (case parser (root_command ''orchestrator'') [orchestrator_newStartCmd] args of
         Rejected err \<Rightarrow> True
       | Informed \<Rightarrow> False
       | RunsWith cfgFile \<Rightarrow> \<exists>err. fst (orchestrator_main_run E'' hs cfgFile (fresh w)) = Returned (Some err)))"
proof -
  have "clean (webhook_main_run E' hs cfgFile (fresh w))" "clean (orchestrator_main_run E'' hs cfgFile (fresh w))" for cfgFile
    by (intro balanced_clean balanced_webhook balanced_orchestrator)+
  then have "ended (webhook_main parser E' hs args (fresh w))" "ended (orchestrator_main parser E'' hs args (fresh w))"
    unfolding webhook_main_def orchestrator_main_def by (intro execute_ended, blast)+
  moreover have "sockets_left (decided_http hs) (webhook_main parser E' hs args (fresh w))"
    unfolding webhook_main_def by (intro execute_left http_ended_left) (rule doing_fresh [OF doing_webhook])
  moreover have "sockets_left (decided_both hs) (orchestrator_main parser E'' hs args (fresh w))"
    unfolding orchestrator_main_def by (intro execute_left both_ended_left) (rule doing_fresh [OF doing_orchestrator])
  moreover have "sockets_left (decided_http hs) (api_main E hs (fresh w))"
  proof -
    obtain out st where run: "api_main_run E hs (fresh w) = (out, st)" by (metis prod.collapse)
    show ?thesis
    proof (cases out)
      case Serving
      then show ?thesis by (simp add: api_main_def run sockets_left_def)
    next
      case (Returned r)
      then show ?thesis
        using http_ended_left [OF doing_fresh [OF doing_api run]] by (simp add: api_main_def run split: option.split)
    qed
  qed
  ultimately show ?thesis by (simp add: api_main_ended webhook_main_def orchestrator_main_def execute_fails del: One_nat_def)
qed

text \<open>
  The reason is told to no one: a process with a command line that cannot load its configuration ends
  as if it had been given other arguments, whatever the error is; the API's panic shows it.
\<close>

lemma silent_failure:
  assumes "parser (root_command ''orchestrator'') [orchestrator_newStartCmd] args = RunsWith cfgFile"
    and "orchestrator_Load (ooReadFile E) (ooUnmarshal E) cfgFile = Inl err"
  shows "orchestrator_main parser E hs args (fresh w) = (Exited 1, fresh w)"
  using assms by (simp add: orchestrator_main_def execute_def os_exit_def orchestrator_main_run_def)

lemma loud_failure:
  assumes "api_Load (aoParseFloat E) (aoEnv E) = Inl err"
  shows "api_main E hs (fresh w) = (Panicked err, fresh w)"
  using assms by (simp add: api_main_def api_main_run_def)

end
