(* ===== verification/LimiterCounters.thy ===== *)
theory LimiterCounters
  imports RateLimitFacts
begin

text \<open>
  What the limiter counts: its own counters (\<open>GetMetrics\<close>, deprecated) beside the Prometheus counters
  that replace them, and in which they differ.
\<close>

section \<open>The counters of Prometheus\<close>

text \<open>\<open>rateLimitRequestsTotal\<close> by its label, and \<open>rateLimitBucketRefills\<close>.\<close>

datatype limiter_count = RequestsTotal string | BucketRefills

definition tokens_to_add :: "rate_limit_config \<Rightarrow> int \<Rightarrow> int \<Rightarrow> rat" where
  "tokens_to_add cfg now lastRefill =
     fmul (fdiv (float64_of_int (wrap64 (now - lastRefill))) 1000) (rlRequestsPerSecond cfg)"

lemma refill_adds: "refill cfg now (tokens, lastRefill) =
    go_min (fadd tokens (tokens_to_add cfg now lastRefill)) (float64_of_int (rlBurstSize cfg))"
  by (simp add: refill_def tokens_to_add_def Let_def)

text \<open>The increments that one \<open>Allow\<close> makes, in their order.\<close>

definition Allow_counts ::
    "'w redis_env \<Rightarrow> rate_limit_config \<Rightarrow> string \<Rightarrow> int \<Rightarrow> 'w limiter_state \<Rightarrow> limiter_count list" where
  "Allow_counts E cfg key now s =
     (let fullKey = bucket_key cfg key in
      case redis_do E (redis_hmget fullKey [''tokens'', ''last_refill'']) (lsRedis s) of
        (Inl err, r1) \<Rightarrow> []
      | (Inr result, r1) \<Rightarrow>
          let bucket = read_bucket cfg now result; tokens = refill cfg now bucket in
          (if 0 < tokens_to_add cfg now (snd bucket) then [BucketRefills] else []) @
          (if 1 \<le> tokens
           then (case redis_do E (redis_hmset fullKey (bucket_fields (fsub tokens 1) now)) r1 of
                   (Inl err, r2) \<Rightarrow> []
                 | (Inr _, r2) \<Rightarrow> [RequestsTotal ''allowed''])
           else [RequestsTotal ''rejected'']))"

text \<open>A limiter as it is made, on a server.\<close>

definition NewRateLimiter :: "'w redis \<Rightarrow> 'w limiter_state" where
  "NewRateLimiter r = \<lparr>lsRedis = r, lsMetrics = \<lparr>lmTotal = 0, lmAllowed = 0, lmRejected = 0, lmBucketRefills = 0\<rparr>\<rparr>"

lemma NewRateLimiter_metrics [simp]:
  "lsMetrics (NewRateLimiter r) = \<lparr>lmTotal = 0, lmAllowed = 0, lmRejected = 0, lmBucketRefills = 0\<rparr>"
  by (simp add: NewRateLimiter_def)

fun run_counts ::
    "'w redis_env \<Rightarrow> rate_limit_config \<Rightarrow> string \<Rightarrow> int list \<Rightarrow> 'w limiter_state \<Rightarrow> limiter_count list" where
  "run_counts E cfg key [] s = []"
| "run_counts E cfg key (now # nows) s =
     Allow_counts E cfg key now s @ run_counts E cfg key nows (snd (Allow E cfg key now s))"

section \<open>They agree, but for the refills\<close>

text \<open>What one check adds to the limiter's own counters.\<close>

lemma Allow_own_counts:
  "lsMetrics (snd (Allow E cfg key now s)) =
     (case fst (Allow E cfg key now s) of
        Inl err \<Rightarrow> lsMetrics s
      | Inr True \<Rightarrow> count_allowed (lsMetrics s)
      | Inr False \<Rightarrow> count_rejected (lsMetrics s))"
  by (simp add: Allow_def Let_def split: prod.split sum.split)

lemma Allow_counts_answer:
  "filter (\<lambda>c. c \<noteq> BucketRefills) (Allow_counts E cfg key now s) =
     (case fst (Allow E cfg key now s) of
        Inl err \<Rightarrow> []
      | Inr True \<Rightarrow> [RequestsTotal ''allowed'']
      | Inr False \<Rightarrow> [RequestsTotal ''rejected''])"
  by (simp add: Allow_def Allow_counts_def Let_def split: prod.split sum.split)

definition answered_with :: "bool \<Rightarrow> bool result list \<Rightarrow> int" where
  "answered_with b rs = int (length (filter ((=) (Inr b)) rs))"

lemma answered_with_simps [simp]:
  "answered_with b [] = 0"
  "answered_with b (Inl err # rs) = answered_with b rs"
  "answered_with b (Inr b' # rs) = (if b' = b then 1 else 0) + answered_with b rs"
  by (auto simp: answered_with_def)

lemma answered_with_bound: "0 \<le> answered_with b rs" "answered_with True rs + answered_with False rs \<le> int (length rs)"
proof -
  show "0 \<le> answered_with b rs" by (simp add: answered_with_def)
  show "answered_with True rs + answered_with False rs \<le> int (length rs)"
  proof (induction rs)
    case (Cons r rs)
    then show ?case by (cases r) auto
  qed simp
qed

text \<open>The limiter's counters after a run, as long as nothing overflows.\<close>

definition counters_plus :: "limiter_metrics \<Rightarrow> bool result list \<Rightarrow> limiter_metrics" where
  "counters_plus m rs = m\<lparr>lmAllowed := lmAllowed m + answered_with True rs, lmRejected := lmRejected m + answered_with False rs,
     lmTotal := lmTotal m + (answered_with True rs + answered_with False rs)\<rparr>"

lemma counters_plus_Cons: "counters_plus m (r # rs) = counters_plus (counters_plus m [r]) rs"
  by (cases r) (simp_all add: counters_plus_def)

definition roomy :: "limiter_metrics \<Rightarrow> int \<Rightarrow> bool" where
  "roomy m n \<longleftrightarrow> 0 \<le> lmAllowed m \<and> 0 \<le> lmRejected m \<and> 0 \<le> lmTotal m \<and>
     lmAllowed m + n < 2 ^ 63 \<and> lmRejected m + n < 2 ^ 63 \<and> lmTotal m + n < 2 ^ 63"

lemma length_allow_run: "length (fst (allow_run E cfg key nows s)) = length nows"
  by (induction nows arbitrary: s) (simp_all split: prod.split, metis fst_conv)

lemma own_counts_run:
  "roomy (lsMetrics s) (int (length nows)) \<Longrightarrow>
   lsMetrics (snd (allow_run E cfg key nows s)) = counters_plus (lsMetrics s) (fst (allow_run E cfg key nows s))"
proof (induction nows arbitrary: s)
  case Nil
  show ?case by (simp add: counters_plus_def)
next
  case (Cons now nows)
  obtain res s1 where a: "Allow E cfg key now s = (res, s1)" by (metis prod.collapse)
  have m: "lsMetrics s1 = (case res of Inl err \<Rightarrow> lsMetrics s | Inr True \<Rightarrow> count_allowed (lsMetrics s)
      | Inr False \<Rightarrow> count_rejected (lsMetrics s))" using Allow_own_counts [of E cfg key now s] by (simp add: a)
  have wrap: "wrap64 (n + 1) = n + 1" if "0 \<le> n" "n + 1 < 2 ^ 63" for n :: int using that by (intro wrap64_id) auto
  have "roomy (lsMetrics s1) (int (length nows)) \<and> counters_plus (lsMetrics s) [res] = lsMetrics s1"
    using Cons.prems wrap
    by (auto simp: m roomy_def counters_plus_def count_allowed_def count_rejected_def split: sum.split bool.split)
  moreover obtain rs1 s2 where "allow_run E cfg key nows s1 = (rs1, s2)" by (metis prod.collapse)
  ultimately show ?case
    using Cons.IH [of s1] by (simp add: a counters_plus_Cons [of _ _ rs1])
qed

lemma prometheus_run:
  "int (length (filter ((=) (RequestsTotal l)) (run_counts E cfg key nows s))) =
     (if l = ''allowed'' then answered_with True (fst (allow_run E cfg key nows s))
      else if l = ''rejected'' then answered_with False (fst (allow_run E cfg key nows s)) else 0)"
proof (induction nows arbitrary: s)
  case (Cons now nows)
  obtain res s1 where a: "Allow E cfg key now s = (res, s1)" by (metis prod.collapse)
  have "filter ((=) (RequestsTotal l)) (Allow_counts E cfg key now s) =
      filter ((=) (RequestsTotal l)) (filter (\<lambda>c. c \<noteq> BucketRefills) (Allow_counts E cfg key now s))"
    by (auto intro: filter_cong)
  also have "\<dots> = filter ((=) (RequestsTotal l)) (case res of Inl err \<Rightarrow> [] | Inr True \<Rightarrow> [RequestsTotal ''allowed'']
      | Inr False \<Rightarrow> [RequestsTotal ''rejected''])" by (simp add: Allow_counts_answer a)
  finally show ?case
    using Cons [of s1] by (cases res) (simp_all add: a split: prod.split bool.split)
qed simp

text \<open>
  C16: the limiter's two sets of counters. After any checks by a new limiter that come one after the
  other, fewer than \<open>2^63\<close> of them and whatever Redis loses, both count each check that was answered once, as allowed or rejected as it was answered, and neither
  counts a check that failed; but the refills that Prometheus counts are none in \<open>GetMetrics\<close>, ever.
\<close>

theorem limiter_counters:
  assumes "allow_run E cfg key nows (NewRateLimiter r) = (rs, l)" and "length nows < 2 ^ 63"
  shows "GetMetrics l = \<lparr>lmTotal = answered_with True rs + answered_with False rs, lmAllowed = answered_with True rs,
      lmRejected = answered_with False rs, lmBucketRefills = 0\<rparr> \<and>
    int (length (filter ((=) (RequestsTotal ''allowed'')) (run_counts E cfg key nows (NewRateLimiter r)))) = lmAllowed (GetMetrics l) \<and>
    int (length (filter ((=) (RequestsTotal ''rejected'')) (run_counts E cfg key nows (NewRateLimiter r)))) = lmRejected (GetMetrics l)"
proof -
  have "roomy (lsMetrics (NewRateLimiter r)) (int (length nows))" using assms(2) by (simp add: roomy_def)
  from own_counts_run [OF this, of E cfg key] show ?thesis
    by (simp add: assms(1) prometheus_run GetMetrics_def counters_plus_def)
qed

text \<open>A bucket of one token: the second of two checks at one time is refused.\<close>

definition demo_slow :: rate_limit_config where
  "demo_slow = \<lparr>rlKeyPrefix = ''ratelimit:global'', rlRequestsPerSecond = 1, rlBurstSize = 1\<rparr>"

lemma demo_slow_counts:
  "run_counts steady_redis demo_slow ''global'' [0, 0] (NewRateLimiter (lsRedis idle_limiter)) =
     [RequestsTotal ''allowed'', RequestsTotal ''rejected'']"
  by code_simp

theorem limiter_counters_witness:
  "GetMetrics (snd (allow_run steady_redis demo_slow ''global'' [0, 0] (NewRateLimiter (lsRedis idle_limiter)))) =
     \<lparr>lmTotal = 2, lmAllowed = 1, lmRejected = 1, lmBucketRefills = 0\<rparr>"
proof -
  obtain rs l where run: "allow_run steady_redis demo_slow ''global'' [0, 0] (NewRateLimiter (lsRedis idle_limiter)) = (rs, l)"
    by (metis prod.collapse)
  have "length [0, 0 :: int] < 2 ^ 63" by simp
  from limiter_counters [OF run this, unfolded demo_slow_counts] show ?thesis unfolding run by (elim conjE) simp
qed

end
