(* ===== verification/IdempotencyRepo.thy ===== *)
theory IdempotencyRepo
  imports ServiceProps
begin

text \<open>
  The interface \<open>domain.IdempotencyRepository\<close>: the first writer of a key wins, for every caller that
  gets an answer, and the Postgres repository implements it on any connection.
\<close>

section \<open>The interface\<close>

locale idempotency_repository =
  fixes ok :: "'s \<Rightarrow> bool"
    and keys :: "'s \<Rightarrow> string \<Rightarrow> idempotency_key option"
    and try_insert :: "string \<Rightarrow> string \<Rightarrow> uuid \<Rightarrow> 's \<Rightarrow> (idempotency_key \<times> bool) result \<times> 's"
    and get :: "string \<Rightarrow> 's \<Rightarrow> idempotency_key result \<times> 's"
  assumes ok_kept: "ok s \<Longrightarrow> ok (snd (try_insert k h i s))" "ok s \<Longrightarrow> ok (snd (get k s))"
    and keys_kept: "ok s \<Longrightarrow> keys s \<subseteq>\<^sub>m keys (snd (try_insert k h i s))" "keys (snd (get k s)) = keys s"
    and inserted: "ok s \<Longrightarrow> try_insert k h i s = (Inr (key, True), s') \<Longrightarrow>
      keys s k = None \<and> keys s' = (keys s)(k \<mapsto> key) \<and> kRequestHash key = h \<and> kPayoutID key = i"
    and existing: "ok s \<Longrightarrow> try_insert k h i s = (Inr (key, False), s') \<Longrightarrow> keys s k = Some key"
    and get_answer: "ok s \<Longrightarrow> get k s = (Inr key, s') \<Longrightarrow> keys s k = Some key"
    and get_missing: "ok s \<Longrightarrow> get k s = (Inl ErrNotFound, s') \<Longrightarrow> keys s k = None"

text \<open>Calls one after the other, with their answers.\<close>

fun try_run ::
    "(string \<Rightarrow> string \<Rightarrow> uuid \<Rightarrow> 's \<Rightarrow> (idempotency_key \<times> bool) result \<times> 's) \<Rightarrow> (string \<times> string \<times> uuid) list \<Rightarrow> 's \<Rightarrow>
     (idempotency_key \<times> bool) result list \<times> 's" where
  "try_run try_insert [] s = ([], s)"
| "try_run try_insert ((k, h, i) # cs) s =
     (case try_insert k h i s of (a, s1) \<Rightarrow> case try_run try_insert cs s1 of (as, s') \<Rightarrow> (a # as, s'))"

definition insertions :: "string \<Rightarrow> ((string \<times> string \<times> uuid) \<times> (idempotency_key \<times> bool) result) list \<Rightarrow> nat" where
  "insertions k ps = length (filter (\<lambda>((k', h, i), a). k' = k \<and> (case a of Inr (key, new) \<Rightarrow> new | Inl e \<Rightarrow> False)) ps)"

context idempotency_repository begin

lemma try_answer_stored:
  assumes "ok s" and "try_insert k h i s = (Inr (key, new), s')"
  shows "keys s' k = Some key"
proof (cases new)
  case True
  then show ?thesis using inserted [OF assms(1)] assms(2) by auto
next
  case False
  then have "keys s k = Some key" using existing [OF assms(1), of k h i key s'] assms(2) by simp
  then show ?thesis using keys_kept(1) [OF assms(1), of k h i] assms(2) by (auto simp: map_le_def dom_def)
qed

lemma run_kept: "ok s \<Longrightarrow> try_run try_insert cs s = (as, s') \<Longrightarrow> ok s' \<and> keys s \<subseteq>\<^sub>m keys s'"
proof (induction cs arbitrary: s as)
  case (Cons c cs)
  obtain k h i where c: "c = (k, h, i)" by (cases c)
  obtain a s1 where a: "try_insert k h i s = (a, s1)" by (metis prod.collapse)
  have "ok s1" "keys s \<subseteq>\<^sub>m keys s1" using ok_kept(1) [OF Cons.prems(1), of k h i] keys_kept(1) [OF Cons.prems(1), of k h i] a by auto
  then show ?case using Cons.IH [of s1] Cons.prems(2) by (auto simp: c a split: prod.splits intro: map_le_trans)
qed simp

lemma run_stored:
  "ok s \<Longrightarrow> try_run try_insert cs s = (as, s') \<Longrightarrow> ((k, h, i), Inr (key, new)) \<in> set (zip cs as) \<Longrightarrow> keys s' k = Some key"
proof (induction cs arbitrary: s as)
  case (Cons c cs)
  obtain k1 h1 i1 where c: "c = (k1, h1, i1)" by (cases c)
  obtain a s1 where a: "try_insert k1 h1 i1 s = (a, s1)" by (metis prod.collapse)
  obtain as1 where as: "try_run try_insert cs s1 = (as1, s')" "as = a # as1"
    using Cons.prems(2) by (auto simp: c a split: prod.splits)
  have ok1: "ok s1" using ok_kept(1) [OF Cons.prems(1), of k1 h1 i1] a by simp
  show ?case
  proof (cases "((k, h, i), Inr (key, new)) \<in> set (zip cs as1)")
    case True
    then show ?thesis using Cons.IH [OF ok1 as(1)] by blast
  next
    case False
    then have "k1 = k" "a = Inr (key, new)" using Cons.prems(3) by (auto simp: as(2) c)
    then have "keys s1 k = Some key" using try_answer_stored [OF Cons.prems(1)] a by blast
    then show ?thesis using run_kept [OF ok1 as(1)] by (auto simp: map_le_def dom_def)
  qed
qed simp

lemma run_inserted:
  "ok s \<Longrightarrow> try_run try_insert cs s = (as, s') \<Longrightarrow> ((k, h, i), Inr (key, True)) \<in> set (zip cs as) \<Longrightarrow>
   kRequestHash key = h \<and> kPayoutID key = i"
proof (induction cs arbitrary: s as)
  case (Cons c cs)
  obtain k1 h1 i1 where c: "c = (k1, h1, i1)" by (cases c)
  obtain a s1 where a: "try_insert k1 h1 i1 s = (a, s1)" by (metis prod.collapse)
  obtain as1 where as: "try_run try_insert cs s1 = (as1, s')" "as = a # as1"
    using Cons.prems(2) by (auto simp: c a split: prod.splits)
  have "ok s1" using ok_kept(1) [OF Cons.prems(1), of k1 h1 i1] a by simp
  note IH = Cons.IH [OF this as(1)]
  show ?case using Cons.prems(3) IH inserted [OF Cons.prems(1)] a by (auto simp: as(2) c)
qed simp

text \<open>All answers about a key agree, and at most one of them says that it was inserted.\<close>

lemma first_writer_wins:
  assumes "ok s" and "try_run try_insert cs s = (as, s')"
    and "((k, h, i), Inr (key, new)) \<in> set (zip cs as)" and "((k, h', i'), Inr (key', new')) \<in> set (zip cs as)"
  shows "key' = key"
  using run_stored [OF assms(1,2,3)] run_stored [OF assms(1,2,4)] by simp

lemma inserted_at_most_once:
  "ok s \<Longrightarrow> try_run try_insert cs s = (as, s') \<Longrightarrow> insertions k (zip cs as) \<le> (if keys s k = None then 1 else 0)"
proof (induction cs arbitrary: s as)
  case (Cons c cs)
  obtain k1 h1 i1 where c: "c = (k1, h1, i1)" by (cases c)
  obtain a s1 where a: "try_insert k1 h1 i1 s = (a, s1)" by (metis prod.collapse)
  obtain as1 where as: "try_run try_insert cs s1 = (as1, s')" "as = a # as1"
    using Cons.prems(2) by (auto simp: c a split: prod.splits)
  have ok1: "ok s1" and grow: "keys s \<subseteq>\<^sub>m keys s1"
    using ok_kept(1) [OF Cons.prems(1), of k1 h1 i1] keys_kept(1) [OF Cons.prems(1), of k1 h1 i1] a by auto
  note IH = Cons.IH [OF ok1 as(1)]
  show ?case
  proof (cases "k1 = k \<and> (\<exists>key. a = Inr (key, True))")
    case True
    then obtain key where "k1 = k" "a = Inr (key, True)" by blast
    then have "keys s k = None" "keys s1 k = Some key" using inserted [OF Cons.prems(1)] a by auto
    then show ?thesis using IH True by (auto simp: as(2) c insertions_def)
  next
    case False
    then have "insertions k (zip (c # cs) as) = insertions k (zip cs as1)"
      by (auto simp: as(2) c insertions_def split: sum.splits)
    moreover have "keys s1 k \<noteq> None" if "keys s k \<noteq> None" using grow that by (auto simp: map_le_def dom_def)
    ultimately show ?thesis using IH by (auto split: if_splits)
  qed
qed (simp add: insertions_def)

end

section \<open>The Postgres repository\<close>

definition keys_of :: "'d pg \<Rightarrow> string \<Rightarrow> idempotency_key option" where
  "keys_of s k = map_option toDomainIdempotencyKey (find (\<lambda>r. ikKey r = k) (tbl_keys s))"

lemma keys_of_row: "tables_ok s \<Longrightarrow> row \<in> set (tbl_keys s) \<Longrightarrow> keys_of s (ikKey row) = Some (toDomainIdempotencyKey row)"
  using tables_ok_find_key [of s "ikKey row" row] by (simp add: keys_of_def)

lemma keys_of_grow: "db_le s s' \<Longrightarrow> tables_ok s \<Longrightarrow> keys_of s \<subseteq>\<^sub>m keys_of s'"
proof (unfold map_le_def, rule ballI)
  fix k assume le: "db_le s s'" "tables_ok s" and "k \<in> dom (keys_of s)"
  then obtain row where "find (\<lambda>r. ikKey r = k) (tbl_keys s) = Some row" by (auto simp: keys_of_def)
  then have row: "row \<in> set (tbl_keys s)" "ikKey row = k" by (auto simp: find_Some_iff)
  then have "row \<in> set (tbl_keys s')" "tables_ok s'" using le by (auto simp: db_le_def evolves_def)
  then show "keys_of s k = keys_of s' k" using keys_of_row [OF le(2) row(1)] keys_of_row [of s' row] row(2) by simp
qed

lemma get_key_answer:
  assumes "IdempotencyRepo_GetIdempotencyKey E k s = (res, s')"
  shows "res = Inr key \<Longrightarrow> keys_of s k = Some key" and "res = Inl ErrNotFound \<Longrightarrow> keys_of s k = None"
    and "same_tables s s'"
proof -
  obtain r1 s1 where g: "round_trip E (sql_getIdempotencyKey k) s = (r1, s1)" by (metis prod.collapse)
  note def = IdempotencyRepo_GetIdempotencyKey_def Queries_GetIdempotencyKey_def g
  show "keys_of s k = Some key" if r: "res = Inr key"
  proof -
    obtain row where row: "r1 = Inr row" "key = toDomainIdempotencyKey row"
      using assms r by (auto simp: def split: sum.splits if_splits)
    then obtain d where "sql_getIdempotencyKey k (s\<lparr>pg_world := d\<rparr>) = (Inr row, s1)" using g by (metis getkey_stmt.round_trip_answer)
    then show ?thesis using row by (auto simp: sql_getIdempotencyKey_def keys_of_def split: option.splits)
  qed
  show "keys_of s k = None" if r: "res = Inl ErrNotFound"
  proof -
    have "db_error e \<and> \<not> errors_Is e ErrNoRows \<Longrightarrow> e \<noteq> ErrNotFound" for e by (auto simp: db_error_def)
    moreover obtain e where e: "r1 = Inl e" using assms r by (auto simp: def split: sum.splits)
    moreover have "db_error e" using g [unfolded e]
      by (rule round_trip_db_error) (auto simp: sql_getIdempotencyKey_def db_error_def split: option.splits)
    ultimately have "errors_Is e ErrNoRows" using assms r by (auto simp: def split: if_splits)
    then have "e \<noteq> PgError c m" for c m by auto
    then obtain d where "sql_getIdempotencyKey k (s\<lparr>pg_world := d\<rparr>) = (Inl e, s1)" using g e by (metis getkey_stmt.round_trip_error)
    then show ?thesis by (auto simp: sql_getIdempotencyKey_def keys_of_def split: option.splits)
  qed
  show "same_tables s s'"
    using assms getkey_stmt.round_trip_same [of s E k] g by (auto simp: def split: sum.splits if_splits)
qed

interpretation keyed: idempotency_repository tables_ok keys_of "IdempotencyRepo_TryInsertIdempotencyKey E"
    "IdempotencyRepo_GetIdempotencyKey E" for E :: "'d pg_env"
proof unfold_locales
  fix s s' :: "'d pg" and k h i key
  have same: "same_tables s (snd (IdempotencyRepo_GetIdempotencyKey E k s))"
    by (rule get_key_answer(3) [OF prod.collapse [symmetric]])
  show "tables_ok s \<Longrightarrow> tables_ok (snd (IdempotencyRepo_TryInsertIdempotencyKey E k h i s))"
    using trykey_db_le unfolding db_le_def by blast
  show "tables_ok s \<Longrightarrow> tables_ok (snd (IdempotencyRepo_GetIdempotencyKey E k s))"
    using same same_tables_db_le unfolding db_le_def by blast
  show "tables_ok s \<Longrightarrow> keys_of s \<subseteq>\<^sub>m keys_of (snd (IdempotencyRepo_TryInsertIdempotencyKey E k h i s))"
    by (rule keys_of_grow [OF trykey_db_le])
  show "keys_of (snd (IdempotencyRepo_GetIdempotencyKey E k s)) = keys_of s"
    using same by (auto simp: keys_of_def same_tables_def)
  show "keys_of s k = None \<and> keys_of s' = (keys_of s)(k \<mapsto> key) \<and> kRequestHash key = h \<and> kPayoutID key = i"
    if "IdempotencyRepo_TryInsertIdempotencyKey E k h i s = (Inr (key, True), s')"
    using that
  proof (cases rule: trykey_answer)
    case (inserted row)
    then have "find (\<lambda>r. ikKey r = k) (tbl_keys s) = None" by (simp add: find_None_iff_key)
    then show ?thesis
      using inserted by (auto simp: keys_of_def find_append_one toDomainIdempotencyKey_def fun_eq_iff split: option.split)
  qed simp
  show "keys_of s k = Some key" if "tables_ok s" "IdempotencyRepo_TryInsertIdempotencyKey E k h i s = (Inr (key, False), s')"
    using that(2)
  proof (cases rule: trykey_answer)
    case (existing row)
    then show ?thesis using keys_of_row [OF that(1)] by auto
  qed simp
qed (auto dest: get_key_answer)

text \<open>
  C4: the first writer of an idempotency key wins. Whatever the connection loses, all callers that get
  an answer about one key get the same stored key, hash and payout id, and at most one of them is told
  that it was inserted; none is if the key was stored before.
\<close>

theorem first_key_wins:
  assumes "tables_ok s" and "try_run (IdempotencyRepo_TryInsertIdempotencyKey E) cs s = (as, s')"
    and "((k, h, i), Inr (key, new)) \<in> set (zip cs as)" and "((k, h', i'), Inr (key', new')) \<in> set (zip cs as)"
  shows "key' = key \<and> keys_of s' k = Some key \<and> (new \<longrightarrow> kRequestHash key = h \<and> kPayoutID key = i) \<and>
    insertions k (zip cs as) \<le> (if keys_of s k = None then 1 else 0)"
  using keyed.first_writer_wins [OF assms] keyed.run_stored [OF assms(1-3)] keyed.inserted_at_most_once [OF assms(1,2), of k]
    keyed.run_inserted [OF assms(1,2), of k h i key] assms(3) by (cases new) simp_all

text \<open>Two callers of one key with different hashes, and then a third.\<close>

abbreviation demo_calls3 :: "(string \<times> string \<times> uuid) list" where
  "demo_calls3 \<equiv> [(''k'', ''h'', 1), (''k'', ''other'', 2), (''k'', ''h'', 3)]"

lemma demo_three:
  "try_run (IdempotencyRepo_TryInsertIdempotencyKey demo_pg) demo_calls3 (ssPg demo_empty) =
     (let key = \<lparr>kKey = ''k'', kRequestHash = ''h'', kPayoutID = 1, kCreatedAt = 5\<rparr>
      in ([Inr (key, True), Inr (key, False), Inr (key, False)],
          \<lparr>tbl_payouts = [], tbl_keys = [\<lparr>ikKey = ''k'', ikRequestHash = ''h'', ikPayoutID = 1, ikCreatedAt = 5\<rparr>], pg_world = 1\<rparr>))"
  by code_simp

theorem first_key_wins_witness:
  "insertions ''k'' (zip demo_calls3 (fst (try_run (IdempotencyRepo_TryInsertIdempotencyKey demo_pg) demo_calls3 (ssPg demo_empty)))) \<le> 1"
proof -
  let ?key = "\<lparr>kKey = ''k'', kRequestHash = ''h'', kPayoutID = 1, kCreatedAt = 5\<rparr>"
  obtain as s' where run: "try_run (IdempotencyRepo_TryInsertIdempotencyKey demo_pg) demo_calls3 (ssPg demo_empty) = (as, s')"
    by (metis prod.collapse)
  have "as = [Inr (?key, True), Inr (?key, False), Inr (?key, False)]" using demo_three run by (simp add: Let_def)
  then have "((''k'', ''h'', 1), Inr (?key, True)) \<in> set (zip demo_calls3 as)"
    "((''k'', ''other'', 2), Inr (?key, False)) \<in> set (zip demo_calls3 as)" by simp_all
  from first_key_wins [OF demo_empty_ok run this] show ?thesis unfolding run by (auto split: if_splits)
qed

end
