(* ===== verification/Spec2Isabelle.thy ===== *)
theory Spec2Isabelle
  imports Providers ServiceRuns WebhookFacts ApiFacts RateLimitFacts Interleaving BootFacts ConcurrentApi WebhookSteps HttpMetrics
    StartupFacts WebhookRouter Lifecycle ApiRouter TrackerRuns CommandLine LimiterCounters IdempotencyRepo
begin

text \<open>
  A verification of the payout system: three Go services around one payout.

  \<^bold>\<open>The program.\<close> The API service (\<open>services/api\<close>) takes HTTP requests, limits their rate with a token
  bucket in Redis, and calls the orchestrator over gRPC. The orchestrator (\<open>services/orchestrator\<close>) keeps
  payouts and idempotency keys in Postgres, and sends and cancels payouts through the providers that are
  registered for a payment rail, in the order a router chooses. The webhook service
  (\<open>services/webhook\<close>) takes Stripe's events, drops the repeated ones with a mark in Redis, and reports the
  outcome to the orchestrator.

  \<^bold>\<open>How code is written here.\<close> A struct is a record, a handler is a function from its request and the state
  to its answer and the state, an error is a value of \<open>go_error\<close> in the left of a sum. What is not under
  \<open>src/\<close> is an argument: the fate of each round trip to Postgres or Redis (it may fail before the server
  has acted, or after), the clocks, the random ids and numbers, the order in which Go visits a map, the
  Stripe SDK, decoders of YAML. Integers are those of Go: where an overflow can be reached it is
  written out (\<open>wrap64\<close>), floats are rationals that are rounded to 53 bits after every operation
  (theory GoFloat; without infinities, NaN and subnormal numbers, which no count or bucket of the
  program reaches).

  \<^bold>\<open>Orchestrator.\<close>
  \<^item> Domain, GoErrors: \<open>domain/payout.go\<close>, \<open>libs/errors\<close>, \<open>provider/errors.go\<close>.
  \<^item> GoQuote: \<open>%q\<close> of \<open>fmt\<close>, on any bytes: what is printable stays, bytes of invalid UTF-8 and other
    runes become escapes; one text never quotes like another, whatever follows it.
  \<^item> Sqlc, SqlcLaws: the seven statements of \<open>persistence/sqlcgen/queries.sql.go\<close> on two tables with the
    constraints of \<open>db/migrations\<close>; the contract of a statement as a locale, interpreted by each.
  \<^item> PayoutRepo: \<open>persistence/postgres\<close>. RunInTx is all or nothing; the payout repository implements an
    abstract store of payouts (locale \<open>payout_repository\<close>).
  \<^item> IdempotencyRepo: the interface \<open>domain.IdempotencyRepository\<close> as a locale, interpreted by the repository
    over SQL: the first writer of a key wins, also where answers are lost.
  \<^item> Registry, SuccessTracker, Router, ExchangeSort, RouterFacts: \<open>provider/registry.go\<close>,
    \<open>success_tracker.go\<close>, \<open>router.go\<close>. Every routing algorithm orders the active providers of the rail
    (locale \<open>routing_algorithm\<close>); the weights add up and the draw is fair; the exchange sort of the code
    is one function by structural recursion, which orders the providers but is not stable.
  \<^item> Orchestrator, Providers: \<open>provider/orchestrator.go\<close> and the Stripe and mock clients. The attempts of
    one call, and when the fallback goes on.
  \<^item> PayoutService, ServiceLaws, ServiceProps, ServiceRuns: \<open>grpc/payout_service.go\<close>. What each handler
    does on a reliable connection, and over any run on any connection: idempotency, at most one sending
    per key, the invariant of the tables, the history of a payout.
  \<^item> Interleaved: runs of any number of handlers at the same time, for any handler that is cut into steps;
    four locales say what to show of one step for an invariant, for an action that happens at most once,
    for a budget that is spent, and for an end of every handler. They are interpreted by the payout
    handlers, by posts at the API and by Stripe's deliveries.
  \<^item> Handlers, Interleaving, ConcurrentAnswers: the payout handlers cut at their calls to the outside, and
    between a provider's answer and its entry in the success tracker; run alone, they are the handlers of
    the service. What holds in every interleaving of them: the invariant, one sending per key with at most
    one call per registered provider, one payout per key, the history of a payout, answers that name stored
    payouts, and an end of every request after at most five steps of its own and two per registered
    provider; and two races that the code allows. A handler that makes no more steps is one whose process
    has stopped.
  \<^item> TrackerRuns: the success tracker under this interleaving: one outcome for each call to a provider, but for
    the calls whose outcome is still to be entered.
  \<^item> Boot, BootFacts: \<open>internal/config\<close> and the part of \<open>cmd/server/main.go\<close> that registers providers and
    builds the orchestrator; also the configuration of the webhook service and its handler.

  \<^bold>\<open>Processes.\<close>
  \<^item> Process: what a \<open>run\<close> function is made of, calls that acquire something or fail, deferred releases and
    a \<open>select\<close>, on a trace of what the process did; the discipline of releases, with a rule per construct.
  \<^item> Startup, StartupFacts: the three \<open>cmd/server/main.go\<close> with \<open>NewLogger\<close>, the gRPC clients and the Redis
    client: what has to come up before a service serves, what it serves then (a payout service without a
    database, Stripe's endpoint without Redis), in which order it lets go, and how it stops. Also
    \<open>libs/observability/grpc_metrics.go\<close>, as the interceptors that a server and a client are given. After
    a signal the orchestrator waits in \<open>GracefulStop\<close> until the last call in flight has ended.
  \<^item> CommandLine: the three \<open>main\<close> functions, with cobra's reading of the arguments as a parameter; what a
    process has released when it exits or panics, which of its sockets are left, with which status it ends,
    and who learns why.

  \<^bold>\<open>Webhook.\<close>
  \<^item> Redis: the commands that the program uses, on keys with an expiry.
  \<^item> Webhook, WebhookFacts: \<open>stripeadapter/parser.go\<close>, \<open>dedup/dedup.go\<close>, \<open>http/stripe_handler.go\<close>. The
    deduplicator is a locale that Redis implements within one TTL; at most one forwarding per event, what
    a failed one means for all its redeliveries, and the way of an event into the orchestrator's tables.
  \<^item> WebhookSteps: deliveries that race, cut at the commands to Redis; the mark that never expires.
  \<^item> RequestIds: \<open>libs/observability/requestid.go\<close> and \<open>libs/grpcutil\<close>, contexts and gRPC metadata.
  \<^item> WebhookRouter: \<open>internal/http/router.go\<close>, the routes behind the middlewares for request ids, the access
    log, panics and metrics; a service without a Redis address.

  \<^bold>\<open>API.\<close>
  \<^item> Json, Sha256: what \<open>encoding/json\<close> decides on a decoded body, and the hash of the canonical request.
  \<^item> Api, ApiFacts: the endpoints of \<open>http/router.go\<close>, and their contracts over the orchestrator.
  \<^item> RateLimit, RateLimitFacts: \<open>http/middleware/ratelimit.go\<close>. For checks that come one after the other the
    limiter refines a token bucket in exact arithmetic, up to hundredths of a token and a slack for its
    floats; burst and rate; the race of checks that overlap.
  \<^item> LimiterCounters: the limiter's own counters beside those of Prometheus, and where they differ.
  \<^item> ApiServer, ApiServerFacts: \<open>config/config.go\<close> and the chain of \<open>NewRouterWithClient\<close>.
  \<^item> HttpMetrics: \<open>libs/observability/http_metrics.go\<close>, as the calls to the Prometheus client, around this chain.
  \<^item> ApiRouter: the whole chain of \<open>NewRouterWithClient\<close>, with request ids and the access log, and the id's way
    to the orchestrator.
  \<^item> ConcurrentApi: posts that race over one orchestrator, and what their answers have in common.
  \<^item> Lifecycle: a payout from its post over Stripe's event to its last state, across the three services.

  \<^bold>\<open>Bounds.\<close> All functions are total. The exactness of the limiter's counts needs numbers below \<open>2^53\<close>, and its
  bound over time a burst of at most \<open>2^40\<close> and five minutes, after which an idle bucket expires; against
  the exact bucket the burst is at most \<open>2^20\<close>, so that the floats err by less than a millionth. The loop
  of \<open>time.ParseDuration\<close> runs with the length of its text as fuel, and each round takes a character.
  What holds over a webhook's deliveries holds within one TTL.

  \<^bold>\<open>Not modelled.\<close> That Postgres and gRPC refuse text with a zero byte or invalid UTF-8, where the tables
  here take any text; that a closure may panic inside RunInTx (the only one does not); exponents, infinities
  and hexadecimal digits in the text of a bucket, which the limiter never writes. What is written to the
  log, but for the access logs; the code of the gRPC interceptors, which is go-grpc-prometheus's; latencies
  and their buckets; what cobra makes of a command line and prints by itself; the generated protobuf code
  beyond the fields that handlers use; the decoding of bytes to JSON and YAML trees; cancellation of
  contexts, which shows as a lost round trip; panics, but for the call on a nil Redis client in the webhook
  service and the API's \<open>main\<close>; how chi matches a route, and what its Recoverer answers.
\<close>

end
